theory Spec2Isabelle
  imports Complex_Main
begin

section \<open>Tensors, errors and the linear layer\<close>

text \<open>
  The repository is a PyTorch model. Tensors are modelled as nested lists whose outer
  list is the batch axis: a tensor of shape (batch, d) is a \<open>real list list\<close>, one of
  shape (batch, n, d) a \<open>real list list list\<close>. The entries are real numbers, except in
  the attention pooling, whose results depend on the rounding, the overflow and the
  special values of float32 and whose tensors have float32 entries. Token ids and
  attention masks are integer tensors. Every exception the Python code or the tensor
  library raises is a value \<open>Inl e\<close> of the result type.
\<close>

datatype error = ValueError | TypeError | AttributeError | IndexError | RuntimeError

fun mapM :: "('a \<Rightarrow> error + 'b) \<Rightarrow> 'a list \<Rightarrow> error + 'b list" where
  "mapM f [] = Inr []"
| "mapM f (x # xs) =
     (case f x of
        Inl e \<Rightarrow> Inl e
      | Inr y \<Rightarrow> (case mapM f xs of Inl e \<Rightarrow> Inl e | Inr ys \<Rightarrow> Inr (y # ys)))"

definition dot :: "real list \<Rightarrow> real list \<Rightarrow> real" where
  "dot w v = sum_list (map2 (*) w v)"

text \<open>
  \<open>nn.Linear(in_features, out_features, bias)\<close>: the weight has \<open>out_features\<close> rows of
  \<open>in_features\<close> entries. The layer acts on the last axis and raises a RuntimeError when
  that axis does not have \<open>in_features\<close> entries.
\<close>

record Linear =
  in_features :: nat
  out_features :: nat
  weight :: "real list list"
  bias :: "real list option"

definition Linear_wf :: "Linear \<Rightarrow> bool" where
  "Linear_wf L \<longleftrightarrow>
     length (weight L) = out_features L \<and>
     list_all (\<lambda>w. length w = in_features L) (weight L) \<and>
     (case bias L of None \<Rightarrow> True | Some b \<Rightarrow> length b = out_features L)"

definition Linear_forward :: "Linear \<Rightarrow> real list \<Rightarrow> error + real list" where
  "Linear_forward L v =
     (if length v \<noteq> in_features L then Inl RuntimeError
      else Inr (case bias L of
                  None \<Rightarrow> map (\<lambda>w. dot w v) (weight L)
                | Some b \<Rightarrow> map2 (\<lambda>w c. dot w v + c) (weight L) b))"

text \<open>
  A per-sample tensor handed to the MLP of the classification head: a vector (the batch
  tensor is 2-D) or a matrix (the batch tensor is 3-D). \<open>view_flat\<close> is \<open>out.view(-1)\<close>.
\<close>

datatype sten = Vec "real list" | Mat "real list list"

fun flat :: "sten \<Rightarrow> real list" where
  "flat (Vec v) = v"
| "flat (Mat m) = concat m"

definition view_flat :: "sten list \<Rightarrow> real list" where
  "view_flat out = concat (map flat out)"

section \<open>Classification head (framework_model.py)\<close>

text \<open>
  \<open>SimpleMLP\<close>, \<open>CompactMLP\<close> and \<open>VectorAttention\<close> are defined in modules of the
  repository that are not part of the sources at hand; the head takes their forward
  functions as the fields \<open>mlp\<close> and \<open>vector_attention\<close>. \<open>proj\<close> is
  \<open>nn.Linear(corpus_emb_dim, nontext_dim, bias=False)\<close> with its current weights.
\<close>

record ClassificationHead =
  head_corpus_emb_dim :: nat
  head_nontext_dim :: nat
  mlp :: "sten list \<Rightarrow> error + sten list"
  vector_attention :: "real list list list \<Rightarrow> real list list \<Rightarrow> error + real list list"
  proj :: Linear

definition ClassificationHead_init ::
  "nat \<Rightarrow> nat \<Rightarrow> (sten list \<Rightarrow> error + sten list) \<Rightarrow>
   (real list list list \<Rightarrow> real list list \<Rightarrow> error + real list list) \<Rightarrow>
   real list list \<Rightarrow> ClassificationHead" where
  "ClassificationHead_init corpus_emb_dim nontext_dim mlp_fn va_fn proj_weight =
     \<lparr>head_corpus_emb_dim = corpus_emb_dim,
      head_nontext_dim = nontext_dim,
      mlp = mlp_fn,
      vector_attention = va_fn,
      proj = \<lparr>in_features = corpus_emb_dim, out_features = nontext_dim,
              weight = proj_weight, bias = None\<rparr>\<rparr>"

text \<open>
  \<open>head_input\<close> is the first half of \<open>ClassificationHead.forward\<close>: the tensor \<open>x\<close> that
  reaches \<open>self.mlp\<close>, or the error raised before.
\<close>

definition head_input ::
  "ClassificationHead \<Rightarrow> real list list option \<Rightarrow> real list list list option \<Rightarrow>
   error + sten list" where
  "head_input H x_corpus x_nontext =
     (if (x_corpus = None \<or> head_corpus_emb_dim H = 0) \<and>
         (x_nontext = None \<or> head_nontext_dim H = 0)
      then Inl ValueError
      else if x_corpus = None \<or> head_corpus_emb_dim H = 0 then
        (case x_nontext of None \<Rightarrow> Inl TypeError | Some xn \<Rightarrow> Inr (map Mat xn))
      else if x_nontext = None \<or> head_nontext_dim H = 0 then
        (case x_corpus of None \<Rightarrow> Inl TypeError | Some xc \<Rightarrow> Inr (map Vec xc))
      else
        (case (x_corpus, x_nontext) of
           (Some xc, Some xn) \<Rightarrow>
             (case mapM (Linear_forward (proj H)) xc of
                Inl e \<Rightarrow> Inl e
              | Inr q \<Rightarrow>
                  (case vector_attention H xn q of
                     Inl e \<Rightarrow> Inl e
                   | Inr x \<Rightarrow> Inr (map Vec x)))
         | _ \<Rightarrow> Inl TypeError))"

definition ClassificationHead_forward ::
  "ClassificationHead \<Rightarrow> real list list option \<Rightarrow> real list list list option \<Rightarrow>
   error + real list" where
  "ClassificationHead_forward H x_corpus x_nontext =
     (case head_input H x_corpus x_nontext of
        Inl e \<Rightarrow> Inl e
      | Inr x \<Rightarrow> (case mlp H x of Inl e \<Rightarrow> Inl e | Inr out \<Rightarrow> Inr (view_flat out)))"

section \<open>Nontextual network (framework_model.py)\<close>

text \<open>
  \<open>CNN1D\<close> is defined in a module of the repository that is not part of the sources at
  hand; its forward function is the field \<open>cnn\<close>. The constructor receives the weights of
  \<open>category_embedding = nn.Linear(9, input_channels - 1, bias=True)\<close>; the layer cannot be
  built when \<open>input_channels - 1\<close> is negative.
\<close>

record NontextualNetwork =
  layers_nontext :: nat
  input_dim :: nat
  input_channels :: nat
  output_dim :: nat
  category_embedding :: Linear
  cnn :: "real list list list \<Rightarrow> error + real list list list"

definition NontextualNetwork_init ::
  "nat \<Rightarrow> nat \<Rightarrow> nat \<Rightarrow> nat \<Rightarrow> real list list \<Rightarrow> real list \<Rightarrow>
   (real list list list \<Rightarrow> error + real list list list) \<Rightarrow> error + NontextualNetwork" where
  "NontextualNetwork_init in_dim in_channels out_dim n_layers emb_weight emb_bias cnn_fn =
     (if in_channels = 0 then Inl RuntimeError
      else Inr \<lparr>layers_nontext = n_layers,
                input_dim = in_dim,
                input_channels = in_channels,
                output_dim = out_dim,
                category_embedding =
                  \<lparr>in_features = 9, out_features = in_channels - 1,
                   weight = emb_weight, bias = Some emb_bias\<rparr>,
                cnn = cnn_fn\<rparr>)"

text \<open>\<open>size1 x\<close> is \<open>x.size(1)\<close> of a tensor with at least one row.\<close>

definition size1 :: "'a list list \<Rightarrow> nat" where
  "size1 x = (case x of [] \<Rightarrow> 0 | r # _ \<Rightarrow> length r)"

text \<open>
  \<open>nn_stack\<close> is the tensor handed to \<open>self.cnn\<close>: the embedded category vector repeated
  along the time axis, followed by the numeric series as the last channel.
\<close>

definition nn_stack :: "NontextualNetwork \<Rightarrow> real list list \<Rightarrow> error + real list list list" where
  "nn_stack N x =
     (let x_num = map (take 10) x;
          category = map (drop 10) x
      in case mapM (Linear_forward (category_embedding N)) category of
           Inl e \<Rightarrow> Inl e
         | Inr cat_feat \<Rightarrow>
             Inr (map2 (\<lambda>cf r. map (\<lambda>c. replicate (size1 x_num) c) cf @ [r]) cat_feat x_num))"

definition NontextualNetwork_forward ::
  "NontextualNetwork \<Rightarrow> real list list option \<Rightarrow> error + real list list list" where
  "NontextualNetwork_forward N x =
     (case x of
        None \<Rightarrow> Inl TypeError
      | Some xv \<Rightarrow> (case nn_stack N xv of Inl e \<Rightarrow> Inl e | Inr xs \<Rightarrow> cnn N xs))"

section \<open>float32 arithmetic\<close>

text \<open>
  The attention pooling of \<open>model_03/model.py\<close> exponentiates its scores and divides by
  their sum, under \<open>torch.set_default_dtype(torch.float32)\<close>: what it returns depends on
  rounding, on overflow and on the special values of float32. Its tensors have entries
  of type \<open>fl\<close>: a finite value, plus infinity, minus infinity, or NaN. The sign of a zero
  is not part of the model; a zero divisor counts as \<open>+0\<close>.

  \<open>rnd32\<close> rounds a real number to the nearest float32 value, ties to even: the
  significand has 24 bits, the exponent is at least \<open>-126\<close> (below \<open>2 ^ -126\<close> the
  spacing of the values stays \<open>2 ^ -149\<close>), and a number that rounds to \<open>2 ^ 128\<close> or
  beyond becomes the infinity of its sign. \<open>fadd\<close>, \<open>fmul\<close> and \<open>fdiv\<close> are the
  operations of IEEE 754: the exact result, rounded, and the standard's results on the
  special values (\<open>inf * 0\<close>, \<open>inf - inf\<close>, \<open>0 / 0\<close> and \<open>inf / inf\<close> are NaN).
  \<open>is_fin\<close> tells the finite values, \<open>fval\<close> reads one.
\<close>

datatype fl = Fin real | PInf | NInf | NaN

definition rne :: "real \<Rightarrow> int" where
  "rne y =
     (let f = \<lfloor>y\<rfloor> in
      if y - of_int f < 1 / 2 then f
      else if 1 / 2 < y - of_int f then f + 1
      else if even f then f else f + 1)"

definition rnd32 :: "real \<Rightarrow> fl" where
  "rnd32 x =
     (if x = 0 then Fin 0
      else
        (let e = max \<lfloor>log 2 \<bar>x\<bar>\<rfloor> (- 126);
             q = 2 powr (of_int e - 23);
             r = of_int (rne (x / q)) * q
         in if 2 ^ 128 \<le> \<bar>r\<bar> then (if 0 < x then PInf else NInf) else Fin r))"

definition is_fin :: "fl \<Rightarrow> bool" where
  "is_fin v \<longleftrightarrow> (case v of Fin _ \<Rightarrow> True | _ \<Rightarrow> False)"

definition fval :: "fl \<Rightarrow> real" where
  "fval v = (case v of Fin r \<Rightarrow> r | _ \<Rightarrow> 0)"

fun fadd :: "fl \<Rightarrow> fl \<Rightarrow> fl" where
  "fadd (Fin x) (Fin y) = rnd32 (x + y)"
| "fadd NaN _ = NaN"
| "fadd _ NaN = NaN"
| "fadd PInf NInf = NaN"
| "fadd NInf PInf = NaN"
| "fadd PInf _ = PInf"
| "fadd _ PInf = PInf"
| "fadd NInf _ = NInf"
| "fadd _ NInf = NInf"

fun fmul :: "fl \<Rightarrow> fl \<Rightarrow> fl" where
  "fmul (Fin x) (Fin y) = rnd32 (x * y)"
| "fmul NaN _ = NaN"
| "fmul _ NaN = NaN"
| "fmul (Fin x) PInf = (if x = 0 then NaN else if 0 < x then PInf else NInf)"
| "fmul (Fin x) NInf = (if x = 0 then NaN else if 0 < x then NInf else PInf)"
| "fmul PInf (Fin y) = (if y = 0 then NaN else if 0 < y then PInf else NInf)"
| "fmul NInf (Fin y) = (if y = 0 then NaN else if 0 < y then NInf else PInf)"
| "fmul PInf PInf = PInf"
| "fmul NInf NInf = PInf"
| "fmul PInf NInf = NInf"
| "fmul NInf PInf = NInf"

fun fdiv :: "fl \<Rightarrow> fl \<Rightarrow> fl" where
  "fdiv (Fin x) (Fin y) =
     (if y = 0 then (if x = 0 then NaN else if 0 < x then PInf else NInf)
      else rnd32 (x / y))"
| "fdiv NaN _ = NaN"
| "fdiv _ NaN = NaN"
| "fdiv (Fin x) _ = Fin 0"
| "fdiv PInf (Fin y) = (if 0 \<le> y then PInf else NInf)"
| "fdiv NInf (Fin y) = (if 0 \<le> y then NInf else PInf)"
| "fdiv _ _ = NaN"

text \<open>
  \<open>torch.exp\<close>, \<open>nn.Tanh\<close>, \<open>torch.sum\<close> and the matrix product of \<open>nn.Linear\<close> are
  kernels of the tensor library: the source does not fix how they round or in which
  order they add. The attention module takes them as the fields of \<open>arith\<close>: \<open>exp32\<close>
  and \<open>tanh32\<close> act on one entry, \<open>sum32\<close> adds the entries of a list, and
  \<open>lin32 w b v\<close> is one output entry of a linear layer, the product of the weight row
  \<open>w\<close> with the input \<open>v\<close>, plus the bias entry \<open>b\<close> if the layer has a bias.
\<close>

record arith =
  exp32 :: "fl \<Rightarrow> fl"
  tanh32 :: "fl \<Rightarrow> fl"
  sum32 :: "fl list \<Rightarrow> fl"
  lin32 :: "fl list \<Rightarrow> fl option \<Rightarrow> fl list \<Rightarrow> fl"

text \<open>\<open>nn.Linear\<close> on float32 tensors, with the kernel \<open>lin32\<close> for every output entry.\<close>

record Linear32 =
  in_features32 :: nat
  out_features32 :: nat
  weight32 :: "fl list list"
  bias32 :: "fl list option"

definition Linear32_forward :: "arith \<Rightarrow> Linear32 \<Rightarrow> fl list \<Rightarrow> error + fl list" where
  "Linear32_forward ar L v =
     (if length v \<noteq> in_features32 L then Inl RuntimeError
      else Inr (case bias32 L of
                  None \<Rightarrow> map (\<lambda>w. lin32 ar w None v) (weight32 L)
                | Some b \<Rightarrow> map2 (\<lambda>w c. lin32 ar w (Some c) v) (weight32 L) b))"

section \<open>Context-attention pooling (model_03/model.py)\<close>

text \<open>
  \<open>AttentionWithContext.__init__\<close> builds \<open>W = nn.Linear(input_shape, input_shape)\<close> with
  a bias and \<open>u = nn.Linear(input_shape, 1, bias=False)\<close>, and \<open>init_weights\<close> draws
  the weights of both and the bias of \<open>W\<close> uniformly from \<open>(-0.1, 0.1)\<close>; training and
  \<open>load_state_dict\<close> replace them. The constructor of the model takes the weights as
  arguments. (\<open>init_weights\<close> reads \<open>self.W.bias.data\<close>: the constructor returns only
  for \<open>bias=True\<close>, its default.)
\<close>

record AttentionWithContext =
  return_coefficients :: bool
  attn_W :: Linear32
  attn_u :: Linear32

definition AttentionWithContext_init ::
  "nat \<Rightarrow> bool \<Rightarrow> fl list list \<Rightarrow> fl list \<Rightarrow> fl list \<Rightarrow> AttentionWithContext" where
  "AttentionWithContext_init input_shape ret_coeff W_weight W_bias u_weight =
     \<lparr>return_coefficients = ret_coeff,
      attn_W = \<lparr>in_features32 = input_shape, out_features32 = input_shape,
                weight32 = W_weight, bias32 = Some W_bias\<rparr>,
      attn_u = \<lparr>in_features32 = input_shape, out_features32 = 1,
                weight32 = [u_weight], bias32 = None\<rparr>\<rparr>"

text \<open>
  \<open>broadcast f\<close> combines two tensors along one axis as the library's broadcasting
  does: entry by entry when the axis has the same length in both, an axis of length 1
  is repeated along the other one, and any other pair of lengths raises a RuntimeError.
  \<open>broadcast3\<close> does so on the three axes of two tensors of rank 3.
\<close>

definition broadcast :: "('a \<Rightarrow> 'b \<Rightarrow> error + 'c) \<Rightarrow> 'a list \<Rightarrow> 'b list \<Rightarrow> error + 'c list" where
  "broadcast f xs ys =
     (if length xs = length ys then mapM (\<lambda>(x, y). f x y) (zip xs ys)
      else if length xs = 1 then mapM (f (hd xs)) ys
      else if length ys = 1 then mapM (\<lambda>x. f x (hd ys)) xs
      else Inl RuntimeError)"

definition broadcast3 ::
  "('a \<Rightarrow> 'b \<Rightarrow> 'c) \<Rightarrow> 'a list list list \<Rightarrow> 'b list list list \<Rightarrow> error + 'c list list list" where
  "broadcast3 f = broadcast (broadcast (broadcast (\<lambda>a b. Inr (f a b))))"

text \<open>
  \<open>attention_logits\<close> is \<open>ait = self.u(self.tanh(self.W(x)))\<close>, of shape
  (samples, steps, 1). \<open>attention_scores\<close> is \<open>a\<close> before the normalisation:
  \<open>torch.exp(ait)\<close>, multiplied by \<open>mask.float()\<close> if there is a mask. The mask is an
  integer tensor of rank 3 (the source: "mask has size (samples, steps, 1)").
\<close>

definition attention_logits ::
  "arith \<Rightarrow> AttentionWithContext \<Rightarrow> fl list list list \<Rightarrow> error + fl list list list" where
  "attention_logits ar A x =
     (case mapM (mapM (Linear32_forward ar (attn_W A))) x of
        Inl e \<Rightarrow> Inl e
      | Inr uit \<Rightarrow>
          mapM (mapM (Linear32_forward ar (attn_u A))) (map (map (map (tanh32 ar))) uit))"

definition apply_mask ::
  "fl list list list \<Rightarrow> int list list list option \<Rightarrow> error + fl list list list" where
  "apply_mask a amask =
     (case amask of
        None \<Rightarrow> Inr a
      | Some m \<Rightarrow> broadcast3 fmul a (map (map (map (\<lambda>k. rnd32 (real_of_int k)))) m))"

definition attention_scores ::
  "arith \<Rightarrow> AttentionWithContext \<Rightarrow> fl list list list \<Rightarrow> int list list list option \<Rightarrow>
   error + fl list list list" where
  "attention_scores ar A x amask =
     (case attention_logits ar A x of
        Inl e \<Rightarrow> Inl e
      | Inr ait \<Rightarrow> apply_mask (map (map (map (exp32 ar))) ait) amask)"

text \<open>
  \<open>sum_steps ar k rows\<close> is \<open>torch.sum(_, axis=1)\<close> on one sample \<open>rows\<close> of shape
  (steps, k). \<open>width d rows\<close> is the size of the last axis of a sample, read off its
  first step; \<open>d\<close> is that size for a sample without steps. \<open>eps\<close> is the float32
  value of \<open>1e-9\<close>. \<open>normalise\<close> is
  \<open>a / (torch.sum(a, axis=1, keepdim=True) + eps)\<close> on one sample.
\<close>

definition width :: "nat \<Rightarrow> 'a list list \<Rightarrow> nat" where
  "width d rows = (case rows of [] \<Rightarrow> d | r # _ \<Rightarrow> length r)"

definition sum_steps :: "arith \<Rightarrow> nat \<Rightarrow> fl list list \<Rightarrow> fl list" where
  "sum_steps ar k rows = map (\<lambda>j. sum32 ar (map (\<lambda>r. r ! j) rows)) [0..<k]"

definition eps :: fl where
  "eps = rnd32 (1 / 10 ^ 9)"

definition normalise :: "arith \<Rightarrow> fl list list \<Rightarrow> fl list list" where
  "normalise ar rows =
     (let den = map (\<lambda>s. fadd s eps) (sum_steps ar (width 1 rows) rows)
      in map (\<lambda>r. map2 fdiv r den) rows)"

text \<open>
  \<open>AttentionWithContext.forward\<close>. The result is the pair of \<open>weighted_input\<close> and, if
  \<open>return_coefficients\<close> is set, the coefficients \<open>a\<close>. \<open>coefficients\<close> reads the
  coefficients of a result; it is the empty tensor where there are none.
\<close>

definition AttentionWithContext_forward ::
  "arith \<Rightarrow> AttentionWithContext \<Rightarrow> fl list list list \<Rightarrow> int list list list option \<Rightarrow>
   error + (fl list list \<times> fl list list list option)" where
  "AttentionWithContext_forward ar A x amask =
     (case attention_scores ar A x amask of
        Inl e \<Rightarrow> Inl e
      | Inr a0 \<Rightarrow>
          (let a = map (normalise ar) a0
           in case broadcast3 fmul a x of
                Inl e \<Rightarrow> Inl e
              | Inr ax \<Rightarrow>
                  (let weighted_input =
                         map (\<lambda>rows. sum_steps ar (width (in_features32 (attn_W A)) rows) rows) ax
                   in Inr (weighted_input, if return_coefficients A then Some a else None))))"


section \<open>Document and corpus encoder (model_03/model.py)\<close>

text \<open>
  The pretrained transformer (\<open>DistilBertModel\<close>, its \<open>last_hidden_state\<close>) and
  \<open>nn.Dropout\<close> are library modules; the document encoder takes their forward functions
  as the fields \<open>text_encoder\<close> and \<open>dropout\<close>. In evaluation mode \<open>dropout\<close> is the
  identity.
\<close>

record DocumentEncoder =
  text_encoder :: "int list list \<Rightarrow> int list list option \<Rightarrow> error + real list list list"
  dropout :: "real list list \<Rightarrow> real list list"

definition DocumentEncoder_forward ::
  "DocumentEncoder \<Rightarrow> int list list \<Rightarrow> int list list option \<Rightarrow> error + real list list" where
  "DocumentEncoder_forward D x attention_mask =
     (case text_encoder D x attention_mask of
        Inl e \<Rightarrow> Inl e
      | Inr h \<Rightarrow>
          (case mapM (\<lambda>steps. case steps of [] \<Rightarrow> Inl IndexError | s # _ \<Rightarrow> Inr s) h of
             Inl e \<Rightarrow> Inl e
           | Inr cls \<Rightarrow> Inr (dropout D cls)))"

record CorpusEncoder03 =
  doc_encoder :: DocumentEncoder
  ce03_W :: Linear
  ce03_corpus_emb_dim :: nat

definition CorpusEncoder03_init ::
  "(int list list \<Rightarrow> int list list option \<Rightarrow> error + real list list list) \<Rightarrow>
   (real list list \<Rightarrow> real list list) \<Rightarrow> real list list \<Rightarrow> real list \<Rightarrow> CorpusEncoder03" where
  "CorpusEncoder03_init enc_fn dropout_fn W_weight W_bias =
     \<lparr>doc_encoder = \<lparr>text_encoder = enc_fn, dropout = dropout_fn\<rparr>,
      ce03_W = \<lparr>in_features = 768, out_features = 32,
                weight = W_weight, bias = Some W_bias\<rparr>,
      ce03_corpus_emb_dim = 32\<rparr>"

text \<open>
  \<open>chunks n k xs\<close> cuts \<open>n\<close> rows of \<open>k\<close> entries from the flat data \<open>xs\<close>.
  \<open>view2 n xs\<close> is \<open>t.view(n, -1)\<close> on a tensor \<open>t\<close> with flat data \<open>xs\<close>, and
  \<open>view3 b m xs\<close> is \<open>t.view(b, m, -1)\<close>: the missing size cannot be inferred when the
  given sizes multiply to 0 or do not divide the number of entries.
\<close>

fun chunks :: "nat \<Rightarrow> nat \<Rightarrow> 'a list \<Rightarrow> 'a list list" where
  "chunks 0 k xs = []"
| "chunks (Suc n) k xs = take k xs # chunks n k (drop k xs)"

definition view2 :: "nat \<Rightarrow> 'a list \<Rightarrow> error + 'a list list" where
  "view2 n xs =
     (if n = 0 \<or> length xs mod n \<noteq> 0 then Inl RuntimeError
      else Inr (chunks n (length xs div n) xs))"

definition view3 :: "nat \<Rightarrow> nat \<Rightarrow> 'a list \<Rightarrow> error + 'a list list list" where
  "view3 b m xs =
     (case view2 (b * m) xs of
        Inl e \<Rightarrow> Inl e
      | Inr rows \<Rightarrow> Inr (chunks b m rows))"

text \<open>\<open>max_docs\<close> is \<open>torch.max(x, dim=1)[0]\<close> for one sample: the entrywise maximum of its rows.\<close>

definition max_docs :: "real list list \<Rightarrow> error + real list" where
  "max_docs docs =
     (case docs of
        [] \<Rightarrow> Inl IndexError
      | d # ds \<Rightarrow> Inr (foldl (map2 max) d ds))"

definition CorpusEncoder03_forward ::
  "CorpusEncoder03 \<Rightarrow> int list list list \<Rightarrow> int list list list option \<Rightarrow>
   error + real list list" where
  "CorpusEncoder03_forward E x attention_mask =
     (let batch_size = length x;
          nb_docs = size1 x
      in case view2 (batch_size * nb_docs) (concat (concat x)) of
           Inl e \<Rightarrow> Inl e
         | Inr xf \<Rightarrow>
             (case attention_mask of
                None \<Rightarrow> Inl AttributeError
              | Some m \<Rightarrow>
                  (case view2 (batch_size * nb_docs) (concat (concat m)) of
                     Inl e \<Rightarrow> Inl e
                   | Inr attention_mask_flat \<Rightarrow>
                       (case DocumentEncoder_forward (doc_encoder E) xf (Some attention_mask_flat) of
                          Inl e \<Rightarrow> Inl e
                        | Inr d \<Rightarrow>
                            (case view3 batch_size nb_docs (concat d) of
                               Inl e \<Rightarrow> Inl e
                             | Inr x3 \<Rightarrow>
                                 (case mapM max_docs x3 of
                                    Inl e \<Rightarrow> Inl e
                                  | Inr pooled \<Rightarrow>
                                      mapM (Linear_forward (ce03_W E)) pooled))))))"

section \<open>Generic corpus encoder (framework_model.py)\<close>

text \<open>
  An attribute of a Python object is unset (reading it raises AttributeError), set to
  None, or set to a value. The constructor receives the two instances that the calls
  \<open>CorpusEncoder03(**kwargs_ce)\<close> create, in the order of the calls.
\<close>

datatype 'a attr = Unset | NoneVal | Val 'a

record CorpusEncoder =
  ce_method :: "string option"
  ce_separate :: bool
  encoder :: "CorpusEncoder03 attr"
  encoder_ecb :: "CorpusEncoder03 attr"
  encoder_fed :: "CorpusEncoder03 attr"
  ce_corpus_emb_dim :: "nat attr"

definition CorpusEncoder_init ::
  "CorpusEncoder03 \<Rightarrow> CorpusEncoder03 \<Rightarrow> string option \<Rightarrow> bool \<Rightarrow> CorpusEncoder" where
  "CorpusEncoder_init new1 new2 method separate =
     (let stub = \<lparr>ce_method = method, ce_separate = separate,
                  encoder = Unset, encoder_ecb = Unset, encoder_fed = Unset,
                  ce_corpus_emb_dim = Unset\<rparr>
      in if method = Some ''bow'' then
           stub\<lparr>ce_corpus_emb_dim := Val (1 * (1 + (if separate then 1 else 0)))\<rparr>
         else if method = Some ''max_pooling'' then
           stub\<lparr>ce_corpus_emb_dim := Val (1 * (1 + (if separate then 1 else 0)))\<rparr>
         else if method = Some ''hierbert'' then
           stub\<lparr>ce_corpus_emb_dim := Val (1 * (1 + (if separate then 1 else 0)))\<rparr>
         else if method = Some ''model_03'' then
           (if \<not> separate then
              stub\<lparr>encoder := Val new1, encoder_ecb := NoneVal, encoder_fed := NoneVal,
                   ce_corpus_emb_dim := Val (ce03_corpus_emb_dim new1)\<rparr>
            else
              stub\<lparr>encoder := NoneVal, encoder_ecb := Val new1, encoder_fed := Val new2,
                   ce_corpus_emb_dim := Val (2 * ce03_corpus_emb_dim new1)\<rparr>)
         else if method = None then
           stub\<lparr>ce_corpus_emb_dim := Val 0\<rparr>
         else stub)"

definition tuple_get :: "'a list \<Rightarrow> nat \<Rightarrow> error + 'a" where
  "tuple_get xs i = (if i < length xs then Inr (xs ! i) else Inl IndexError)"

text \<open>\<open>call_encoder\<close> is \<open>self.<attribute>(x[i], x_masks[i])\<close>.\<close>

definition call_encoder ::
  "CorpusEncoder03 attr \<Rightarrow> int list list list list \<Rightarrow> int list list list option list \<Rightarrow>
   nat \<Rightarrow> error + real list list" where
  "call_encoder a x x_masks i =
     (case a of
        Unset \<Rightarrow> Inl AttributeError
      | NoneVal \<Rightarrow>
          (case tuple_get x i of
             Inl e \<Rightarrow> Inl e
           | Inr xi \<Rightarrow> (case tuple_get x_masks i of Inl e \<Rightarrow> Inl e | Inr mi \<Rightarrow> Inl TypeError))
      | Val E \<Rightarrow>
          (case tuple_get x i of
             Inl e \<Rightarrow> Inl e
           | Inr xi \<Rightarrow>
               (case tuple_get x_masks i of
                  Inl e \<Rightarrow> Inl e
                | Inr mi \<Rightarrow> CorpusEncoder03_forward E xi mi)))"

text \<open>\<open>cat1\<close> is \<open>torch.cat([a, b], dim=1)\<close> of two 2-D tensors.\<close>

definition cat1 :: "real list list \<Rightarrow> real list list \<Rightarrow> error + real list list" where
  "cat1 a b = (if length a = length b then Inr (map2 (@) a b) else Inl RuntimeError)"

text \<open>
  The branches of the \<open>if\<close>/\<open>elif\<close> chain for \<open>'bow'\<close>, \<open>'max_pooling'\<close>, \<open>'hierbert'\<close> and
  \<open>'model_01'\<close> are \<open>pass\<close>; only the branch for None returns.
\<close>

definition CorpusEncoder_forward ::
  "CorpusEncoder \<Rightarrow> int list list list list \<Rightarrow> int list list list option list \<Rightarrow>
   error + real list list option" where
  "CorpusEncoder_forward C x x_masks =
     (let encode =
        (if ce_separate C then
           (case call_encoder (encoder_ecb C) x x_masks 0 of
              Inl e \<Rightarrow> Inl e
            | Inr x_ecb \<Rightarrow>
                (case call_encoder (encoder_fed C) x x_masks 1 of
                   Inl e \<Rightarrow> Inl e
                 | Inr x_fed \<Rightarrow>
                     (case cat1 x_ecb x_fed of Inl e \<Rightarrow> Inl e | Inr out \<Rightarrow> Inr (Some out))))
         else
           (case call_encoder (encoder C) x x_masks 0 of
              Inl e \<Rightarrow> Inl e
            | Inr out \<Rightarrow> Inr (Some out)))
      in if ce_method C = Some ''bow'' then encode
         else if ce_method C = Some ''max_pooling'' then encode
         else if ce_method C = Some ''hierbert'' then encode
         else if ce_method C = Some ''model_01'' then encode
         else if ce_method C = None then Inr None
         else encode)"

section \<open>Top-level model (framework_model.py)\<close>

record MyModel =
  mm_method :: "string option"
  nontext_network :: NontextualNetwork
  mm_nontext_dim :: nat
  corpus_encoder :: CorpusEncoder
  classifier :: ClassificationHead

text \<open>
  The constructor receives the sub-modules that its calls create; it reads
  \<open>self.corpus_encoder.corpus_emb_dim\<close>, which is unset for a method without a branch
  in \<open>CorpusEncoder.__init__\<close>.
\<close>

definition MyModel_init ::
  "string option \<Rightarrow> error + NontextualNetwork \<Rightarrow> CorpusEncoder03 \<Rightarrow> CorpusEncoder03 \<Rightarrow>
   ClassificationHead \<Rightarrow> bool \<Rightarrow> error + MyModel" where
  "MyModel_init method new_nontext new1 new2 new_head separate =
     (case new_nontext of
        Inl e \<Rightarrow> Inl e
      | Inr N \<Rightarrow>
          (let C = CorpusEncoder_init new1 new2 method separate
           in case ce_corpus_emb_dim C of
                Unset \<Rightarrow> Inl AttributeError
              | _ \<Rightarrow> Inr \<lparr>mm_method = method, nontext_network = N,
                           mm_nontext_dim = output_dim N, corpus_encoder = C,
                           classifier = new_head\<rparr>))"

definition MyModel_forward ::
  "MyModel \<Rightarrow> int list list list list \<Rightarrow> int list list list option list \<Rightarrow>
   real list list option \<Rightarrow> error + real list" where
  "MyModel_forward M x_text x_masks x_nontext =
     (case NontextualNetwork_forward (nontext_network M) x_nontext of
        Inl e \<Rightarrow> Inl e
      | Inr xn \<Rightarrow>
          (case (if mm_method M = None then Inr None
                 else CorpusEncoder_forward (corpus_encoder M) x_text x_masks) of
             Inl e \<Rightarrow> Inl e
           | Inr x_corpus \<Rightarrow> ClassificationHead_forward (classifier M) x_corpus (Some xn)))"

section \<open>Contracts of the absent modules\<close>

text \<open>
  Modelled from the spec: \<open>CNN1D\<close> (module \<open>vector_attention\<close>, not among the sources).
  The spec, section 4.6: the extractor runs over the multichannel sequence
  (\<open>input_channels\<close> channels over 10 positions) and produces the per-step embedding
  sequence, 10 steps of width \<open>output_dim\<close>, for every sample.
\<close>

definition cnn_contract ::
  "nat \<Rightarrow> nat \<Rightarrow> (real list list list \<Rightarrow> error + real list list list) \<Rightarrow> bool" where
  "cnn_contract c d f \<longleftrightarrow>
     (\<forall>x. list_all (\<lambda>s. length s = c \<and> list_all (\<lambda>ch. length ch = 10) s) x \<longrightarrow>
        (\<exists>y. f x = Inr y \<and> length y = length x \<and>
             list_all (\<lambda>s. length s = 10 \<and> list_all (\<lambda>h. length h = d) s) y))"

text \<open>
  Modelled from the spec: \<open>VectorAttention\<close> (module \<open>vector_attention\<close>, not among the
  sources). The spec, section 4.7: it consumes the nontextual embedding sequence and the
  projected corpus embedding of matching width and produces one fused vector per sample,
  of the width of the per-step embedding.
\<close>

definition va_contract ::
  "nat \<Rightarrow> (real list list list \<Rightarrow> real list list \<Rightarrow> error + real list list) \<Rightarrow> bool" where
  "va_contract d f \<longleftrightarrow>
     (\<forall>sq q. length sq = length q \<and> list_all (\<lambda>v. length v = d) q \<and>
             list_all (list_all (\<lambda>h. length h = d)) sq \<longrightarrow>
        (\<exists>x. f sq q = Inr x \<and> length x = length q \<and> list_all (\<lambda>v. length v = d) x))"

text \<open>
  Modelled from the spec: \<open>SimpleMLP\<close> and \<open>CompactMLP\<close> (module \<open>mlp\<close>, not among the
  sources). The spec, section 4.8: both variants expose the contract
  \<open>nontext_dim \<rightarrow> 1\<close>, one value for every vector of width \<open>nontext_dim\<close>.
\<close>

definition mlp_contract :: "nat \<Rightarrow> (sten list \<Rightarrow> error + sten list) \<Rightarrow> bool" where
  "mlp_contract d f \<longleftrightarrow>
     (\<forall>x. list_all (\<lambda>v. length v = d) x \<longrightarrow>
        (\<exists>out. f (map Vec x) = Inr (map Vec out) \<and> length out = length x \<and>
               list_all (\<lambda>v. length v = 1) out))"

text \<open>
  The contract of the pretrained transformer, a library module: where it returns for
  token ids \<open>x\<close> of shape (rows, steps) and a mask, it returns hidden states of shape
  (rows, steps, 768), as the comments of \<open>DocumentEncoder.forward\<close> state. Dropout keeps
  the shape of its argument.
\<close>

definition text_encoder_contract ::
  "(int list list \<Rightarrow> int list list option \<Rightarrow> error + real list list list) \<Rightarrow> bool" where
  "text_encoder_contract f \<longleftrightarrow>
     (\<forall>x m h. f x (Some m) = Inr h \<longrightarrow>
        list_all2 (\<lambda>r s. length s = length r \<and> list_all (\<lambda>v. length v = 768) s) x h)"

definition dropout_contract :: "(real list list \<Rightarrow> real list list) \<Rightarrow> bool" where
  "dropout_contract f \<longleftrightarrow> (\<forall>y. list_all2 (\<lambda>u v. length v = length u) y (f y))"

text \<open>\<open>shape3 b m t x\<close>: the nested list \<open>x\<close> is a tensor of shape (b, m, t).\<close>

definition shape3 :: "nat \<Rightarrow> nat \<Rightarrow> nat \<Rightarrow> 'a list list list \<Rightarrow> bool" where
  "shape3 b m t x \<longleftrightarrow>
     length x = b \<and> list_all (\<lambda>s. length s = m \<and> list_all (\<lambda>d. length d = t) s) x"

section \<open>Contract of the float32 kernels\<close>

text \<open>
  What the properties of the attention pooling use of the library kernels. A finite
  value of the exponential is not negative. The sum of at most \<open>2 ^ 20\<close> finite,
  non-negative entries whose exact sum \<open>S\<close> is at most \<open>2 ^ 126\<close> is finite, with at
  most the error of \<open>n\<close> float32 additions made in any order,
  \<open>n * (S / 2 ^ 23 + 1 / 2 ^ 149)\<close>. A sum of zeros is zero.
\<close>

definition float32 :: "arith \<Rightarrow> bool" where
  "float32 ar \<longleftrightarrow>
     (\<forall>v r. exp32 ar v = Fin r \<longrightarrow> 0 \<le> r) \<and>
     (\<forall>xs. list_all (\<lambda>x. 0 \<le> x) xs \<and> length xs \<le> 2 ^ 20 \<and> sum_list xs \<le> 2 ^ 126 \<longrightarrow>
        (\<exists>s. sum32 ar (map Fin xs) = Fin s \<and>
             \<bar>s - sum_list xs\<bar> \<le> real (length xs) * (sum_list xs / 2 ^ 23 + 1 / 2 ^ 149))) \<and>
     (\<forall>n. sum32 ar (replicate n (Fin 0)) = Fin 0)"

section \<open>Modules that act on every sample by itself\<close>

text \<open>
  A module acts per sample when its result on a batch is the list of its results on the
  samples: it returns on a batch exactly when a function \<open>g\<close> of one sample returns on
  every sample. This is what is assumed of the absent modules (\<open>CNN1D\<close>,
  \<open>VectorAttention\<close>, the MLP) and of the library modules (the transformer on rows of
  tokens, dropout on rows of features). For dropout it holds in evaluation mode, where it
  is the identity; in training mode its random mask is laid over the positions of the
  batch.
\<close>

definition per_sample :: "('a list \<Rightarrow> error + 'b list) \<Rightarrow> bool" where
  "per_sample f \<longleftrightarrow> (\<exists>g. \<forall>xs ys. f xs = Inr ys \<longleftrightarrow> mapM g xs = Inr ys)"

definition per_sample2 :: "('a list \<Rightarrow> 'b list \<Rightarrow> error + 'c list) \<Rightarrow> bool" where
  "per_sample2 f \<longleftrightarrow>
     (\<exists>g. \<forall>xs ys zs. length xs = length ys \<longrightarrow>
        (f xs ys = Inr zs \<longleftrightarrow> mapM (\<lambda>(x, y). g x y) (zip xs ys) = Inr zs))"

definition rowwise :: "('a list \<Rightarrow> 'b list) \<Rightarrow> bool" where
  "rowwise f \<longleftrightarrow> (\<exists>g. \<forall>xs. f xs = map g xs)"

definition encoder_ok :: "CorpusEncoder03 \<Rightarrow> bool" where
  "encoder_ok E \<longleftrightarrow>
     text_encoder_contract (text_encoder (doc_encoder E)) \<and>
     per_sample2 (\<lambda>x m. text_encoder (doc_encoder E) x (Some m)) \<and>
     dropout_contract (dropout (doc_encoder E)) \<and>
     rowwise (dropout (doc_encoder E))"

definition model_per_sample :: "MyModel \<Rightarrow> bool" where
  "model_per_sample M \<longleftrightarrow>
     per_sample (cnn (nontext_network M)) \<and>
     per_sample (mlp (classifier M)) \<and>
     per_sample2 (vector_attention (classifier M)) \<and>
     (\<forall>E. encoder (corpus_encoder M) = Val E \<or> encoder_ecb (corpus_encoder M) = Val E \<or>
          encoder_fed (corpus_encoder M) = Val E \<longrightarrow> encoder_ok E)"

text \<open>
  \<open>batch_wf n x_text x_masks x_nontext\<close>: the inputs of one forward pass are tensors with
  \<open>n\<close> samples, every mask of the shape of its token tensor. \<open>sample_text i\<close> and
  \<open>sample_masks i\<close> cut the batch of size 1 that holds sample \<open>i\<close> alone.
\<close>

definition batch_wf ::
  "nat \<Rightarrow> int list list list list \<Rightarrow> int list list list option list \<Rightarrow> real list list \<Rightarrow> bool" where
  "batch_wf n x_text x_masks x_nontext \<longleftrightarrow>
     length x_nontext = n \<and>
     (\<exists>w. list_all (\<lambda>r. length r = w) x_nontext) \<and>
     list_all2 (\<lambda>t mk. \<exists>m T. shape3 n m T t \<and>
                  (case mk of None \<Rightarrow> True | Some k \<Rightarrow> shape3 n m T k)) x_text x_masks"

definition sample_text :: "nat \<Rightarrow> int list list list list \<Rightarrow> int list list list list" where
  "sample_text i x_text = map (\<lambda>t. [t ! i]) x_text"

definition sample_masks ::
  "nat \<Rightarrow> int list list list option list \<Rightarrow> int list list list option list" where
  "sample_masks i x_masks = map (map_option (\<lambda>t. [t ! i])) x_masks"

section \<open>A concrete model\<close>

text \<open>
  Small stand-ins for the absent and the library modules, and a model built from them
  by the constructors. They instantiate the theorems below at concrete inputs.
\<close>

definition example_mlp :: "sten list \<Rightarrow> error + sten list" where
  "example_mlp x =
     Inr (map (\<lambda>s. case s of Vec v \<Rightarrow> Vec [sum_list v]
                            | Mat m \<Rightarrow> Mat (map (\<lambda>r. [sum_list r]) m)) x)"

definition example_attention ::
  "real list list list \<Rightarrow> real list list \<Rightarrow> error + real list list" where
  "example_attention sq q =
     (if length sq = length q then Inr (map2 (\<lambda>s v. foldr (map2 (+)) s v) sq q)
      else Inl RuntimeError)"

definition example_cnn :: "real list list list \<Rightarrow> error + real list list list" where
  "example_cnn x = Inr (map transpose x)"

definition example_text_encoder ::
  "int list list \<Rightarrow> int list list option \<Rightarrow> error + real list list list" where
  "example_text_encoder x m = Inr (map (map (\<lambda>t. replicate 768 (real_of_int t))) x)"

definition eval_dropout :: "real list list \<Rightarrow> real list list" where
  "eval_dropout x = x"

definition example_encoder :: CorpusEncoder03 where
  "example_encoder =
     CorpusEncoder03_init example_text_encoder eval_dropout
       (replicate 32 (1 # replicate 767 0)) (replicate 32 0)"

definition example_encoder_fed :: CorpusEncoder03 where
  "example_encoder_fed =
     CorpusEncoder03_init example_text_encoder eval_dropout
       (replicate 32 (2 # replicate 767 0)) (replicate 32 1)"

definition example_nontext :: NontextualNetwork where
  "example_nontext =
     \<lparr>layers_nontext = 1, input_dim = 19, input_channels = 2, output_dim = 2,
      category_embedding =
        \<lparr>in_features = 9, out_features = 1,
         weight = [[1, 1, 1, 1, 1, 1, 1, 1, 1]], bias = Some [0]\<rparr>,
      cnn = example_cnn\<rparr>"

definition example_head :: ClassificationHead where
  "example_head =
     ClassificationHead_init 64 2 example_mlp example_attention (replicate 2 (replicate 64 1))"

definition example_model :: MyModel where
  "example_model =
     \<lparr>mm_method = Some ''model_03'', nontext_network = example_nontext,
      mm_nontext_dim = 2,
      corpus_encoder =
        CorpusEncoder_init example_encoder example_encoder_fed (Some ''model_03'') True,
      classifier = example_head\<rparr>"

text \<open>
  Dropout in training mode, as \<open>torch.nn.Dropout(0.5)\<close> works when the module has not been
  put in evaluation mode: every entry is either zeroed or kept and scaled by
  \<open>1 / (1 - 0.5)\<close>. The outcome of the random draw is the argument \<open>keep\<close>: entry \<open>j\<close> of
  row \<open>i\<close> of the call's argument is kept when \<open>keep i j\<close>. The draw does not look at the
  entries, so it is laid over the positions of the batch. \<open>example_keep\<close> is the outcome
  that zeroes the first row; \<open>example_model_train\<close> is \<open>example_model\<close> with this dropout
  in both encoders.
\<close>

definition train_dropout :: "(nat \<Rightarrow> nat \<Rightarrow> bool) \<Rightarrow> real list list \<Rightarrow> real list list" where
  "train_dropout keep y =
     map (\<lambda>(i, row). map (\<lambda>(j, v). if keep i j then v / (1 - 1 / 2) else 0) (enumerate 0 row))
       (enumerate 0 y)"

definition example_keep :: "nat \<Rightarrow> nat \<Rightarrow> bool" where
  "example_keep i j \<longleftrightarrow> 0 < i"

definition example_encoder_train :: CorpusEncoder03 where
  "example_encoder_train =
     CorpusEncoder03_init example_text_encoder (train_dropout example_keep)
       (replicate 32 (1 # replicate 767 0)) (replicate 32 0)"

definition example_encoder_fed_train :: CorpusEncoder03 where
  "example_encoder_fed_train =
     CorpusEncoder03_init example_text_encoder (train_dropout example_keep)
       (replicate 32 (2 # replicate 767 0)) (replicate 32 1)"

definition example_model_train :: MyModel where
  "example_model_train =
     example_model\<lparr>corpus_encoder :=
       CorpusEncoder_init example_encoder_train example_encoder_fed_train
         (Some ''model_03'') True\<rparr>"


text \<open>
  An instance of the float32 kernels: the exponential and the hyperbolic tangent are
  correctly rounded, and sums are taken from left to right, starting from 0.
\<close>

definition ieee_exp :: "fl \<Rightarrow> fl" where
  "ieee_exp v = (case v of Fin x \<Rightarrow> rnd32 (exp x) | PInf \<Rightarrow> PInf | NInf \<Rightarrow> Fin 0 | NaN \<Rightarrow> NaN)"

definition ieee_tanh :: "fl \<Rightarrow> fl" where
  "ieee_tanh v =
     (case v of Fin x \<Rightarrow> rnd32 (tanh x) | PInf \<Rightarrow> Fin 1 | NInf \<Rightarrow> Fin (- 1) | NaN \<Rightarrow> NaN)"

definition ieee_sum :: "fl list \<Rightarrow> fl" where
  "ieee_sum xs = foldl fadd (Fin 0) xs"

definition ieee_lin :: "fl list \<Rightarrow> fl option \<Rightarrow> fl list \<Rightarrow> fl" where
  "ieee_lin w b v =
     (let s = ieee_sum (map2 fmul w v)
      in case b of None \<Rightarrow> s | Some c \<Rightarrow> fadd s c)"

definition ieee32 :: arith where
  "ieee32 = \<lparr>exp32 = ieee_exp, tanh32 = ieee_tanh, sum32 = ieee_sum, lin32 = ieee_lin\<rparr>"

section \<open>Auxiliary facts\<close>

lemma mapM_length: "mapM f xs = Inr ys \<Longrightarrow> length ys = length xs"
  by (induction xs arbitrary: ys) (auto split: sum.splits)

lemma mapM_total:
  "(\<And>x. x \<in> set xs \<Longrightarrow> f x = Inr (g x)) \<Longrightarrow> mapM f xs = Inr (map g xs)"
  by (induction xs) auto

lemma view_flat_Vec: "view_flat (map Vec out) = concat out"
  by (simp add: view_flat_def comp_def)

lemma length_concat_singletons:
  "list_all (\<lambda>v. length v = 1) out \<Longrightarrow> length (concat out) = length out"
  by (induction out) auto

lemma size1_take10:
  "list_all (\<lambda>r. length r = 19) x \<Longrightarrow> x \<noteq> [] \<Longrightarrow> size1 (map (take 10) x) = 10"
  by (cases x) (auto simp: size1_def)

lemma stack_rows:
  "map2 (\<lambda>cf r. map (\<lambda>c. replicate n c) cf @ [r])
     (map (\<lambda>r. map2 (\<lambda>w b. dot w (drop 10 r) + b) Wc bc) x) (map (take 10) x)
   = map (\<lambda>r. map2 (\<lambda>w b. replicate n (dot w (drop 10 r) + b)) Wc bc @ [take 10 r]) x"
  by (induction x) (simp_all add: split_def)

subsection \<open>Reshaping and the corpus encoder\<close>

lemma length_concat_rect:
  "list_all (\<lambda>r. length r = k) rows \<Longrightarrow> length (concat rows) = length rows * k"
  by (induction rows) auto

lemma chunks_concat:
  "list_all (\<lambda>r. length r = k) rows \<Longrightarrow> chunks (length rows) k (concat rows) = rows"
  by (induction rows) auto

lemma view2_concat:
  assumes "list_all (\<lambda>r. length r = k) rows" "rows \<noteq> []"
  shows "view2 (length rows) (concat rows) = Inr rows"
  using assms by (simp add: view2_def length_concat_rect chunks_concat)

lemma chunks_length: "length (chunks n k xs) = n"
  by (induction n k xs rule: chunks.induct) auto

lemma chunks_rows:
  "length xs = n * k \<Longrightarrow> list_all (\<lambda>g. length g = k) (chunks n k xs)"
  by (induction n k xs rule: chunks.induct) auto

lemma chunks_subset:
  "g \<in> set (chunks n k xs) \<Longrightarrow> set g \<subseteq> set xs"
proof (induction n k xs rule: chunks.induct)
  case (1 k xs)
  then show ?case by simp
next
  case (2 n k xs)
  then show ?case
    by (auto dest: in_set_takeD in_set_dropD)
qed

lemma shape3_concat:
  assumes "shape3 b m t x"
  shows "length (concat x) = b * m" "list_all (\<lambda>d. length d = t) (concat x)"
  using assms unfolding shape3_def
  by (auto simp: length_concat_rect list_all_iff)

lemma shape3_size1: "shape3 b m t x \<Longrightarrow> b \<noteq> 0 \<Longrightarrow> size1 x = m"
  by (cases x) (auto simp: shape3_def size1_def)

lemma shape3_view2:
  assumes "shape3 b m t x" "b \<noteq> 0" "m \<noteq> 0"
  shows "view2 (b * m) (concat (concat x)) = Inr (concat x)"
proof -
  have "concat x \<noteq> []" using shape3_concat(1)[OF assms(1)] assms(2,3)
    by (metis list.size(3) mult_is_0)
  then show ?thesis
    using view2_concat[OF shape3_concat(2)[OF assms(1)]] shape3_concat(1)[OF assms(1)] by simp
qed

lemma foldl_map2_length:
  "list_all (\<lambda>v. length v = n) ds \<Longrightarrow> length d = n \<Longrightarrow> length (foldl (map2 f) d ds) = n"
  by (induction ds arbitrary: d) auto

lemma max_docs_ok:
  assumes "docs \<noteq> []" "list_all (\<lambda>v. length v = n) docs"
  shows "\<exists>p. max_docs docs = Inr p \<and> length p = n"
  using assms by (cases docs) (auto simp: max_docs_def foldl_map2_length)

lemma mapM_ex:
  assumes "\<And>x. x \<in> set xs \<Longrightarrow> \<exists>y. f x = Inr y \<and> P y"
  shows "\<exists>ys. mapM f xs = Inr ys \<and> length ys = length xs \<and> list_all P ys"
  using assms
proof (induction xs)
  case Nil
  then show ?case by simp
next
  case (Cons x xs)
  then obtain y where y: "f x = Inr y" "P y" by auto
  from Cons obtain ys where "mapM f xs = Inr ys" "length ys = length xs" "list_all P ys"
    by auto
  with y show ?case by simp
qed

lemma cls_step:
  assumes "length s = t" "t \<noteq> 0" "list_all (\<lambda>v. length v = n) s"
  shows "\<exists>c. (case s of [] \<Rightarrow> Inl IndexError | c # _ \<Rightarrow> Inr c) = Inr c \<and> length c = n"
  using assms by (cases s) simp_all

lemma DocumentEncoder_forward_shape:
  assumes enc: "text_encoder_contract (text_encoder D)"
    and dr: "dropout_contract (dropout D)"
    and ret: "text_encoder D x (Some m) = Inr h"
    and x: "list_all (\<lambda>r. length r = t) x"
    and t: "t \<noteq> 0"
  shows "\<exists>d. DocumentEncoder_forward D x (Some m) = Inr d \<and> length d = length x \<and>
             list_all (\<lambda>v. length v = 768) d"
proof -
  note h = ret enc[unfolded text_encoder_contract_def, rule_format, OF ret]
  have lh: "length h = length x"
    using h(2) by (simp add: list_all2_lengthD)
  have hs: "\<exists>c. (case s of [] \<Rightarrow> Inl IndexError | c # _ \<Rightarrow> Inr c) = Inr c \<and> length c = 768"
    if "s \<in> set h" for s
  proof -
    from that obtain i where i: "i < length h" "s = h ! i"
      by (auto simp: in_set_conv_nth)
    have "length s = length (x ! i) \<and> list_all (\<lambda>v. length v = 768) s"
      using list_all2_nthD2[OF h(2) i(1)] i(2) by simp
    moreover have "length (x ! i) = t"
      using x i(1) lh by (simp add: list_all_length)
    ultimately show ?thesis
      using cls_step[of s t 768] t by simp
  qed
  obtain cls where cls:
    "mapM (\<lambda>steps. case steps of [] \<Rightarrow> Inl IndexError | s # _ \<Rightarrow> Inr s) h = Inr cls"
    "length cls = length h" "list_all (\<lambda>v. length v = 768) cls"
    using mapM_ex[of h "\<lambda>steps. case steps of [] \<Rightarrow> Inl IndexError | s # _ \<Rightarrow> Inr s"
        "\<lambda>c. length c = 768"] hs by blast
  have d: "list_all2 (\<lambda>u v. length v = length u) cls (dropout D cls)"
    using dr unfolding dropout_contract_def by blast
  have ld: "length (dropout D cls) = length x"
    using list_all2_lengthD[OF d] cls(2) lh by simp
  have "length v = 768" if "v \<in> set (dropout D cls)" for v
  proof -
    from that obtain i where i: "i < length (dropout D cls)" "v = dropout D cls ! i"
      by (auto simp: in_set_conv_nth)
    have "length v = length (cls ! i)"
      using list_all2_nthD2[OF d i(1)] i(2) by simp
    moreover have "length (cls ! i) = 768"
      using cls(3) i(1) list_all2_lengthD[OF d] by (simp add: list_all_length)
    ultimately show ?thesis by simp
  qed
  then have "list_all (\<lambda>v. length v = 768) (dropout D cls)"
    by (simp add: list_all_iff)
  with ld show ?thesis
    by (simp add: DocumentEncoder_forward_def h(1) cls(1))
qed

lemma ce03_forward_steps:
  assumes E: "E = CorpusEncoder03_init enc_fn dropout_fn Ww Wb"
    and W: "length Ww = 32" "length Wb = 32"
    and enc: "text_encoder_contract enc_fn"
    and ret: "enc_fn (concat x) (Some (concat amask)) = Inr h"
    and dr: "dropout_contract dropout_fn"
    and x: "shape3 b m t x" and am: "shape3 b m t amask"
    and pos: "b \<noteq> 0" "m \<noteq> 0" "t \<noteq> 0"
  shows "\<exists>d pooled out.
           DocumentEncoder_forward (doc_encoder E) (concat x) (Some (concat amask)) = Inr d
         \<and> mapM max_docs (chunks b m d) = Inr pooled
         \<and> mapM (Linear_forward (ce03_W E)) pooled = Inr out
         \<and> CorpusEncoder03_forward E x (Some amask) = Inr out
         \<and> length out = b \<and> list_all (\<lambda>r. length r = 32) out
         \<and> ce03_corpus_emb_dim E = 32"
proof -
  have Ed: "text_encoder (doc_encoder E) = enc_fn" "dropout (doc_encoder E) = dropout_fn"
    "ce03_W E = \<lparr>in_features = 768, out_features = 32, weight = Ww, bias = Some Wb\<rparr>"
    "ce03_corpus_emb_dim E = 32"
    by (simp_all add: E CorpusEncoder03_init_def)
  have lx: "length x = b" "size1 x = m"
    using x pos shape3_size1 by (auto simp: shape3_def)
  note cx = shape3_concat[OF x] and cm = shape3_concat[OF am]
  obtain d where d: "DocumentEncoder_forward (doc_encoder E) (concat x) (Some (concat amask)) = Inr d"
    "length d = length (concat x)" "list_all (\<lambda>v. length v = 768) d"
    using DocumentEncoder_forward_shape[of "doc_encoder E" "concat x" "concat amask" h t]
      enc dr ret cx pos by (auto simp: Ed)
  have dne: "d \<noteq> []" using d(2) cx(1) pos by (metis list.size(3) mult_is_0)
  have v2: "view2 (b * m) (concat d) = Inr d"
    using view2_concat[OF d(3) dne] d(2) cx(1) by simp
  have v3: "view3 b m (concat d) = Inr (chunks b m d)"
    by (simp add: view3_def v2)
  have g: "\<And>g. g \<in> set (chunks b m d) \<Longrightarrow> \<exists>p. max_docs g = Inr p \<and> length p = 768"
  proof -
    fix g assume gin: "g \<in> set (chunks b m d)"
    have "length g = m"
      using chunks_rows[of d b m] d(2) cx(1) gin by (auto simp: list_all_iff)
    then have "g \<noteq> []" using pos by auto
    moreover have "list_all (\<lambda>v. length v = 768) g"
      using chunks_subset[OF gin] d(3) by (auto simp: list_all_iff)
    ultimately show "\<exists>p. max_docs g = Inr p \<and> length p = 768"
      by (rule max_docs_ok)
  qed
  obtain pooled where p: "mapM max_docs (chunks b m d) = Inr pooled"
    "length pooled = length (chunks b m d)" "list_all (\<lambda>p. length p = 768) pooled"
    using mapM_ex[of "chunks b m d" max_docs "\<lambda>p. length p = 768"] g by blast
  have lin: "\<And>v. v \<in> set pooled \<Longrightarrow>
      \<exists>r. Linear_forward (ce03_W E) v = Inr r \<and> length r = 32"
    using p(3) W by (auto simp: Linear_forward_def Ed list_all_iff)
  obtain out where o: "mapM (Linear_forward (ce03_W E)) pooled = Inr out"
    "length out = length pooled" "list_all (\<lambda>r. length r = 32) out"
    using mapM_ex[of pooled "Linear_forward (ce03_W E)" "\<lambda>r. length r = 32"] lin by blast
  have f: "CorpusEncoder03_forward E x (Some amask) = Inr out"
    unfolding CorpusEncoder03_forward_def Let_def lx
    by (simp only: shape3_view2[OF x pos(1,2)] shape3_view2[OF am pos(1,2)] d(1) v3 p(1) o(1)
        sum.case option.case)
  have lo: "length out = b"
    using o(2) p(2) by (simp add: chunks_length)
  show ?thesis
    using d(1) p(1) o(1) f lo o(3) Ed(4) by blast
qed

lemma map2_append_inj:
  assumes "list_all2 (\<lambda>u v. length u = length v) a a'"
    and "length b = length a" and "length b' = length a"
  shows "map2 (@) a' b' = map2 (@) a b \<longleftrightarrow> a' = a \<and> b' = b"
  using assms
proof (induction a a' arbitrary: b b' rule: list_all2_induct)
  case Nil
  then show ?case by simp
next
  case (Cons x xs y ys)
  then obtain c cs c' cs' where "b = c # cs" "b' = c' # cs'"
    by (metis length_Suc_conv)
  with Cons show ?case by auto
qed

subsection \<open>One sample of a batch\<close>

lemma mapM_take: "mapM f xs = Inr ys \<Longrightarrow> mapM f (take k xs) = Inr (take k ys)"
proof (induction xs arbitrary: ys k)
  case Nil
  then show ?case by simp
next
  case (Cons x xs)
  then show ?case by (cases k) (auto split: sum.splits)
qed

lemma mapM_drop: "mapM f xs = Inr ys \<Longrightarrow> mapM f (drop k xs) = Inr (drop k ys)"
proof (induction xs arbitrary: ys k)
  case Nil
  then show ?case by simp
next
  case (Cons x xs)
  then show ?case by (cases k) (auto split: sum.splits)
qed

lemma mapM_sub:
  "mapM f xs = Inr ys \<Longrightarrow> mapM f (take k (drop j xs)) = Inr (take k (drop j ys))"
  by (intro mapM_take mapM_drop)

lemma zip_sub: "zip (take k (drop j xs)) (take k (drop j ys)) = take k (drop j (zip xs ys))"
  by (simp add: take_zip drop_zip)

lemma per_sample_sub:
  assumes "per_sample f" "f xs = Inr ys"
  shows "f (take k (drop j xs)) = Inr (take k (drop j ys))" "length ys = length xs"
proof -
  obtain g where g: "\<And>xs ys. f xs = Inr ys \<longleftrightarrow> mapM g xs = Inr ys"
    using assms(1) unfolding per_sample_def by blast
  have m: "mapM g xs = Inr ys" using g assms(2) by blast
  show "f (take k (drop j xs)) = Inr (take k (drop j ys))"
    using mapM_sub[OF m] g by blast
  show "length ys = length xs" using mapM_length[OF m] .
qed

lemma per_sample2_sub:
  assumes "per_sample2 f" "f xs ys = Inr zs" "length xs = length ys"
  shows "f (take k (drop j xs)) (take k (drop j ys)) = Inr (take k (drop j zs))"
    "length zs = length xs"
proof -
  obtain g where g: "\<And>xs ys zs. length xs = length ys \<Longrightarrow>
      f xs ys = Inr zs \<longleftrightarrow> mapM (\<lambda>(x, y). g x y) (zip xs ys) = Inr zs"
    using assms(1) unfolding per_sample2_def by blast
  have m: "mapM (\<lambda>(x, y). g x y) (zip xs ys) = Inr zs" using g[OF assms(3)] assms(2) by blast
  have l: "length (take k (drop j xs)) = length (take k (drop j ys))"
    using assms(3) by simp
  show "f (take k (drop j xs)) (take k (drop j ys)) = Inr (take k (drop j zs))"
    using mapM_sub[OF m, of k j] g[OF l] unfolding zip_sub by blast
  show "length zs = length xs" using mapM_length[OF m] assms(3) by simp
qed

lemma rowwise_sub:
  assumes "rowwise f"
  shows "f (take k (drop j xs)) = take k (drop j (f xs))"
proof -
  obtain g where "\<And>xs. f xs = map g xs" using assms unfolding rowwise_def by blast
  then show ?thesis by (simp add: take_map drop_map)
qed

lemma take1_drop: "i < length xs \<Longrightarrow> take 1 (drop i xs) = [xs ! i]"
  by (simp add: take_Suc_conv_app_nth flip: Cons_nth_drop_Suc)

lemma take_drop_concat:
  "list_all (\<lambda>r. length r = k) rows \<Longrightarrow> i < length rows \<Longrightarrow>
   take k (drop (i * k) (concat rows)) = rows ! i"
proof (induction rows arbitrary: i)
  case Nil
  then show ?case by simp
next
  case (Cons r rows)
  show ?case
  proof (cases i)
    case 0
    then show ?thesis using Cons.prems by simp
  next
    case (Suc j)
    then show ?thesis using Cons by simp
  qed
qed

lemma chunks_nth: "i < n \<Longrightarrow> chunks n k xs ! i = take k (drop (i * k) xs)"
proof (induction n k xs arbitrary: i rule: chunks.induct)
  case (1 k xs)
  then show ?case by simp
next
  case (2 n k xs)
  then show ?case by (cases i) (simp_all add: add.commute)
qed

lemma mapM_list_all:
  assumes "mapM f xs = Inr ys" "\<And>x y. x \<in> set xs \<Longrightarrow> f x = Inr y \<Longrightarrow> P y"
  shows "list_all P ys"
  using assms
proof (induction xs arbitrary: ys)
  case Nil
  then show ?case by simp
next
  case (Cons x xs)
  from Cons.prems(1) obtain y ys' where y: "f x = Inr y" "mapM f xs = Inr ys'" "ys = y # ys'"
    by (auto split: sum.splits)
  have "P y" using Cons.prems(2)[of x y] y(1) by simp
  moreover have "list_all P ys'"
    by (rule Cons.IH[OF y(2)]) (rule Cons.prems(2), simp_all)
  ultimately show ?case using y(3) by simp
qed

lemma DocumentEncoder_forward_success_shape:
  assumes enc: "text_encoder_contract (text_encoder D)"
    and dr: "dropout_contract (dropout D)"
    and fw: "DocumentEncoder_forward D x (Some m) = Inr d"
  shows "length d = length x" "list_all (\<lambda>v. length v = 768) d"
proof -
  obtain h cls where h: "text_encoder D x (Some m) = Inr h"
    and c: "mapM (\<lambda>steps. case steps of [] \<Rightarrow> Inl IndexError | s # _ \<Rightarrow> Inr s) h = Inr cls"
    and d: "d = dropout D cls"
    using fw by (auto simp: DocumentEncoder_forward_def split: sum.splits)
  note sh = enc[unfolded text_encoder_contract_def, rule_format, OF h]
  have hw: "list_all (\<lambda>v. length v = 768) s" if "s \<in> set h" for s
  proof -
    from that obtain i where i: "i < length h" "s = h ! i" by (auto simp: in_set_conv_nth)
    show ?thesis using list_all2_nthD2[OF sh i(1)] i(2) by simp
  qed
  have cw: "list_all (\<lambda>v. length v = 768) cls"
  proof (rule mapM_list_all[OF c])
    fix s y assume a: "s \<in> set h"
      "(case s of [] \<Rightarrow> Inl IndexError | c # _ \<Rightarrow> Inr c) = Inr y"
    note w = hw[OF a(1)]
    show "length y = 768"
    proof (cases s)
      case Nil
      then show ?thesis using a(2) by simp
    next
      case (Cons c cs)
      then show ?thesis using a(2) w by simp
    qed
  qed
  note dd = dr[unfolded dropout_contract_def, rule_format, of cls]
  show "length d = length x"
    using list_all2_lengthD[OF dd] list_all2_lengthD[OF sh] mapM_length[OF c] d by simp
  have "length v = 768" if "v \<in> set (dropout D cls)" for v
  proof -
    from that obtain i where i: "i < length (dropout D cls)" "v = dropout D cls ! i"
      by (auto simp: in_set_conv_nth)
    have "length v = length (cls ! i)"
      using list_all2_nthD2[OF dd i(1)] i(2) by simp
    moreover have "length (cls ! i) = 768"
      using cw i(1) list_all2_lengthD[OF dd] by (simp add: list_all_length)
    ultimately show ?thesis by simp
  qed
  then show "list_all (\<lambda>v. length v = 768) d"
    unfolding d by (simp add: list_all_iff)
qed

lemma DocumentEncoder_forward_sub:
  assumes ps: "per_sample2 (\<lambda>x m. text_encoder D x (Some m))"
    and rw: "rowwise (dropout D)"
    and fw: "DocumentEncoder_forward D x (Some m) = Inr d"
    and l: "length x = length m"
  shows "DocumentEncoder_forward D (take k (drop j x)) (Some (take k (drop j m)))
     = Inr (take k (drop j d))"
proof -
  obtain h cls where h: "text_encoder D x (Some m) = Inr h"
    and c: "mapM (\<lambda>steps. case steps of [] \<Rightarrow> Inl IndexError | s # _ \<Rightarrow> Inr s) h = Inr cls"
    and d: "d = dropout D cls"
    using fw by (auto simp: DocumentEncoder_forward_def split: sum.splits)
  have "text_encoder D (take k (drop j x)) (Some (take k (drop j m))) = Inr (take k (drop j h))"
    using per_sample2_sub(1)[OF ps h l] .
  moreover note mapM_sub[OF c, of k j] rowwise_sub[OF rw, of k j cls]
  ultimately show ?thesis
    by (simp add: DocumentEncoder_forward_def d)
qed

lemma mapM_single:
  assumes "mapM f xs = Inr ys" "i < length xs"
  shows "mapM f [xs ! i] = Inr [ys ! i]"
proof -
  have "i < length ys" using mapM_length[OF assms(1)] assms(2) by simp
  then show ?thesis
    using mapM_sub[OF assms(1), of 1 i] take1_drop[OF assms(2)] take1_drop[of i ys]
    by (simp only:)
qed

lemma shape3_nth:
  assumes "shape3 b m t x" "i < b"
  shows "length (x ! i) = m" "list_all (\<lambda>d. length d = t) (x ! i)" "shape3 1 m t [x ! i]"
  using assms by (simp_all add: shape3_def list_all_length)

lemma chunks_one: "length xs = k \<Longrightarrow> chunks 1 k xs = [xs]"
proof -
  assume "length xs = k"
  then have "chunks (Suc 0) k xs = [xs]" by simp
  then show ?thesis by (simp only: One_nat_def)
qed

lemma CorpusEncoder03_forward_sample:
  assumes ok: "encoder_ok E"
    and x: "shape3 n m t x" and km: "shape3 n m t amask"
    and fw: "CorpusEncoder03_forward E x (Some amask) = Inr a"
    and i: "i < n"
  shows "CorpusEncoder03_forward E [x ! i] (Some [amask ! i]) = Inr [a ! i]" "length a = n"
proof -
  have enc: "text_encoder_contract (text_encoder (doc_encoder E))"
    and ps: "per_sample2 (\<lambda>x m. text_encoder (doc_encoder E) x (Some m))"
    and dr: "dropout_contract (dropout (doc_encoder E))"
    and rw: "rowwise (dropout (doc_encoder E))"
    using ok by (simp_all add: encoder_ok_def)
  have n0: "n \<noteq> 0" using i by simp
  have lx: "length x = n" "size1 x = m"
    using x n0 shape3_size1 by (auto simp: shape3_def)
  have nm: "n * m \<noteq> 0"
    using fw by (auto simp: CorpusEncoder03_forward_def Let_def lx view2_def split: if_splits)
  then have m0: "m \<noteq> 0" by simp
  note vx = shape3_view2[OF x n0 m0] and vm = shape3_view2[OF km n0 m0]
  obtain d x3 pooled where
    d: "DocumentEncoder_forward (doc_encoder E) (concat x) (Some (concat amask)) = Inr d"
    and v3: "view3 n m (concat d) = Inr x3"
    and p: "mapM max_docs x3 = Inr pooled"
    and o: "mapM (Linear_forward (ce03_W E)) pooled = Inr a"
    using fw by (auto simp: CorpusEncoder03_forward_def Let_def lx vx vm split: sum.splits)
  note cx = shape3_concat[OF x] and cm = shape3_concat[OF km]
  note ds = DocumentEncoder_forward_success_shape[OF enc dr d]
  have dl: "length d = n * m" using ds(1) cx(1) by simp
  have dne: "d \<noteq> []" using dl nm by (metis list.size(3))
  have x3: "x3 = chunks n m d"
    using v3 view2_concat[OF ds(2) dne] dl by (simp add: view3_def)
  show la: "length a = n"
    using mapM_length[OF o] mapM_length[OF p] x3 by (simp add: chunks_length)
  let ?di = "take m (drop (i * m) d)"
  have di: "x3 ! i = ?di" using x3 chunks_nth[OF i] by simp
  have ldi: "length ?di = m"
  proof -
    have "i * m + m \<le> n * m"
      using i by (metis Suc_leI mult_Suc mult_le_mono1 add.commute)
    then show ?thesis using dl by simp
  qed
  have wdi: "list_all (\<lambda>v. length v = 768) ?di"
    using ds(2) by (auto simp: list_all_iff dest: in_set_takeD in_set_dropD)
  have dine: "?di \<noteq> []" using ldi m0 by (metis list.size(3))
  \<comment> \<open>the call on the sample alone\<close>
  note xi = shape3_nth[OF x i] and ki = shape3_nth[OF km i]
  have s1: "length [x ! i] = 1" "size1 [x ! i] = m"
    using xi(1) by (simp_all add: size1_def)
  have one: "1 \<noteq> (0::nat)" by simp
  note vxi = shape3_view2[OF xi(3) one m0] and vki = shape3_view2[OF ki(3) one m0]
  have dsub: "DocumentEncoder_forward (doc_encoder E) (x ! i) (Some (amask ! i)) = Inr ?di"
    using DocumentEncoder_forward_sub[OF ps rw d, of m "i * m"] cx(1) cm(1)
      take_drop_concat[of m x i] take_drop_concat[of m amask i] x km i
    by (simp add: shape3_def list_all_iff)
  have v2i: "view2 m (concat ?di) = Inr ?di"
    using view2_concat[OF wdi dine] ldi by simp
  have v3i: "view3 1 m (concat ?di) = Inr [?di]"
    by (simp add: view3_def v2i chunks_one[OF ldi])
  have pi: "mapM max_docs [?di] = Inr [pooled ! i]"
    using mapM_single[OF p, of i] i x3 di by (simp add: chunks_length)
  have oi: "mapM (Linear_forward (ce03_W E)) [pooled ! i] = Inr [a ! i]"
    using mapM_single[OF o, of i] i la mapM_length[OF o] by simp
  show "CorpusEncoder03_forward E [x ! i] (Some [amask ! i]) = Inr [a ! i]"
    unfolding CorpusEncoder03_forward_def Let_def s1
    using vxi vki dsub v3i pi oi by simp
qed

lemma per_sample_single:
  assumes "per_sample f" "f xs = Inr ys" "i < length xs"
  shows "f [xs ! i] = Inr [ys ! i]" "length ys = length xs"
proof -
  show l: "length ys = length xs" using per_sample_sub(2)[OF assms(1,2)] .
  then have "i < length ys" using assms(3) by simp
  then show "f [xs ! i] = Inr [ys ! i]"
    using per_sample_sub(1)[OF assms(1,2), of 1 i] take1_drop[OF assms(3)] take1_drop[of i ys]
    by (simp only:)
qed

lemma per_sample2_single:
  assumes "per_sample2 f" "f xs ys = Inr zs" "length xs = length ys" "i < length xs"
  shows "f [xs ! i] [ys ! i] = Inr [zs ! i]" "length zs = length xs"
proof -
  show l: "length zs = length xs" using per_sample2_sub(2)[OF assms(1,2,3)] .
  then have "i < length zs" "i < length ys" using assms(3,4) by simp_all
  then show "f [xs ! i] [ys ! i] = Inr [zs ! i]"
    using per_sample2_sub(1)[OF assms(1,2,3), of 1 i] take1_drop[OF assms(4)]
      take1_drop[of i ys] take1_drop[of i zs]
    by (simp only:)
qed

lemma nn_stack_sample:
  assumes rect: "list_all (\<lambda>r. length r = w) xn"
    and st: "nn_stack N xn = Inr st"
    and i: "i < length xn"
  shows "nn_stack N [xn ! i] = Inr [st ! i]" "length st = length xn"
proof -
  obtain cf where cf: "mapM (Linear_forward (category_embedding N)) (map (drop 10) xn) = Inr cf"
    and s: "st = map2 (\<lambda>cf r. map (\<lambda>c. replicate (size1 (map (take 10) xn)) c) cf @ [r])
                  cf (map (take 10) xn)"
    using st by (auto simp: nn_stack_def Let_def split: sum.splits)
  have lcf: "length cf = length xn" using mapM_length[OF cf] by simp
  show "length st = length xn" using s lcf by simp
  have ne: "xn \<noteq> []" using i by auto
  have sz: "size1 (map (take 10) xn) = min w 10"
    using rect ne by (cases xn) (auto simp: size1_def)
  have szi: "size1 (map (take 10) [xn ! i]) = min w 10"
    using rect i by (simp add: size1_def list_all_length)
  have cfi: "mapM (Linear_forward (category_embedding N)) (map (drop 10) [xn ! i]) = Inr [cf ! i]"
    using mapM_single[OF cf, of i] i by simp
  have "st ! i = map (\<lambda>c. replicate (min w 10) c) (cf ! i) @ [take 10 (xn ! i)]"
    using s sz i lcf by simp
  then show "nn_stack N [xn ! i] = Inr [st ! i]"
    unfolding nn_stack_def Let_def cfi szi by simp
qed

lemma NontextualNetwork_forward_sample:
  assumes ps: "per_sample (cnn N)"
    and rect: "list_all (\<lambda>r. length r = w) xn"
    and fw: "NontextualNetwork_forward N (Some xn) = Inr y"
    and i: "i < length xn"
  shows "NontextualNetwork_forward N (Some [xn ! i]) = Inr [y ! i]" "length y = length xn"
proof -
  obtain st where st: "nn_stack N xn = Inr st" and c: "cnn N st = Inr y"
    using fw by (auto simp: NontextualNetwork_forward_def split: sum.splits)
  note s = nn_stack_sample[OF rect st i]
  have i': "i < length st" using s(2) i by simp
  note p = per_sample_single[OF ps c i']
  show "NontextualNetwork_forward N (Some [xn ! i]) = Inr [y ! i]"
    by (simp add: NontextualNetwork_forward_def s(1) p(1))
  show "length y = length xn" using p(2) s(2) by simp
qed

lemma CorpusEncoder_forward_alt:
  "CorpusEncoder_forward C x x_masks =
     (if ce_method C = None then Inr None
      else if ce_separate C then
        (case call_encoder (encoder_ecb C) x x_masks 0 of
           Inl e \<Rightarrow> Inl e
         | Inr x_ecb \<Rightarrow>
             (case call_encoder (encoder_fed C) x x_masks 1 of
                Inl e \<Rightarrow> Inl e
              | Inr x_fed \<Rightarrow>
                  (case cat1 x_ecb x_fed of Inl e \<Rightarrow> Inl e | Inr out \<Rightarrow> Inr (Some out))))
      else
        (case call_encoder (encoder C) x x_masks 0 of
           Inl e \<Rightarrow> Inl e
         | Inr out \<Rightarrow> Inr (Some out)))"
  by (simp add: CorpusEncoder_forward_def Let_def)

lemma CorpusEncoder03_forward_None: "CorpusEncoder03_forward E x None \<noteq> Inr a"
  by (simp add: CorpusEncoder03_forward_def Let_def split: sum.split)

lemma call_encoder_sample:
  assumes ok: "\<And>E. a = Val E \<Longrightarrow> encoder_ok E"
    and wf: "list_all2 (\<lambda>t mk. \<exists>m T. shape3 n m T t \<and>
                  (case mk of None \<Rightarrow> True | Some k \<Rightarrow> shape3 n m T k)) xt xm"
    and fw: "call_encoder a xt xm k = Inr r"
    and i: "i < n"
  shows "call_encoder a (sample_text i xt) (sample_masks i xm) k = Inr [r ! i]" "length r = n"
proof -
  obtain E where a: "a = Val E"
    using fw by (cases a) (auto simp: call_encoder_def split: sum.splits)
  have k: "k < length xt" "k < length xm"
    and c: "CorpusEncoder03_forward E (xt ! k) (xm ! k) = Inr r"
    using fw by (auto simp: call_encoder_def a tuple_get_def split: sum.splits if_splits)
  obtain km where km: "xm ! k = Some km"
    using c CorpusEncoder03_forward_None[of E "xt ! k" r] by (cases "xm ! k") auto
  obtain m T where sh: "shape3 n m T (xt ! k)" "shape3 n m T km"
    using list_all2_nthD[OF wf k(1)] km by auto
  note s = CorpusEncoder03_forward_sample[OF ok[OF a] sh c[unfolded km] i]
  show "length r = n" using s(2) .
  show "call_encoder a (sample_text i xt) (sample_masks i xm) k = Inr [r ! i]"
    using k s(1) by (simp add: call_encoder_def a tuple_get_def sample_text_def
        sample_masks_def km)
qed

lemma CorpusEncoder_forward_sample:
  assumes ok: "\<And>E. encoder C = Val E \<or> encoder_ecb C = Val E \<or> encoder_fed C = Val E
                 \<Longrightarrow> encoder_ok E"
    and wf: "list_all2 (\<lambda>t mk. \<exists>m T. shape3 n m T t \<and>
                  (case mk of None \<Rightarrow> True | Some k \<Rightarrow> shape3 n m T k)) xt xm"
    and fw: "CorpusEncoder_forward C xt xm = Inr r"
    and i: "i < n"
  shows "CorpusEncoder_forward C (sample_text i xt) (sample_masks i xm)
           = Inr (map_option (\<lambda>xc. [xc ! i]) r)"
    and "\<And>xc. r = Some xc \<Longrightarrow> length xc = n"
proof -
  consider (none) "ce_method C = None"
    | (sep) "ce_method C \<noteq> None" "ce_separate C"
    | (single) "ce_method C \<noteq> None" "\<not> ce_separate C"
    by blast
  then have "CorpusEncoder_forward C (sample_text i xt) (sample_masks i xm)
           = Inr (map_option (\<lambda>xc. [xc ! i]) r) \<and> (\<forall>xc. r = Some xc \<longrightarrow> length xc = n)"
  proof cases
    case none
    then show ?thesis using fw by (simp add: CorpusEncoder_forward_alt)
  next
    case sep
    obtain x_ecb x_fed where e: "call_encoder (encoder_ecb C) xt xm 0 = Inr x_ecb"
      and f: "call_encoder (encoder_fed C) xt xm 1 = Inr x_fed"
      and l: "length x_ecb = length x_fed"
      and r: "r = Some (map2 (@) x_ecb x_fed)"
      using fw sep by (auto simp: CorpusEncoder_forward_alt cat1_def split: sum.splits if_splits)
    note se = call_encoder_sample[OF _ wf e i] and sf = call_encoder_sample[OF _ wf f i]
    have se1: "call_encoder (encoder_ecb C) (sample_text i xt) (sample_masks i xm) 0 = Inr [x_ecb ! i]"
      and le: "length x_ecb = n"
      using se ok by simp_all
    have sf1: "call_encoder (encoder_fed C) (sample_text i xt) (sample_masks i xm) 1 = Inr [x_fed ! i]"
      and lf: "length x_fed = n"
      using sf ok by simp_all
    show ?thesis
      using sep i le lf
      by (simp add: CorpusEncoder_forward_alt se1 sf1[unfolded One_nat_def] cat1_def r)
  next
    case single
    obtain out where e: "call_encoder (encoder C) xt xm 0 = Inr out" and r: "r = Some out"
      using fw single by (auto simp: CorpusEncoder_forward_alt split: sum.splits)
    note se = call_encoder_sample[OF _ wf e i]
    have se1: "call_encoder (encoder C) (sample_text i xt) (sample_masks i xm) 0 = Inr [out ! i]"
      and le: "length out = n"
      using se ok by simp_all
    show ?thesis
      using single by (simp add: CorpusEncoder_forward_alt se1 le r)
  qed
  then show "CorpusEncoder_forward C (sample_text i xt) (sample_masks i xm)
           = Inr (map_option (\<lambda>xc. [xc ! i]) r)"
    and "\<And>xc. r = Some xc \<Longrightarrow> length xc = n"
    by simp_all
qed

lemma head_input_sample:
  assumes va: "per_sample2 (vector_attention H)"
    and hi: "head_input H xc (Some y) = Inr X"
    and ly: "length y = n"
    and lc: "\<And>c. xc = Some c \<Longrightarrow> length c = n"
    and i: "i < n"
  shows "head_input H (map_option (\<lambda>c. [c ! i]) xc) (Some [y ! i]) = Inr [X ! i]"
    "length X = n"
proof -
  consider (nontext) "xc = None \<or> head_corpus_emb_dim H = 0"
    | (corpus) c where "xc = Some c" "head_corpus_emb_dim H \<noteq> 0" "head_nontext_dim H = 0"
    | (both) c where "xc = Some c" "head_corpus_emb_dim H \<noteq> 0" "head_nontext_dim H \<noteq> 0"
    by (cases xc) auto
  then have "head_input H (map_option (\<lambda>c. [c ! i]) xc) (Some [y ! i]) = Inr [X ! i]
      \<and> length X = n"
  proof cases
    case nontext
    then have nd: "head_nontext_dim H \<noteq> 0" and X: "X = map Mat y"
      using hi by (auto simp: head_input_def split: if_splits)
    show ?thesis
      using nontext nd i ly by (auto simp: head_input_def X)
  next
    case corpus
    then have X: "X = map Vec c"
      using hi by (auto simp: head_input_def split: if_splits)
    show ?thesis
      using corpus i lc[OF corpus(1)] by (simp add: head_input_def X)
  next
    case both
    obtain q v where q: "mapM (Linear_forward (proj H)) c = Inr q"
      and v: "vector_attention H y q = Inr v" and X: "X = map Vec v"
      using hi both by (auto simp: head_input_def split: sum.splits)
    have lq: "length q = n" using mapM_length[OF q] lc[OF both(1)] by simp
    have ic: "i < length c" using lc[OF both(1)] i by simp
    have iy: "i < length y" using ly i by simp
    have qs: "Linear_forward (proj H) (c ! i) = Inr (q ! i)"
      using mapM_single[OF q ic] by (simp split: sum.splits)
    note vs = per_sample2_single[OF va v _ iy]
    have vs1: "vector_attention H [y ! i] [q ! i] = Inr [v ! i]" and lv: "length v = n"
      using vs ly lq by simp_all
    show ?thesis
      using both i lv by (simp add: head_input_def qs vs1 X)
  qed
  then show "head_input H (map_option (\<lambda>c. [c ! i]) xc) (Some [y ! i]) = Inr [X ! i]"
    "length X = n"
    by simp_all
qed

lemma head_input_length:
  assumes va: "per_sample2 (vector_attention H)"
    and hi: "head_input H xc (Some y) = Inr X"
    and ly: "length y = n"
    and lc: "\<And>c. xc = Some c \<Longrightarrow> length c = n"
  shows "length X = n"
proof -
  consider (nontext) "xc = None \<or> head_corpus_emb_dim H = 0"
    | (corpus) c where "xc = Some c" "head_corpus_emb_dim H \<noteq> 0" "head_nontext_dim H = 0"
    | (both) c where "xc = Some c" "head_corpus_emb_dim H \<noteq> 0" "head_nontext_dim H \<noteq> 0"
    by (cases xc) auto
  then show ?thesis
  proof cases
    case nontext
    then have "X = map Mat y"
      using hi by (auto simp: head_input_def split: if_splits)
    then show ?thesis using ly by simp
  next
    case corpus
    then have "X = map Vec c"
      using hi by (auto simp: head_input_def split: if_splits)
    then show ?thesis using lc[OF corpus(1)] by simp
  next
    case both
    obtain q v where q: "mapM (Linear_forward (proj H)) c = Inr q"
      and v: "vector_attention H y q = Inr v" and X: "X = map Vec v"
      using hi both by (auto simp: head_input_def split: sum.splits)
    have lq: "length y = length q" using mapM_length[OF q] lc[OF both(1)] ly by simp
    show ?thesis using per_sample2_sub(2)[OF va v lq] X ly by simp
  qed
qed

lemma ClassificationHead_forward_sample:
  assumes va: "per_sample2 (vector_attention H)"
    and ml: "per_sample (mlp H)"
    and fw: "ClassificationHead_forward H xc (Some y) = Inr out"
    and ly: "length y = n"
    and lc: "\<And>c. xc = Some c \<Longrightarrow> length c = n"
  shows "\<exists>outs. out = concat outs \<and> length outs = n \<and>
           (\<forall>i<n. ClassificationHead_forward H (map_option (\<lambda>c. [c ! i]) xc) (Some [y ! i])
                    = Inr (outs ! i))"
proof -
  obtain X mo where X: "head_input H xc (Some y) = Inr X" and mo: "mlp H X = Inr mo"
    and out: "out = view_flat mo"
    using fw by (auto simp: ClassificationHead_forward_def split: sum.splits)
  have "ClassificationHead_forward H (map_option (\<lambda>c. [c ! i]) xc) (Some [y ! i])
      = Inr (map flat mo ! i)" "length mo = n" if i: "i < n" for i
  proof -
    note h = head_input_sample[OF va X ly lc i]
    have iX: "i < length X" using h(2) i by simp
    note m = per_sample_single[OF ml mo iX]
    show "length mo = n" using m(2) h(2) by simp
    then show "ClassificationHead_forward H (map_option (\<lambda>c. [c ! i]) xc) (Some [y ! i])
      = Inr (map flat mo ! i)"
      using i by (simp add: ClassificationHead_forward_def h(1) m(1) view_flat_def)
  qed
  moreover have "length mo = n"
    using per_sample_sub(2)[OF ml mo] head_input_length[OF va X ly lc] by simp
  ultimately show ?thesis
    by (intro exI[of _ "map flat mo"]) (simp add: out view_flat_def)
qed

lemma NontextualNetwork_forward_length:
  assumes ps: "per_sample (cnn N)"
    and fw: "NontextualNetwork_forward N (Some xn) = Inr y"
  shows "length y = length xn"
proof -
  obtain st where st: "nn_stack N xn = Inr st" and c: "cnn N st = Inr y"
    using fw by (auto simp: NontextualNetwork_forward_def split: sum.splits)
  obtain cf where cf: "mapM (Linear_forward (category_embedding N)) (map (drop 10) xn) = Inr cf"
    and s: "st = map2 (\<lambda>cf r. map (\<lambda>c. replicate (size1 (map (take 10) xn)) c) cf @ [r])
                  cf (map (take 10) xn)"
    using st by (auto simp: nn_stack_def Let_def split: sum.splits)
  have "length st = length xn" using s mapM_length[OF cf] by simp
  then show ?thesis using per_sample_sub(2)[OF ps c] by simp
qed

lemma call_encoder_nonempty:
  assumes "call_encoder a xt xm k = Inr r"
  shows "k < length xt" "xt ! k \<noteq> []"
proof -
  obtain E where a: "a = Val E"
    using assms by (cases a) (auto simp: call_encoder_def split: sum.splits)
  show k: "k < length xt"
    using assms by (auto simp: call_encoder_def a tuple_get_def split: sum.splits if_splits)
  have c: "CorpusEncoder03_forward E (xt ! k) (xm ! k) = Inr r"
    using assms by (auto simp: call_encoder_def a tuple_get_def split: sum.splits if_splits)
  show "xt ! k \<noteq> []"
  proof
    assume "xt ! k = []"
    then show False
      using c by (simp add: CorpusEncoder03_forward_def Let_def view2_def)
  qed
qed

lemma CorpusEncoder_forward_nonempty:
  assumes wf: "list_all2 (\<lambda>t mk. \<exists>m T. shape3 n m T t \<and>
                  (case mk of None \<Rightarrow> True | Some k \<Rightarrow> shape3 n m T k)) xt xm"
    and fw: "CorpusEncoder_forward C xt xm = Inr (Some xc)"
  shows "n \<noteq> 0"
proof -
  obtain a r where "call_encoder a xt xm 0 = Inr r"
    using fw by (auto simp: CorpusEncoder_forward_alt split: if_splits sum.splits)
  note k = call_encoder_nonempty[OF this]
  obtain m T where "shape3 n m T (xt ! 0)"
    using list_all2_nthD[OF wf k(1)] by auto
  then show ?thesis using k(2) by (auto simp: shape3_def)
qed

lemma MyModel_forward_per_sample:
  assumes ok: "model_per_sample M"
    and wf: "batch_wf n xt xm xn"
    and fw: "MyModel_forward M xt xm (Some xn) = Inr out"
  shows "\<exists>outs. out = concat outs \<and> length outs = n \<and>
           (\<forall>i<n. MyModel_forward M (sample_text i xt) (sample_masks i xm) (Some [xn ! i])
                    = Inr (outs ! i))"
proof -
  have cn: "per_sample (cnn (nontext_network M))"
    and ml: "per_sample (mlp (classifier M))"
    and va: "per_sample2 (vector_attention (classifier M))"
    and eo: "\<And>E. encoder (corpus_encoder M) = Val E \<or> encoder_ecb (corpus_encoder M) = Val E
               \<or> encoder_fed (corpus_encoder M) = Val E \<Longrightarrow> encoder_ok E"
    using ok by (auto simp: model_per_sample_def)
  obtain w where ln: "length xn = n" and rect: "list_all (\<lambda>r. length r = w) xn"
    and tw: "list_all2 (\<lambda>t mk. \<exists>m T. shape3 n m T t \<and>
                  (case mk of None \<Rightarrow> True | Some k \<Rightarrow> shape3 n m T k)) xt xm"
    using wf by (auto simp: batch_wf_def)
  obtain y xc where y: "NontextualNetwork_forward (nontext_network M) (Some xn) = Inr y"
    and xc: "(if mm_method M = None then Inr None
              else CorpusEncoder_forward (corpus_encoder M) xt xm) = Inr xc"
    and h: "ClassificationHead_forward (classifier M) xc (Some y) = Inr out"
    using fw by (auto simp: MyModel_forward_def split: sum.splits)
  have ly: "length y = n" using NontextualNetwork_forward_length[OF cn y] ln by simp
  have lc: "length c = n" if "xc = Some c" for c
  proof -
    have f: "CorpusEncoder_forward (corpus_encoder M) xt xm = Inr (Some c)"
      using xc that by (auto split: if_splits)
    have "0 < n" using CorpusEncoder_forward_nonempty[OF tw f] by simp
    then show ?thesis using CorpusEncoder_forward_sample(2)[OF eo tw f, of 0 c] by simp
  qed
  obtain outs where o: "out = concat outs" "length outs = n"
    "\<forall>i<n. ClassificationHead_forward (classifier M) (map_option (\<lambda>c. [c ! i]) xc)
        (Some [y ! i]) = Inr (outs ! i)"
    using ClassificationHead_forward_sample[OF va ml h ly lc] by blast
  have "MyModel_forward M (sample_text i xt) (sample_masks i xm) (Some [xn ! i])
      = Inr (outs ! i)" if i: "i < n" for i
  proof -
    have ix: "i < length xn" using i ln by simp
    note ys = NontextualNetwork_forward_sample(1)[OF cn rect y ix]
    have cs: "(if mm_method M = None then Inr None
              else CorpusEncoder_forward (corpus_encoder M) (sample_text i xt) (sample_masks i xm))
        = Inr (map_option (\<lambda>c. [c ! i]) xc)"
    proof (cases "mm_method M = None")
      case True
      then show ?thesis using xc by auto
    next
      case False
      then have "CorpusEncoder_forward (corpus_encoder M) xt xm = Inr xc"
        using xc by (simp only: if_False)
      from CorpusEncoder_forward_sample(1)[OF eo tw this i] False show ?thesis
        by (simp only: if_False)
    qed
    show ?thesis
      unfolding MyModel_forward_def ys cs using o(3) i by simp
  qed
  with o(1,2) show ?thesis by blast
qed

lemma concat_singletons_nth:
  "list_all (\<lambda>v. length v = 1) os \<Longrightarrow> i < length os \<Longrightarrow> os ! i = [concat os ! i]"
proof (induction os arbitrary: i)
  case Nil
  then show ?case by simp
next
  case (Cons v os)
  then obtain a where v: "v = [a]" by (cases v) auto
  show ?case
  proof (cases i)
    case 0
    then show ?thesis using v by simp
  next
    case (Suc k)
    then show ?thesis using Cons v by simp
  qed
qed

subsection \<open>The concrete model\<close>

lemma example_nontext_init:
  "NontextualNetwork_init 19 2 2 1 [[1, 1, 1, 1, 1, 1, 1, 1, 1]] [0] example_cnn
   = Inr example_nontext"
  by (simp add: NontextualNetwork_init_def example_nontext_def)

lemma example_model_init:
  "MyModel_init (Some ''model_03'')
     (NontextualNetwork_init 19 2 2 1 [[1, 1, 1, 1, 1, 1, 1, 1, 1]] [0] example_cnn)
     example_encoder example_encoder_fed example_head True = Inr example_model"
  by (simp add: NontextualNetwork_init_def MyModel_init_def CorpusEncoder_init_def Let_def
      example_model_def example_nontext_def)

lemma example_attention_contract: "va_contract d example_attention"
  unfolding va_contract_def example_attention_def
proof (intro allI impI, elim conjE)
  fix sq :: "real list list list" and q :: "real list list"
  assume l: "length sq = length q" and q: "list_all (\<lambda>v. length v = d) q"
    and s: "list_all (list_all (\<lambda>h. length h = d)) sq"
  have fold: "\<And>s v. list_all (\<lambda>h. length h = d) s \<Longrightarrow> length v = d \<Longrightarrow>
                length (foldr (map2 (+)) s v) = d"
    subgoal for s v by (induction s) auto
    done
  have "list_all (\<lambda>v. length v = d) (map2 (\<lambda>s v. foldr (map2 (+)) s v) sq q)"
    using l q s
  proof (induction sq q rule: list_induct2)
    case Nil
    then show ?case by simp
  next
    case (Cons x xs y ys)
    then show ?case by (simp add: fold)
  qed
  then show "\<exists>x. (if length sq = length q then Inr (map2 (\<lambda>s v. foldr (map2 (+)) s v) sq q)
                  else Inl RuntimeError) = Inr x \<and> length x = length q \<and>
                 list_all (\<lambda>v. length v = d) x"
    using l by simp
qed

lemma example_mlp_contract: "mlp_contract d example_mlp"
  unfolding mlp_contract_def example_mlp_def
  by (intro allI impI, rule_tac x="map (\<lambda>v. [sum_list v]) x" in exI)
     (simp add: list_all_iff comp_def)

lemma example_cnn_contract: "c \<noteq> 0 \<Longrightarrow> cnn_contract c c example_cnn"
  unfolding cnn_contract_def example_cnn_def
proof (intro allI impI)
  assume c0: "c \<noteq> 0"
  fix x :: "real list list list"
  assume a: "list_all (\<lambda>s. length s = c \<and> list_all (\<lambda>ch. length ch = 10) s) x"
  have "length (transpose s) = 10 \<and> list_all (\<lambda>h. length h = c) (transpose s)"
    if "length s = c" "list_all (\<lambda>ch. length ch = 10) s" "c \<noteq> 0" for s :: "real list list"
  proof -
    have "transpose s = map (\<lambda>i. map (\<lambda>j. s ! j ! i) [0..<length s]) [0..<10]"
      using that by (intro transpose_rectangle) (auto simp: list_all_iff)
    then show ?thesis using that by (simp add: list_all_iff)
  qed
  then show "\<exists>y. Inr (map transpose x) = Inr y \<and> length y = length x \<and>
      list_all (\<lambda>s. length s = 10 \<and> list_all (\<lambda>h. length h = c) s) y"
    using a c0 by (auto simp: list_all_iff)
qed

lemma example_text_encoder_contract: "text_encoder_contract example_text_encoder"
  unfolding text_encoder_contract_def example_text_encoder_def
proof (intro allI impI)
  fix x :: "int list list" and m :: "int list list" and h
  assume "Inr (map (map (\<lambda>t. replicate 768 (real_of_int t))) x) = Inr h"
  then have h: "h = map (map (\<lambda>t. replicate 768 (real_of_int t))) x" by simp
  show "list_all2 (\<lambda>r s. length s = length r \<and> list_all (\<lambda>v. length v = 768) s) x h"
    unfolding h by (rule list_all2_all_nthI) (simp_all add: list_all_iff)
qed

lemma eval_dropout_contract: "dropout_contract eval_dropout"
  unfolding dropout_contract_def eval_dropout_def
  by (simp add: list_all2_conv_all_nth)

lemma replicate_768: "replicate 768 c = c # replicate 767 c"
proof -
  have "(768::nat) = Suc 767" by simp
  then show ?thesis by (simp only: replicate_Suc)
qed

lemma dot_replicate_zero: "dot (replicate n 0) v = 0"
proof (induction n arbitrary: v)
  case 0
  then show ?case by (simp add: dot_def)
next
  case (Suc n)
  then show ?case by (cases v) (simp_all add: dot_def)
qed

lemma dot_unit: "dot (w # replicate 767 0) (replicate 768 c) = w * c"
proof -
  have "dot (w # replicate 767 0) (c # replicate 767 c)
      = w * c + dot (replicate 767 0) (replicate 767 c)"
    by (simp only: dot_def zip_Cons_Cons list.map sum_list.Cons prod.case)
  then show ?thesis
    by (simp only: replicate_768 dot_replicate_zero add_0_right)
qed

lemma map2_replicate: "map2 f (replicate n a) (replicate n b) = replicate n (f a b)"
  by (simp add: zip_replicate)

lemma chunks_1_2: "chunks 1 2 [a, b] = [[a, b]]"
proof -
  have "chunks (Suc 0) (Suc (Suc 0)) [a, b] = [[a, b]]" by simp
  then show ?thesis by (simp only: One_nat_def numeral_2_eq_2)
qed

text \<open>
  The corpus encoder with the stand-in transformer and a projection that reads the first
  feature: one sample of two documents of two tokens is embedded as 32 copies of
  \<open>w * max t1 t3 + c\<close>, where \<open>t1\<close> and \<open>t3\<close> are the first tokens of the documents.
\<close>

lemma example_ce03_value:
  "CorpusEncoder03_forward
     (CorpusEncoder03_init example_text_encoder eval_dropout
        (replicate 32 (w # replicate 767 0)) (replicate 32 c))
     [[[t1, t2], [t3, t4]]] (Some [[[k1, k2], [k3, k4]]])
   = Inr [replicate 32 (w * max (real_of_int t1) (real_of_int t3) + c)]"
proof -
  let ?E = "CorpusEncoder03_init example_text_encoder eval_dropout
        (replicate 32 (w # replicate 767 0)) (replicate 32 c)"
  have sh: "shape3 1 2 2 [[[t1, t2], [t3, t4]]]" "shape3 1 2 2 [[[k1, k2], [k3, k4]]]"
    by (simp_all add: shape3_def)
  have W: "length (replicate 32 (w # replicate 767 (0::real))) = 32"
    "length (replicate 32 c) = 32"
    by simp_all
  obtain d pooled out where r:
    "DocumentEncoder_forward (doc_encoder ?E)
       (concat [[[t1, t2], [t3, t4]]]) (Some (concat [[[k1, k2], [k3, k4]]])) = Inr d"
    "mapM max_docs (chunks 1 2 d) = Inr pooled"
    "mapM (Linear_forward (ce03_W ?E)) pooled = Inr out"
    "CorpusEncoder03_forward ?E [[[t1, t2], [t3, t4]]] (Some [[[k1, k2], [k3, k4]]]) = Inr out"
    using ce03_forward_steps
      [OF refl W example_text_encoder_contract example_text_encoder_def
          eval_dropout_contract sh]
    by auto
  have d: "d = [replicate 768 (real_of_int t1), replicate 768 (real_of_int t3)]"
    using r(1) by (simp add: DocumentEncoder_forward_def CorpusEncoder03_init_def
        example_text_encoder_def eval_dropout_def)
  have "mapM max_docs (chunks 1 2 [replicate 768 (real_of_int t1), replicate 768 (real_of_int t3)])
      = Inr [replicate 768 (max (real_of_int t1) (real_of_int t3))]"
    by (simp only: chunks_1_2 mapM.simps max_docs_def list.case foldl.simps map2_replicate
        sum.case)
  then have p: "pooled = [replicate 768 (max (real_of_int t1) (real_of_int t3))]"
    using r(2) unfolding d by simp
  have "Linear_forward (ce03_W ?E) (replicate 768 v) = Inr (replicate 32 (w * v + c))" for v
    by (simp add: CorpusEncoder03_init_def Linear_forward_def map2_replicate dot_unit
        del: replicate_768)
  then have "out = [replicate 32 (w * max (real_of_int t1) (real_of_int t3) + c)]"
    using r(3) unfolding p by simp
  with r(4) show ?thesis by simp
qed

lemma example_ecb_value:
  "CorpusEncoder03_forward example_encoder [[[t1, t2], [t3, t4]]] (Some [[[k1, k2], [k3, k4]]])
   = Inr [replicate 32 (max (real_of_int t1) (real_of_int t3))]"
  using example_ce03_value[of 1 0 t1 t2 t3 t4 k1 k2 k3 k4] by (simp add: example_encoder_def)

lemma example_fed_value:
  "CorpusEncoder03_forward example_encoder_fed [[[t1, t2], [t3, t4]]] (Some [[[k1, k2], [k3, k4]]])
   = Inr [replicate 32 (2 * max (real_of_int t1) (real_of_int t3) + 1)]"
  using example_ce03_value[of 2 1 t1 t2 t3 t4 k1 k2 k3 k4] by (simp add: example_encoder_fed_def)

lemma example_nontext_forward:
  "NontextualNetwork_forward example_nontext
     (Some [[1, 2, 3, 4, 5, 6, 7, 8, 9, 10, 0, 0, 1, 0, 0, 0, 0, 0, 0]])
   = Inr [[[1, 1], [1, 2], [1, 3], [1, 4], [1, 5], [1, 6], [1, 7], [1, 8], [1, 9], [1, 10]]]"
  by (simp add: NontextualNetwork_forward_def nn_stack_def example_nontext_def
      Linear_forward_def dot_def size1_def example_cnn_def numeral_eq_Suc)

lemma train_dropout_contract: "dropout_contract (train_dropout keep)"
  unfolding dropout_contract_def train_dropout_def
  by (simp add: list_all2_conv_all_nth nth_enumerate_eq)

lemma map_enumerate_snd: "map (\<lambda>(j, v). g v) (enumerate n xs) = map g xs"
  by (induction xs arbitrary: n) simp_all

lemma train_dropout_value:
  "train_dropout example_keep [replicate 768 a1, replicate 768 a2, replicate 768 b1, replicate 768 b2]
   = [replicate 768 0, replicate 768 (2 * a2), replicate 768 (2 * b1), replicate 768 (2 * b2)]"
  by (simp add: train_dropout_def example_keep_def map_enumerate_snd del: replicate_768)

lemma chunks_2_2: "chunks 2 2 [a, b, c, d] = [[a, b], [c, d]]"
proof -
  have "chunks (Suc (Suc 0)) (Suc (Suc 0)) [a, b, c, d] = [[a, b], [c, d]]" by simp
  then show ?thesis by (simp only: numeral_2_eq_2)
qed

lemma example_ce03_value2:
  assumes dc: "dropout_contract dr"
    and dv: "dr [replicate 768 (real_of_int t1), replicate 768 (real_of_int t3),
                 replicate 768 (real_of_int s1), replicate 768 (real_of_int s3)]
             = [replicate 768 a1, replicate 768 a2, replicate 768 b1, replicate 768 b2]"
  shows "CorpusEncoder03_forward
     (CorpusEncoder03_init example_text_encoder dr
        (replicate 32 (w # replicate 767 0)) (replicate 32 c))
     [[[t1, t2], [t3, t4]], [[s1, s2], [s3, s4]]]
     (Some [[[k1, k2], [k3, k4]], [[k5, k6], [k7, k8]]])
   = Inr [replicate 32 (w * max a1 a2 + c), replicate 32 (w * max b1 b2 + c)]"
proof -
  let ?E = "CorpusEncoder03_init example_text_encoder dr
        (replicate 32 (w # replicate 767 0)) (replicate 32 c)"
  have sh: "shape3 2 2 2 [[[t1, t2], [t3, t4]], [[s1, s2], [s3, s4]]]"
    "shape3 2 2 2 [[[k1, k2], [k3, k4]], [[k5, k6], [k7, k8]]]"
    by (simp_all add: shape3_def)
  have W: "length (replicate 32 (w # replicate 767 (0::real))) = 32"
    "length (replicate 32 c) = 32"
    by simp_all
  obtain d pooled out where r:
    "DocumentEncoder_forward (doc_encoder ?E)
       (concat [[[t1, t2], [t3, t4]], [[s1, s2], [s3, s4]]])
       (Some (concat [[[k1, k2], [k3, k4]], [[k5, k6], [k7, k8]]])) = Inr d"
    "mapM max_docs (chunks 2 2 d) = Inr pooled"
    "mapM (Linear_forward (ce03_W ?E)) pooled = Inr out"
    "CorpusEncoder03_forward ?E [[[t1, t2], [t3, t4]], [[s1, s2], [s3, s4]]]
       (Some [[[k1, k2], [k3, k4]], [[k5, k6], [k7, k8]]]) = Inr out"
    using ce03_forward_steps
      [OF refl W example_text_encoder_contract example_text_encoder_def dc sh]
    by auto
  have d: "d = [replicate 768 a1, replicate 768 a2, replicate 768 b1, replicate 768 b2]"
    using r(1) dv by (simp add: DocumentEncoder_forward_def CorpusEncoder03_init_def
        example_text_encoder_def del: replicate_768)
  have "mapM max_docs (chunks 2 2 [replicate 768 a1, replicate 768 a2,
          replicate 768 b1, replicate 768 b2])
      = Inr [replicate 768 (max a1 a2), replicate 768 (max b1 b2)]"
    by (simp only: chunks_2_2 mapM.simps max_docs_def list.case foldl.simps map2_replicate
        sum.case)
  then have p: "pooled = [replicate 768 (max a1 a2), replicate 768 (max b1 b2)]"
    using r(2) unfolding d by simp
  have "Linear_forward (ce03_W ?E) (replicate 768 v) = Inr (replicate 32 (w * v + c))" for v
    by (simp add: CorpusEncoder03_init_def Linear_forward_def map2_replicate dot_unit
        del: replicate_768)
  then have "out = [replicate 32 (w * max a1 a2 + c), replicate 32 (w * max b1 b2 + c)]"
    using r(3) unfolding p by simp
  with r(4) show ?thesis by simp
qed

lemma dot_ones: "length v = n \<Longrightarrow> dot (replicate n 1) v = sum_list v"
proof (induction v arbitrary: n)
  case Nil
  then show ?case by (simp add: dot_def)
next
  case (Cons a v)
  then obtain k where k: "n = Suc k" "length v = k" by (cases n) auto
  then show ?case using Cons.IH[of k] by (simp add: dot_def)
qed

lemma example_head_value:
  "ClassificationHead_forward example_head
     (Some [replicate 32 a1 @ replicate 32 b1, replicate 32 a2 @ replicate 32 b2])
     (Some [y1, y2])
   = Inr [sum_list (foldr (map2 (+)) y1 [32 * a1 + 32 * b1, 32 * a1 + 32 * b1]),
          sum_list (foldr (map2 (+)) y2 [32 * a2 + 32 * b2, 32 * a2 + 32 * b2])]"
proof -
  have p: "Linear_forward (proj example_head) (replicate 32 a @ replicate 32 b)
      = Inr [32 * a + 32 * b, 32 * a + 32 * b]" for a b
  proof -
    have "dot (replicate 64 1) (replicate 32 a @ replicate 32 b) = 32 * a + 32 * b"
      by (subst dot_ones) (simp_all add: sum_list_replicate)
    then show ?thesis
      by (simp add: example_head_def ClassificationHead_init_def Linear_forward_def
          numeral_2_eq_2)
  qed
  show ?thesis
    by (simp add: ClassificationHead_forward_def head_input_def p)
       (simp add: example_head_def ClassificationHead_init_def example_attention_def
          example_mlp_def view_flat_def)
qed

lemma example_nontext_forward2:
  "NontextualNetwork_forward example_nontext
     (Some [[1, 2, 3, 4, 5, 6, 7, 8, 9, 10, 0, 0, 1, 0, 0, 0, 0, 0, 0],
            [0, 0, 0, 0, 0, 0, 0, 0, 0, 1, 1, 0, 0, 0, 0, 0, 0, 0, 0]])
   = Inr [[[1, 1], [1, 2], [1, 3], [1, 4], [1, 5], [1, 6], [1, 7], [1, 8], [1, 9], [1, 10]],
          [[1, 0], [1, 0], [1, 0], [1, 0], [1, 0], [1, 0], [1, 0], [1, 0], [1, 0], [1, 1]]]"
  by (simp add: NontextualNetwork_forward_def nn_stack_def example_nontext_def
      Linear_forward_def dot_def size1_def example_cnn_def numeral_eq_Suc)

lemma example_forward_value:
  assumes M: "mm_method M = Some ''model_03''" "nontext_network M = example_nontext"
      "classifier M = example_head"
      "corpus_encoder M = CorpusEncoder_init Ee Ef (Some ''model_03'') True"
    and ecb: "CorpusEncoder03_forward Ee xe (Some ke) = Inr [replicate 32 a1, replicate 32 a2]"
    and fed: "CorpusEncoder03_forward Ef xf (Some kf) = Inr [replicate 32 b1, replicate 32 b2]"
    and nn: "NontextualNetwork_forward example_nontext (Some xn) = Inr [y1, y2]"
  shows "MyModel_forward M [xe, xf] [Some ke, Some kf] (Some xn)
   = Inr [sum_list (foldr (map2 (+)) y1 [32 * a1 + 32 * b1, 32 * a1 + 32 * b1]),
          sum_list (foldr (map2 (+)) y2 [32 * a2 + 32 * b2, 32 * a2 + 32 * b2])]"
proof -
  have c: "CorpusEncoder_forward (corpus_encoder M) [xe, xf] [Some ke, Some kf]
      = Inr (Some [replicate 32 a1 @ replicate 32 b1, replicate 32 a2 @ replicate 32 b2])"
    by (simp add: M(4) CorpusEncoder_forward_alt CorpusEncoder_init_def Let_def
        call_encoder_def tuple_get_def ecb fed cat1_def)
  show ?thesis
    by (simp add: MyModel_forward_def M(1,2,3) nn c example_head_value)
qed

lemma example_eval_forward:
  "MyModel_forward example_model
     [[[[3, 4], [5, 6]], [[2, 2], [1, 1]]], [[[7, 8], [9, 1]], [[4, 0], [3, 0]]]]
     [Some [[[1, 1], [1, 1]], [[1, 1], [1, 1]]], Some [[[1, 1], [1, 1]], [[1, 1], [1, 1]]]]
     (Some [[1, 2, 3, 4, 5, 6, 7, 8, 9, 10, 0, 0, 1, 0, 0, 0, 0, 0, 0],
            [0, 0, 0, 0, 0, 0, 0, 0, 0, 1, 1, 0, 0, 0, 0, 0, 0, 0, 0]])
   = Inr [1601, 715]"
proof -
  have M: "mm_method example_model = Some ''model_03''"
    "nontext_network example_model = example_nontext"
    "classifier example_model = example_head"
    "corpus_encoder example_model
       = CorpusEncoder_init example_encoder example_encoder_fed (Some ''model_03'') True"
    by (simp_all add: example_model_def)
  have e: "CorpusEncoder03_forward example_encoder [[[3, 4], [5, 6]], [[2, 2], [1, 1]]]
      (Some [[[1, 1], [1, 1]], [[1, 1], [1, 1]]]) = Inr [replicate 32 5, replicate 32 2]"
    unfolding example_encoder_def
    using example_ce03_value2[OF eval_dropout_contract, of 3 5 2 1 3 5 2 1 1 0]
    by (simp add: eval_dropout_def)
  have f: "CorpusEncoder03_forward example_encoder_fed [[[7, 8], [9, 1]], [[4, 0], [3, 0]]]
      (Some [[[1, 1], [1, 1]], [[1, 1], [1, 1]]]) = Inr [replicate 32 19, replicate 32 9]"
    unfolding example_encoder_fed_def
    using example_ce03_value2[OF eval_dropout_contract, of 7 9 4 3 7 9 4 3 2 1]
    by (simp add: eval_dropout_def)
  show ?thesis
    using example_forward_value[OF M e f example_nontext_forward2] by simp
qed

lemma example_nontext_forward2_swapped:
  "NontextualNetwork_forward example_nontext
     (Some [[0, 0, 0, 0, 0, 0, 0, 0, 0, 1, 1, 0, 0, 0, 0, 0, 0, 0, 0],
            [1, 2, 3, 4, 5, 6, 7, 8, 9, 10, 0, 0, 1, 0, 0, 0, 0, 0, 0]])
   = Inr [[[1, 0], [1, 0], [1, 0], [1, 0], [1, 0], [1, 0], [1, 0], [1, 0], [1, 0], [1, 1]],
          [[1, 1], [1, 2], [1, 3], [1, 4], [1, 5], [1, 6], [1, 7], [1, 8], [1, 9], [1, 10]]]"
  by (simp add: NontextualNetwork_forward_def nn_stack_def example_nontext_def
      Linear_forward_def dot_def size1_def example_cnn_def numeral_eq_Suc)

lemma example_eval_forward_swapped:
  "MyModel_forward example_model
     [[[[2, 2], [1, 1]], [[3, 4], [5, 6]]], [[[4, 0], [3, 0]], [[7, 8], [9, 1]]]]
     [Some [[[1, 1], [1, 1]], [[1, 1], [1, 1]]], Some [[[1, 1], [1, 1]], [[1, 1], [1, 1]]]]
     (Some [[0, 0, 0, 0, 0, 0, 0, 0, 0, 1, 1, 0, 0, 0, 0, 0, 0, 0, 0],
            [1, 2, 3, 4, 5, 6, 7, 8, 9, 10, 0, 0, 1, 0, 0, 0, 0, 0, 0]])
   = Inr [715, 1601]"
proof -
  have M: "mm_method example_model = Some ''model_03''"
    "nontext_network example_model = example_nontext"
    "classifier example_model = example_head"
    "corpus_encoder example_model
       = CorpusEncoder_init example_encoder example_encoder_fed (Some ''model_03'') True"
    by (simp_all add: example_model_def)
  have e: "CorpusEncoder03_forward example_encoder [[[2, 2], [1, 1]], [[3, 4], [5, 6]]]
      (Some [[[1, 1], [1, 1]], [[1, 1], [1, 1]]]) = Inr [replicate 32 2, replicate 32 5]"
    unfolding example_encoder_def
    using example_ce03_value2[OF eval_dropout_contract, of 2 1 3 5 2 1 3 5 1 0]
    by (simp add: eval_dropout_def)
  have f: "CorpusEncoder03_forward example_encoder_fed [[[4, 0], [3, 0]], [[7, 8], [9, 1]]]
      (Some [[[1, 1], [1, 1]], [[1, 1], [1, 1]]]) = Inr [replicate 32 9, replicate 32 19]"
    unfolding example_encoder_fed_def
    using example_ce03_value2[OF eval_dropout_contract, of 4 3 7 9 4 3 7 9 2 1]
    by (simp add: eval_dropout_def)
  show ?thesis
    using example_forward_value[OF M e f example_nontext_forward2_swapped] by simp
qed

lemma example_train_forward:
  "MyModel_forward example_model_train
     [[[[3, 4], [5, 6]], [[2, 2], [1, 1]]], [[[7, 8], [9, 1]], [[4, 0], [3, 0]]]]
     [Some [[[1, 1], [1, 1]], [[1, 1], [1, 1]]], Some [[[1, 1], [1, 1]], [[1, 1], [1, 1]]]]
     (Some [[1, 2, 3, 4, 5, 6, 7, 8, 9, 10, 0, 0, 1, 0, 0, 0, 0, 0, 0],
            [0, 0, 0, 0, 0, 0, 0, 0, 0, 1, 1, 0, 0, 0, 0, 0, 0, 0, 0]])
   = Inr [3073, 1355]"
proof -
  have M: "mm_method example_model_train = Some ''model_03''"
    "nontext_network example_model_train = example_nontext"
    "classifier example_model_train = example_head"
    "corpus_encoder example_model_train
       = CorpusEncoder_init example_encoder_train example_encoder_fed_train
           (Some ''model_03'') True"
    by (simp_all add: example_model_train_def example_model_def)
  have e: "CorpusEncoder03_forward example_encoder_train [[[3, 4], [5, 6]], [[2, 2], [1, 1]]]
      (Some [[[1, 1], [1, 1]], [[1, 1], [1, 1]]]) = Inr [replicate 32 10, replicate 32 4]"
    unfolding example_encoder_train_def
    using example_ce03_value2[where dr = "train_dropout example_keep"
        and ?t1.0 = 3 and ?t2.0 = 4 and ?t3.0 = 5 and ?t4.0 = 6
        and ?s1.0 = 2 and ?s2.0 = 2 and ?s3.0 = 1 and ?s4.0 = 1
        and w = 1 and c = 0
        and ?k1.0 = 1 and ?k2.0 = 1 and ?k3.0 = 1 and ?k4.0 = 1
        and ?k5.0 = 1 and ?k6.0 = 1 and ?k7.0 = 1 and ?k8.0 = 1,
        OF train_dropout_contract train_dropout_value]
    by simp
  have f: "CorpusEncoder03_forward example_encoder_fed_train [[[7, 8], [9, 1]], [[4, 0], [3, 0]]]
      (Some [[[1, 1], [1, 1]], [[1, 1], [1, 1]]]) = Inr [replicate 32 37, replicate 32 17]"
    unfolding example_encoder_fed_train_def
    using example_ce03_value2[where dr = "train_dropout example_keep"
        and ?t1.0 = 7 and ?t2.0 = 8 and ?t3.0 = 9 and ?t4.0 = 1
        and ?s1.0 = 4 and ?s2.0 = 0 and ?s3.0 = 3 and ?s4.0 = 0
        and w = 2 and c = 1
        and ?k1.0 = 1 and ?k2.0 = 1 and ?k3.0 = 1 and ?k4.0 = 1
        and ?k5.0 = 1 and ?k6.0 = 1 and ?k7.0 = 1 and ?k8.0 = 1,
        OF train_dropout_contract train_dropout_value]
    by simp
  show ?thesis
    using example_forward_value[OF M e f example_nontext_forward2] by simp
qed

lemma example_train_forward_swapped:
  "MyModel_forward example_model_train
     [[[[2, 2], [1, 1]], [[3, 4], [5, 6]]], [[[4, 0], [3, 0]], [[7, 8], [9, 1]]]]
     [Some [[[1, 1], [1, 1]], [[1, 1], [1, 1]]], Some [[[1, 1], [1, 1]], [[1, 1], [1, 1]]]]
     (Some [[0, 0, 0, 0, 0, 0, 0, 0, 0, 1, 1, 0, 0, 0, 0, 0, 0, 0, 0],
            [1, 2, 3, 4, 5, 6, 7, 8, 9, 10, 0, 0, 1, 0, 0, 0, 0, 0, 0]])
   = Inr [971, 3073]"
proof -
  have M: "mm_method example_model_train = Some ''model_03''"
    "nontext_network example_model_train = example_nontext"
    "classifier example_model_train = example_head"
    "corpus_encoder example_model_train
       = CorpusEncoder_init example_encoder_train example_encoder_fed_train
           (Some ''model_03'') True"
    by (simp_all add: example_model_train_def example_model_def)
  have e: "CorpusEncoder03_forward example_encoder_train [[[2, 2], [1, 1]], [[3, 4], [5, 6]]]
      (Some [[[1, 1], [1, 1]], [[1, 1], [1, 1]]]) = Inr [replicate 32 2, replicate 32 10]"
    unfolding example_encoder_train_def
    using example_ce03_value2[where dr = "train_dropout example_keep"
        and ?t1.0 = 2 and ?t2.0 = 2 and ?t3.0 = 1 and ?t4.0 = 1
        and ?s1.0 = 3 and ?s2.0 = 4 and ?s3.0 = 5 and ?s4.0 = 6
        and w = 1 and c = 0
        and ?k1.0 = 1 and ?k2.0 = 1 and ?k3.0 = 1 and ?k4.0 = 1
        and ?k5.0 = 1 and ?k6.0 = 1 and ?k7.0 = 1 and ?k8.0 = 1,
        OF train_dropout_contract train_dropout_value]
    by simp
  have f: "CorpusEncoder03_forward example_encoder_fed_train [[[4, 0], [3, 0]], [[7, 8], [9, 1]]]
      (Some [[[1, 1], [1, 1]], [[1, 1], [1, 1]]]) = Inr [replicate 32 13, replicate 32 37]"
    unfolding example_encoder_fed_train_def
    using example_ce03_value2[where dr = "train_dropout example_keep"
        and ?t1.0 = 4 and ?t2.0 = 0 and ?t3.0 = 3 and ?t4.0 = 0
        and ?s1.0 = 7 and ?s2.0 = 8 and ?s3.0 = 9 and ?s4.0 = 1
        and w = 2 and c = 1
        and ?k1.0 = 1 and ?k2.0 = 1 and ?k3.0 = 1 and ?k4.0 = 1
        and ?k5.0 = 1 and ?k6.0 = 1 and ?k7.0 = 1 and ?k8.0 = 1,
        OF train_dropout_contract train_dropout_value]
    by simp
  show ?thesis
    using example_forward_value[OF M e f example_nontext_forward2_swapped] by simp
qed

lemma per_sample_total:
  assumes "\<And>xs. f xs = Inr (map g xs)"
  shows "per_sample f"
proof -
  have "mapM (\<lambda>x. Inr (g x)) xs = Inr (map g xs)" for xs :: "'a list"
    by (rule mapM_total) simp
  then have "\<forall>xs ys. f xs = Inr ys \<longleftrightarrow> mapM (\<lambda>x. Inr (g x)) xs = Inr ys"
    using assms by simp
  then show ?thesis unfolding per_sample_def by blast
qed

lemma per_sample2_total:
  assumes "\<And>xs ys. length xs = length ys \<Longrightarrow> f xs ys = Inr (map2 g xs ys)"
  shows "per_sample2 f"
proof -
  have "mapM (\<lambda>(x, y). Inr (g x y)) ps = Inr (map (\<lambda>(x, y). g x y) ps)" for ps :: "('a \<times> 'b) list"
    by (rule mapM_total) (simp add: split_def)
  then have "\<forall>xs ys zs. length xs = length ys \<longrightarrow>
      (f xs ys = Inr zs \<longleftrightarrow> mapM (\<lambda>(x, y). Inr (g x y)) (zip xs ys) = Inr zs)"
    using assms by simp
  then show ?thesis unfolding per_sample2_def by blast
qed

lemma example_cnn_per_sample: "per_sample example_cnn"
  by (rule per_sample_total[of _ transpose]) (simp add: example_cnn_def)

lemma example_mlp_per_sample: "per_sample example_mlp"
  by (rule per_sample_total[of _ "\<lambda>s. case s of Vec v \<Rightarrow> Vec [sum_list v]
                                       | Mat m \<Rightarrow> Mat (map (\<lambda>r. [sum_list r]) m)"])
    (simp add: example_mlp_def)

lemma example_attention_per_sample: "per_sample2 example_attention"
  by (rule per_sample2_total[of _ "\<lambda>s v. foldr (map2 (+)) s v"])
    (simp add: example_attention_def)

lemma example_text_encoder_per_sample:
  "per_sample2 (\<lambda>x m. example_text_encoder x (Some m))"
proof (rule per_sample2_total[of _ "\<lambda>r k. map (\<lambda>t. replicate 768 (real_of_int t)) r"])
  fix xs :: "int list list" and ys :: "int list list"
  assume "length xs = length ys"
  then have "map2 (\<lambda>r k. map (\<lambda>t. replicate 768 (real_of_int t)) r) xs ys
      = map (map (\<lambda>t. replicate 768 (real_of_int t))) xs"
    by (induction xs ys rule: list_induct2) simp_all
  then show "example_text_encoder xs (Some ys)
      = Inr (map2 (\<lambda>r k. map (\<lambda>t. replicate 768 (real_of_int t)) r) xs ys)"
    by (simp add: example_text_encoder_def)
qed

lemma eval_dropout_rowwise: "rowwise eval_dropout"
  unfolding rowwise_def eval_dropout_def by (rule exI[of _ id]) simp

lemma example_encoder_ok:
  "encoder_ok (CorpusEncoder03_init example_text_encoder eval_dropout W b)"
  unfolding encoder_ok_def
  by (simp add: CorpusEncoder03_init_def example_text_encoder_contract
      example_text_encoder_per_sample eval_dropout_contract eval_dropout_rowwise)

lemma example_model_per_sample: "model_per_sample example_model"
  unfolding model_per_sample_def
  by (auto simp: example_model_def example_nontext_def example_head_def
      ClassificationHead_init_def CorpusEncoder_init_def example_encoder_def
      example_encoder_fed_def example_cnn_per_sample example_mlp_per_sample
      example_attention_per_sample example_encoder_ok)

lemma example_batch_wf:
  "batch_wf 2 [[[[a1, a2], [a3, a4]], [[a5, a6], [a7, a8]]],
               [[[b1, b2], [b3, b4]], [[b5, b6], [b7, b8]]]]
     [Some [[[1, 1], [1, 1]], [[1, 1], [1, 1]]], Some [[[1, 1], [1, 1]], [[1, 1], [1, 1]]]]
     [[p1, p2, p3, p4, p5, p6, p7, p8, p9, p10, p11, p12, p13, p14, p15, p16, p17, p18, p19],
      [q1, q2, q3, q4, q5, q6, q7, q8, q9, q10, q11, q12, q13, q14, q15, q16, q17, q18, q19]]"
proof -
  have s: "shape3 2 2 2 [[[c1, c2], [c3, c4]], [[c5, c6], [c7, c8 :: int]]]"
    for c1 c2 c3 c4 c5 c6 c7 c8
    by (simp add: shape3_def)
  have "\<exists>m T. shape3 2 m T [[[c1, c2], [c3, c4]], [[c5, c6], [c7, c8 :: int]]] \<and>
      shape3 2 m T [[[1, 1], [1, 1]], [[1, 1], [1, 1 :: int]]]"
    for c1 c2 c3 c4 c5 c6 c7 c8
    using s by blast
  moreover have "\<exists>w. list_all (\<lambda>r. length r = w)
     [[p1, p2, p3, p4, p5, p6, p7, p8, p9, p10, p11, p12, p13, p14, p15, p16, p17, p18, p19],
      [q1, q2, q3, q4, q5, q6, q7, q8, q9, q10, q11, q12, q13, q14, q15, q16, q17, q18, q19]]"
    by (rule exI[of _ 19]) simp
  ultimately show ?thesis
    unfolding batch_wf_def by simp
qed

subsection \<open>Pooling over the documents\<close>

lemma foldl_map2_max_nth:
  assumes "length d = n" "list_all (\<lambda>v. length v = n) ds" "k < n"
  shows "foldl (map2 max) d ds ! k = foldl max (d ! k) (map (\<lambda>r. r ! k) ds)"
  using assms
proof (induction ds arbitrary: d)
  case Nil
  then show ?case by simp
next
  case (Cons a ds)
  have "length (map2 max d a) = n" using Cons.prems by simp
  moreover have "map2 max d a ! k = max (d ! k) (a ! k)" using Cons.prems by simp
  ultimately show ?case using Cons.IH[of "map2 max d a"] Cons.prems by simp
qed

lemma foldl_max_Max: "foldl max a xs = Max (set (a # xs))" for a :: real
proof -
  have "foldl max a xs = fold max xs a"
    by (induction xs arbitrary: a) (simp_all add: max.commute)
  then show ?thesis by (simp only: Max.set_eq_fold)
qed

lemma max_docs_Max:
  assumes "list_all (\<lambda>v. length v = n) docs" "max_docs docs = Inr p" "k < n"
  shows "p ! k = Max ((\<lambda>r. r ! k) ` set docs)"
proof (cases docs)
  case Nil
  then show ?thesis using assms(2) by (simp add: max_docs_def)
next
  case (Cons d ds)
  then have "p = foldl (map2 max) d ds" using assms(2) by (simp add: max_docs_def)
  then have "p ! k = foldl max (d ! k) (map (\<lambda>r. r ! k) ds)"
    using foldl_map2_max_nth[of d n ds k] assms(1,3) Cons by simp
  then show ?thesis by (simp add: foldl_max_Max Cons)
qed

lemma mapM_nth:
  assumes "mapM f xs = Inr ys" "i < length xs"
  shows "f (xs ! i) = Inr (ys ! i)"
  using mapM_single[OF assms] by (simp split: sum.splits)

lemma set_chunk:
  assumes "length d = b * m" "i < b"
  shows "set (chunks b m d ! i) = (\<lambda>j. d ! (i * m + j)) ` {..<m}"
proof -
  have le: "i * m + m \<le> length d"
  proof -
    have "Suc i * m \<le> b * m" using assms(2) by (intro mult_le_mono1) simp
    then show ?thesis using assms(1) by (simp add: add.commute)
  qed
  have "set (take m (drop (i * m) d)) = nth (drop (i * m) d) ` {0..<m}"
    using le by (intro nth_image[symmetric]) simp
  also have "\<dots> = (\<lambda>j. d ! (i * m + j)) ` {0..<m}"
    using le by (intro image_cong) simp_all
  finally show ?thesis using chunks_nth[OF assms(2), of m d] by (simp add: lessThan_atLeast0)
qed

lemma pooled_Max:
  assumes d: "length d = b * m" "list_all (\<lambda>v. length v = n) d"
    and p: "mapM max_docs (chunks b m d) = Inr pooled"
    and i: "i < b" and k: "k < n"
  shows "pooled ! i ! k = Max ((\<lambda>j. d ! (i * m + j) ! k) ` {..<m})"
proof -
  have "max_docs (chunks b m d ! i) = Inr (pooled ! i)"
    using mapM_nth[OF p] i by (simp add: chunks_length)
  moreover have "chunks b m d ! i \<in> set (chunks b m d)"
    using i by (simp add: chunks_length)
  then have "list_all (\<lambda>v. length v = n) (chunks b m d ! i)"
    using chunks_subset d(2) by (fastforce simp: list_all_iff)
  ultimately have "pooled ! i ! k = Max ((\<lambda>r. r ! k) ` set (chunks b m d ! i))"
    using max_docs_Max k by blast
  then show ?thesis
    by (simp add: set_chunk[OF d(1) i] image_image)
qed

lemma ce03_docs_shape:
  assumes enc: "text_encoder_contract enc_fn"
    and ret: "enc_fn (concat x) (Some (concat amask)) = Inr h"
    and dr: "dropout_contract dropout_fn"
    and x: "shape3 b m t x" and t: "t \<noteq> 0"
    and d: "DocumentEncoder_forward \<lparr>text_encoder = enc_fn, dropout = dropout_fn\<rparr>
              (concat x) (Some (concat amask)) = Inr d"
  shows "length d = b * m" "list_all (\<lambda>v. length v = 768) d"
proof -
  obtain d' where d': "DocumentEncoder_forward \<lparr>text_encoder = enc_fn, dropout = dropout_fn\<rparr>
        (concat x) (Some (concat amask)) = Inr d'"
    "length d' = length (concat x)" "list_all (\<lambda>v. length v = 768) d'"
    using DocumentEncoder_forward_shape
      [of "\<lparr>text_encoder = enc_fn, dropout = dropout_fn\<rparr>" "concat x" "concat amask" h t]
      enc ret dr shape3_concat(2)[OF x] t by auto
  have "d' = d" using d d'(1) by simp
  then show "length d = b * m" "list_all (\<lambda>v. length v = 768) d"
    using d'(2,3) shape3_concat(1)[OF x] by simp_all
qed

subsection \<open>One modality absent\<close>





subsection \<open>Rounding to float32\<close>

lemma rne_bound: "\<bar>of_int (rne y) - y\<bar> \<le> 1 / 2"
  unfolding rne_def Let_def by (auto simp: abs_if) linarith+

lemma rne_of_int: "rne (of_int n) = n"
  by (simp add: rne_def)

lemma rne_nonneg: "0 \<le> y \<Longrightarrow> 0 \<le> rne y"
  unfolding rne_def Let_def by (auto simp: ) 

lemma rne_nonpos: "y \<le> 0 \<Longrightarrow> rne y \<le> 0"
  unfolding rne_def Let_def
  by (auto simp: )

lemma rnd32_zero: "rnd32 0 = Fin 0"
  by (simp add: rnd32_def)

lemma powr_floor_log_le:
  assumes "0 < y"
  shows "2 powr (of_int \<lfloor>log 2 y\<rfloor>) \<le> y"
proof -
  have "2 powr (of_int \<lfloor>log 2 y\<rfloor>) \<le> 2 powr (log 2 y)"
    by (intro powr_mono) simp_all
  also have "\<dots> = y" using assms by simp
  finally show ?thesis .
qed

lemma rnd32_bound:
  assumes x: "\<bar>x\<bar> \<le> 2 ^ 127"
  shows "\<exists>r. rnd32 x = Fin r \<and> \<bar>r - x\<bar> \<le> \<bar>x\<bar> / 2 ^ 24 + 1 / 2 ^ 150 \<and>
             (0 \<le> x \<longrightarrow> 0 \<le> r) \<and> (x \<le> 0 \<longrightarrow> r \<le> 0)"
proof (cases "x = 0")
  case True
  then show ?thesis by (simp add: rnd32_zero)
next
  case False
  define e where "e = max \<lfloor>log 2 \<bar>x\<bar>\<rfloor> (- 126)"
  define q :: real where "q = 2 powr (of_int e - 23)"
  define r :: real where "r = of_int (rne (x / q)) * q"
  have ax: "0 < \<bar>x\<bar>" using False by simp
  have q0: "0 < q" by (simp add: q_def)
  have qe: "q = 2 powr (of_int e) / 2 ^ 23"
    by (simp add: q_def powr_diff)
  have err: "\<bar>r - x\<bar> \<le> q / 2"
  proof -
    have "r - x = (of_int (rne (x / q)) - x / q) * q"
      using q0 by (simp add: r_def field_simps)
    then have "\<bar>r - x\<bar> = \<bar>of_int (rne (x / q)) - x / q\<bar> * q"
      using q0 by (simp add: abs_mult)
    also have "\<dots> \<le> (1 / 2) * q"
      using rne_bound[of "x / q"] q0 by (intro mult_right_mono) simp_all
    finally show ?thesis by simp
  qed
  have qb: "q / 2 \<le> \<bar>x\<bar> / 2 ^ 24 + 1 / 2 ^ 150"
  proof (cases "- 126 \<le> \<lfloor>log 2 \<bar>x\<bar>\<rfloor>")
    case True
    then have "e = \<lfloor>log 2 \<bar>x\<bar>\<rfloor>" by (simp add: e_def)
    then have "2 powr (of_int e) \<le> \<bar>x\<bar>" using powr_floor_log_le[OF ax] by simp
    then have "q / 2 \<le> \<bar>x\<bar> / 2 ^ 24" by (simp add: qe)
    then show ?thesis by simp
  next
    case False
    then have "e = - 126" by (simp add: e_def)
    then have "q = 2 powr (- 149)" by (simp add: q_def)
    also have "\<dots> = 1 / 2 ^ 149"
      by (simp add: powr_minus inverse_eq_divide)
    finally have "q / 2 = 1 / 2 ^ 150" by simp
    then show ?thesis by simp
  qed
  have el: "e \<le> 127"
  proof -
    have "log 2 \<bar>x\<bar> \<le> log 2 (2 ^ 127)"
      using x ax by simp
    also have "\<dots> = real (127::nat)" by (rule log_pow_cancel) simp_all
    finally have "\<lfloor>log 2 \<bar>x\<bar>\<rfloor> \<le> 127" by (simp add: floor_le_iff)
    then show ?thesis by (simp add: e_def)
  qed
  have ql: "q \<le> 2 ^ 104"
  proof -
    have "q \<le> 2 powr (127 - 23)"
      unfolding q_def using el by (intro powr_mono) simp_all
    also have "\<dots> = 2 powr (of_nat 104)" by simp
    also have "\<dots> = 2 ^ 104" by (simp only: powr_realpow)
    finally show ?thesis .
  qed
  have fin: "\<bar>r\<bar> < 2 ^ 128"
  proof -
    have "\<bar>r\<bar> \<le> \<bar>x\<bar> + q / 2" using err by linarith
    also have "\<dots> \<le> 2 ^ 127 + 2 ^ 104 / 2" using x ql by linarith
    also have "\<dots> < 2 ^ 128" by simp
    finally show ?thesis .
  qed
  have sg: "(0 \<le> x \<longrightarrow> 0 \<le> r) \<and> (x \<le> 0 \<longrightarrow> r \<le> 0)"
  proof (intro conjI impI)
    assume "0 \<le> x"
    then have "0 \<le> x / q" using q0 by simp
    then have "0 \<le> rne (x / q)" by (rule rne_nonneg)
    then show "0 \<le> r" using q0 by (simp add: r_def)
  next
    assume "x \<le> 0"
    then have "x / q \<le> 0" using q0 by (simp add: divide_nonpos_pos)
    then have "rne (x / q) \<le> 0" by (rule rne_nonpos)
    then show "r \<le> 0" using q0 by (simp add: r_def mult_nonpos_nonneg)
  qed
  have "rnd32 x = Fin r"
    using False fin unfolding rnd32_def Let_def e_def[symmetric] q_def[symmetric] r_def[symmetric]
    by simp
  with err qb sg show ?thesis by (intro exI[of _ r]) linarith
qed


lemma rnd32_eval:
  assumes x0: "x \<noteq> 0"
    and lo: "2 powr (of_int k) \<le> \<bar>x\<bar>" and hi: "\<bar>x\<bar> < 2 powr (of_int k + 1)"
    and k: "- 126 \<le> k"
    and n: "rne (x / 2 powr (of_int k - 23)) = n"
    and fin: "\<bar>real_of_int n * 2 powr (of_int k - 23)\<bar> < 2 ^ 128"
  shows "rnd32 x = Fin (of_int n * 2 powr (of_int k - 23))"
proof -
  have "\<lfloor>log 2 \<bar>x\<bar>\<rfloor> = k"
    using x0 lo hi by (simp add: floor_log_eq_powr_iff)
  then have e: "max \<lfloor>log 2 \<bar>x\<bar>\<rfloor> (- 126) = k" using k by simp
  show ?thesis
    unfolding rnd32_def Let_def e using x0 n fin by simp
qed

lemma rnd32_one: "rnd32 1 = Fin 1"
proof -
  have n: "rne (1 / 2 powr (of_int 0 - 23)) = 2 ^ 23"
  proof -
    have "1 / 2 powr (of_int 0 - 23) = (of_int (2 ^ 23) :: real)"
      by (simp add: powr_minus inverse_eq_divide)
    then show ?thesis by (simp only: rne_of_int)
  qed
  have v: "(of_int (2 ^ 23) :: real) * 2 powr (of_int 0 - 23) = 1"
    by (simp add: powr_minus inverse_eq_divide)
  show ?thesis
    using rnd32_eval[of 1 0 "2 ^ 23", OF _ _ _ _ n] unfolding v by simp
qed


lemma rnd32_overflow:
  assumes "2 ^ 128 \<le> x"
  shows "rnd32 x = PInf"
proof -
  have x0: "0 < x" using assms by (rule less_le_trans[rotated]) simp
  define e where "e = max \<lfloor>log 2 \<bar>x\<bar>\<rfloor> (- 126)"
  define q :: real where "q = 2 powr (of_int e - 23)"
  define r :: real where "r = of_int (rne (x / q)) * q"
  have q0: "0 < q" by (simp add: q_def)
  have "log 2 (2 ^ 128) \<le> log 2 x" using assms x0 by simp
  moreover have "log 2 ((2::real) ^ 128) = real (128::nat)" by (rule log_pow_cancel) simp_all
  ultimately have "128 \<le> \<lfloor>log 2 x\<rfloor>" by (simp add: le_floor_iff)
  then have e: "e = \<lfloor>log 2 x\<rfloor>" "128 \<le> e" using x0 by (simp_all add: e_def)
  have pe: "2 powr (of_int e) \<le> x" using powr_floor_log_le[OF x0] e by simp
  have qe: "q * 2 ^ 23 = 2 powr (of_int e)" by (simp add: q_def powr_diff)
  have "2 ^ 23 \<le> x / q"
    using pe qe q0 by (simp add: pos_le_divide_eq mult.commute)
  then have "(2 ^ 23 :: real) - 1 / 2 \<le> of_int (rne (x / q))"
    using rne_bound[of "x / q"] by linarith
  then have "real_of_int (2 ^ 23 - 1) < of_int (rne (x / q))" by simp
  then have "(2 ^ 23 :: int) - 1 < rne (x / q)" by (simp only: of_int_less_iff)
  then have "(2 ^ 23 :: int) \<le> rne (x / q)" by simp
  then have "real_of_int (2 ^ 23) \<le> of_int (rne (x / q))" by (simp only: of_int_le_iff)
  then have "(2 ^ 23 :: real) \<le> of_int (rne (x / q))" by simp
  then have "2 ^ 23 * q \<le> r" using q0 by (simp add: r_def)
  then have "2 powr (of_int e) \<le> r" using qe by (simp add: mult.commute)
  moreover have "(2::real) powr (of_int 128) \<le> 2 powr (of_int e)"
    using e(2) by (intro powr_mono) simp_all
  moreover have "(2::real) powr (of_int 128) = 2 ^ 128"
    using powr_realpow[of "2::real" 128] by simp
  ultimately have "2 ^ 128 \<le> \<bar>r\<bar>" by linarith
  then show ?thesis
    using x0 unfolding rnd32_def Let_def e_def[symmetric] q_def[symmetric] r_def[symmetric]
    by simp
qed









subsection \<open>Normalisation of the attention scores\<close>






lemma eps_value:
  "\<exists>e. eps = Fin e \<and> \<bar>e - 1 / 10 ^ 9\<bar> \<le> (1 / 10 ^ 9) / 2 ^ 24 + 1 / 2 ^ 150"
proof -
  have "\<bar>1 / 10 ^ 9 :: real\<bar> \<le> 2 ^ 127" by simp
  from rnd32_bound[OF this] show ?thesis
    unfolding eps_def by auto
qed


lemma mapM_all2: "mapM f xs = Inr ys \<Longrightarrow> list_all2 (\<lambda>x y. f x = Inr y) xs ys"
  by (induction xs arbitrary: ys) (auto split: sum.splits)

lemma broadcast_same:
  assumes "list_all2 (\<lambda>x y. f x y = Inr (g x y)) xs ys"
  shows "broadcast f xs ys = Inr (map2 g xs ys)"
proof -
  have l: "length xs = length ys" using assms by (rule list_all2_lengthD)
  have "mapM (\<lambda>(x, y). f x y) (zip xs ys) = Inr (map (\<lambda>(x, y). g x y) (zip xs ys))"
    using assms by (intro mapM_total) (auto simp: list_all2_iff)
  then show ?thesis using l by (simp add: broadcast_def)
qed

lemma broadcast3_same:
  assumes "list_all2 (list_all2 (\<lambda>r k. length r = length k)) a b"
  shows "broadcast3 f a b = Inr (map2 (map2 (map2 f)) a b)"
proof -
  have i: "broadcast (\<lambda>a b. Inr (f a b)) r k = Inr (map2 f r k)" if "length r = length k" for r k
    using that by (intro broadcast_same) (simp add: list_all2_conv_all_nth)
  have m: "broadcast (broadcast (\<lambda>a b. Inr (f a b))) rows ks = Inr (map2 (map2 f) rows ks)"
    if "list_all2 (\<lambda>r k. length r = length k) rows ks" for rows ks
    using that i by (intro broadcast_same) (simp add: list_all2_conv_all_nth)
  show ?thesis
    unfolding broadcast3_def using assms m by (intro broadcast_same) (simp add: list_all2_conv_all_nth)
qed

lemma shape3_all2:
  assumes "shape3 b t k x" "shape3 b t k y"
  shows "list_all2 (list_all2 (\<lambda>r s. length r = length s)) x y"
  using assms unfolding shape3_def
  by (auto simp: list_all2_conv_all_nth list_all_length)

lemma logits_shape:
  assumes A: "A = AttentionWithContext_init D rc W b u"
    and lg: "attention_logits ar A x = Inr ait"
    and x: "shape3 B T D x"
  shows "shape3 B T 1 ait"
proof -
  obtain uit where ui: "mapM (mapM (Linear32_forward ar (attn_W A))) x = Inr uit"
    and ai: "mapM (mapM (Linear32_forward ar (attn_u A))) (map (map (map (tanh32 ar))) uit)
             = Inr ait"
    using lg by (auto simp: attention_logits_def split: sum.splits)
  have l1: "length uit = length x" using mapM_length[OF ui] .
  have l2: "length ait = length x" using mapM_length[OF ai] l1 by simp
  have one: "length r = 1" if "Linear32_forward ar (attn_u A) v = Inr r" for v r
    using that by (auto simp: Linear32_forward_def A AttentionWithContext_init_def split: if_splits)
  have "length (ait ! i) = T \<and> list_all (\<lambda>r. length r = 1) (ait ! i)" if i: "i < length x" for i
  proof -
    have xi: "length (x ! i) = T" using x i by (simp add: shape3_def list_all_length)
    have u1: "mapM (Linear32_forward ar (attn_W A)) (x ! i) = Inr (uit ! i)"
      using mapM_all2[OF ui] i by (simp add: list_all2_conv_all_nth)
    have a1: "mapM (Linear32_forward ar (attn_u A)) (map (map (tanh32 ar)) (uit ! i))
                = Inr (ait ! i)"
      using mapM_all2[OF ai] i l1 by (simp add: list_all2_conv_all_nth)
    have "length (ait ! i) = T" using mapM_length[OF a1] mapM_length[OF u1] xi by simp
    moreover have "list_all (\<lambda>r. length r = 1) (ait ! i)"
      using mapM_all2[OF a1] one by (auto simp: list_all2_conv_all_nth list_all_length)
    ultimately show ?thesis by simp
  qed
  then show ?thesis using l2 x by (simp add: shape3_def list_all_length)
qed

lemma shape3_map3: "shape3 b t k x \<Longrightarrow> shape3 b t k (map (map (map f)) x)"
  by (simp add: shape3_def list_all_iff)

lemma scores_form:
  assumes A: "A = AttentionWithContext_init D rc W b u"
    and x: "shape3 B T D x" and m: "shape3 B T 1 m"
    and sc: "attention_scores ar A x (Some m) = Inr a0"
  shows "\<exists>ait. attention_logits ar A x = Inr ait \<and> shape3 B T 1 ait \<and>
           a0 = map2 (map2 (map2 fmul)) (map (map (map (exp32 ar))) ait)
                  (map (map (map (\<lambda>k. rnd32 (real_of_int k)))) m)"
proof -
  obtain ait where lg: "attention_logits ar A x = Inr ait"
    and am: "apply_mask (map (map (map (exp32 ar))) ait) (Some m) = Inr a0"
    using sc by (auto simp: attention_scores_def split: sum.splits)
  note sh = logits_shape[OF A lg x]
  have "list_all2 (list_all2 (\<lambda>r k. length r = length k))
          (map (map (map (exp32 ar))) ait) (map (map (map (\<lambda>k. rnd32 (real_of_int k)))) m)"
    by (intro shape3_all2[of B T 1] shape3_map3 sh m)
  from broadcast3_same[OF this, of fmul] am
  have "a0 = map2 (map2 (map2 fmul)) (map (map (map (exp32 ar))) ait)
                  (map (map (map (\<lambda>k. rnd32 (real_of_int k)))) m)"
    by (simp add: apply_mask_def)
  with lg sh show ?thesis by blast
qed



lemma concat_singletons: "concat (map (\<lambda>v. [f v]) vs) = map f vs"
  by (induction vs) simp_all

lemma fval_Fin: "map fval (map Fin vs) = vs"
  by (induction vs) (simp_all add: fval_def)



subsection \<open>Concrete attention modules\<close>





lemma exp_1_ge_2: "2 \<le> exp (1::real)"
  using exp_ge_add_one_self[of "1::real"] by simp

lemma exp_ge_power: "2 ^ n \<le> exp (real n)"
proof -
  have "exp (real n) = exp 1 ^ n"
    using exp_of_nat_mult[of n "1::real"] by simp
  moreover have "(2::real) ^ n \<le> exp 1 ^ n"
    using exp_1_ge_2 by (intro power_mono) simp_all
  ultimately show ?thesis by simp
qed

lemma tanh_1_bounds: "3 / 5 \<le> tanh (1::real)" "tanh (1::real) \<le> 1"
proof -
  have "4 \<le> exp (real 2)" using exp_ge_power[of 2] by simp
  then have "4 \<le> exp (2 :: real)" by simp
  then have "inverse (exp (2 :: real)) \<le> inverse 4"
    by (intro le_imp_inverse_le) simp_all
  then have t: "exp (- 2 :: real) \<le> 1 / 4"
    by (simp add: exp_minus)
  have p: "0 < exp (- 2 :: real)" by simp
  have "tanh (1::real) = (1 - exp (- 2)) / (1 + exp (- 2))"
    by (simp add: tanh_real_altdef)
  also have "\<dots> \<ge> 3 / 5"
  proof -
    have "0 < 1 + exp (- 2 :: real)" using p by linarith
    then show ?thesis using t by (simp add: pos_le_divide_eq)
  qed
  finally show "3 / 5 \<le> tanh (1::real)" .
  show "tanh (1::real) \<le> 1" using tanh_real_lt_1[of 1] by simp
qed

lemma tanh_1_rounded: "\<exists>t. rnd32 (tanh 1) = Fin t \<and> 59 / 100 \<le> t \<and> t \<le> 101 / 100"
proof -
  define y :: real where "y = tanh 1"
  have y: "3 / 5 \<le> y" "y \<le> 1" using tanh_1_bounds by (simp_all add: y_def)
  then have "\<bar>y\<bar> \<le> 2 ^ 127" by simp
  from rnd32_bound[OF this] obtain t where t: "rnd32 y = Fin t"
    "\<bar>t - y\<bar> \<le> \<bar>y\<bar> / 2 ^ 24 + 1 / 2 ^ 150" by blast
  have "\<bar>y\<bar> / 2 ^ 24 + 1 / 2 ^ 150 \<le> 1 / 100" using y by simp
  then have "59 / 100 \<le> t \<and> t \<le> 101 / 100" using t(2) y by linarith
  then show ?thesis using t(1) unfolding y_def by blast
qed

lemma two_roundings:
  assumes "\<bar>y\<bar> \<le> 1010"
  shows "\<exists>p p'. rnd32 y = Fin p \<and> rnd32 p = Fin p' \<and> \<bar>p' - y\<bar> \<le> 1 / 1000"
proof -
  have "\<bar>y\<bar> \<le> 2 ^ 127" using assms by simp
  from rnd32_bound[OF this] obtain p where p: "rnd32 y = Fin p"
    "\<bar>p - y\<bar> \<le> \<bar>y\<bar> / 2 ^ 24 + 1 / 2 ^ 150" by blast
  have b1: "\<bar>y\<bar> / 2 ^ 24 + 1 / 2 ^ 150 \<le> 1 / 10000" using assms by simp
  then have py: "\<bar>p - y\<bar> \<le> 1 / 10000" using p(2) by linarith
  then have pb: "\<bar>p\<bar> \<le> 1011" using assms by linarith
  then have "\<bar>p\<bar> \<le> 2 ^ 127" by simp
  from rnd32_bound[OF this] obtain p' where p': "rnd32 p = Fin p'"
    "\<bar>p' - p\<bar> \<le> \<bar>p\<bar> / 2 ^ 24 + 1 / 2 ^ 150" by blast
  have "\<bar>p\<bar> / 2 ^ 24 + 1 / 2 ^ 150 \<le> 1 / 10000" using pb by simp
  then have "\<bar>p' - p\<bar> \<le> 1 / 10000" using p'(2) by linarith
  then have "\<bar>p' - y\<bar> \<le> 1 / 1000" using py by linarith
  then show ?thesis using p(1) p'(1) by blast
qed

lemma example_logit:
  assumes c: "\<bar>c\<bar> \<le> 1000"
  shows "\<exists>t p. attention_logits ieee32 (AttentionWithContext_init 1 True [[Fin 1]] [Fin 0] [Fin c])
                 [[[Fin 1]]] = Inr [[[Fin p]]] \<and>
              59 / 100 \<le> t \<and> t \<le> 101 / 100 \<and> \<bar>p - c * t\<bar> \<le> 1 / 1000"
proof -
  obtain t where t: "rnd32 (tanh 1) = Fin t" "59 / 100 \<le> t" "t \<le> 101 / 100"
    using tanh_1_rounded by blast
  have "\<bar>c * t\<bar> \<le> 1000 * (101 / 100)"
    unfolding abs_mult using c t by (intro mult_mono) simp_all
  then have "\<bar>c * t\<bar> \<le> 1010" by simp
  from two_roundings[OF this] obtain p p' where p: "rnd32 (c * t) = Fin p" "rnd32 p = Fin p'"
    "\<bar>p' - c * t\<bar> \<le> 1 / 1000" by blast
  have "attention_logits ieee32 (AttentionWithContext_init 1 True [[Fin 1]] [Fin 0] [Fin c])
          [[[Fin 1]]] = Inr [[[Fin p']]]"
    by (simp add: attention_logits_def Linear32_forward_def AttentionWithContext_init_def
        ieee32_def ieee_lin_def ieee_sum_def ieee_tanh_def rnd32_zero rnd32_one t(1) p(1,2))
  then show ?thesis using t(2,3) p(3) by blast
qed

lemma example_overflow_scores:
  "attention_scores ieee32 (AttentionWithContext_init 1 True [[Fin 1]] [Fin 0] [Fin 300])
     [[[Fin 1]]] (Some [[[0]]]) = Inr [[[NaN]]]"
proof -
  obtain t p where lg: "attention_logits ieee32
        (AttentionWithContext_init 1 True [[Fin 1]] [Fin 0] [Fin 300]) [[[Fin 1]]] = Inr [[[Fin p]]]"
    and t: "59 / 100 \<le> t" and p: "\<bar>p - 300 * t\<bar> \<le> 1 / 1000"
    using example_logit[of 300] by auto
  have "176 \<le> p" using t p by linarith
  then have "exp (real 176) \<le> exp p" by simp
  then have "2 ^ 176 \<le> exp p" using exp_ge_power[of 176] by linarith
  moreover have "(2::real) ^ 128 \<le> 2 ^ 176" by simp
  ultimately have "2 ^ 128 \<le> exp p" by linarith
  then have e: "rnd32 (exp p) = PInf" by (rule rnd32_overflow)
  show ?thesis
    unfolding attention_scores_def lg
    by (simp add: apply_mask_def broadcast3_def broadcast_def ieee32_def ieee_exp_def e rnd32_zero)
qed

lemma example_overflow_value:
  "AttentionWithContext_forward ieee32 (AttentionWithContext_init 1 True [[Fin 1]] [Fin 0] [Fin 300])
     [[[Fin 1]]] (Some [[[0]]])
   = Inr ([[NaN]], Some [[[NaN]]])"
proof -
  have n: "normalise ieee32 [[NaN]] = [[NaN]]"
    by (simp add: normalise_def sum_steps_def width_def Let_def ieee32_def ieee_sum_def)
  have b: "broadcast3 fmul [[[NaN]]] [[[Fin 1]]] = Inr [[[NaN]]]"
    by (simp add: broadcast3_def broadcast_def)
  have w: "sum_steps ieee32 (width 1 [[NaN]]) [[NaN]] = [NaN]"
    by (simp add: sum_steps_def width_def ieee32_def ieee_sum_def)
  have i: "in_features32 (attn_W (AttentionWithContext_init 1 True [[Fin 1]] [Fin 0] [Fin 300])) = 1"
    "return_coefficients (AttentionWithContext_init 1 True [[Fin 1]] [Fin 0] [Fin 300])"
    by (simp_all add: AttentionWithContext_init_def)
  show ?thesis
    unfolding AttentionWithContext_forward_def example_overflow_scores Let_def
    by (simp only: sum.case n b w i list.map if_True)
qed




subsection \<open>All steps masked\<close>

lemma masked_sample_zero:
  assumes l: "length er = length mr"
    and er: "list_all (\<lambda>r. length r = 1) er" and mr: "list_all (\<lambda>r. length r = 1) mr"
    and mz: "list_all (list_all (\<lambda>k. k = 0)) mr"
    and fin: "list_all (list_all is_fin)
                (map2 (map2 fmul) (map (map (exp32 ar)) er)
                   (map (map (\<lambda>k. rnd32 (real_of_int k))) mr))"
  shows "map2 (map2 fmul) (map (map (exp32 ar)) er)
           (map (map (\<lambda>k. rnd32 (real_of_int k))) mr) = replicate (length er) [Fin 0]"
  using l er mr mz fin
proof (induction er mr rule: list_induct2)
  case Nil
  then show ?case by simp
next
  case (Cons e er k mr)
  obtain s where e: "e = [s]" using Cons.prems(1) by (cases e) simp_all
  have k: "k = [0]" using Cons.prems(2,3) by (cases k) simp_all
  have f: "is_fin (fmul (exp32 ar s) (Fin 0))" using Cons.prems(4) e k by (simp add: rnd32_zero)
  have "fmul (exp32 ar s) (Fin 0) = Fin 0"
    using f by (cases "exp32 ar s") (simp_all add: is_fin_def rnd32_zero)
  then show ?case using Cons e k by (simp add: rnd32_zero)
qed

lemma zero_plus_eps: "\<exists>d. fadd (Fin 0) eps = Fin d \<and> d \<noteq> 0"
proof -
  obtain e where e: "eps = Fin e" "\<bar>e - 1 / 10 ^ 9\<bar> \<le> (1 / 10 ^ 9) / 2 ^ 24 + 1 / 2 ^ 150"
    using eps_value by blast
  have "1 / 10 ^ 9 - ((1 / 10 ^ 9) / 2 ^ 24 + 1 / 2 ^ 150) \<ge> (1 / 10 ^ 10 :: real)" by simp
  then have e0: "1 / 10 ^ 10 \<le> e" using e(2) by linarith
  have "1 / 10 ^ 9 + ((1 / 10 ^ 9) / 2 ^ 24 + 1 / 2 ^ 150) \<le> (1 :: real)" by simp
  then have e1: "e \<le> 1" using e(2) by linarith
  have "\<bar>e\<bar> \<le> 2 ^ 127" using e0 e1 by simp
  from rnd32_bound[OF this] obtain d where d: "rnd32 e = Fin d"
    "\<bar>d - e\<bar> \<le> \<bar>e\<bar> / 2 ^ 24 + 1 / 2 ^ 150" by blast
  have e2: "0 < e" using e0 by (rule less_le_trans[rotated]) simp
  have "\<bar>e\<bar> / 2 ^ 24 \<le> e / 4" using e2 by simp
  moreover have "(1 / 2 ^ 150 :: real) < 1 / 10 ^ 10 / 4" by simp
  then have "(1 / 2 ^ 150 :: real) < e / 4" using e0 by simp
  ultimately have "0 < d" using d(2) e2 by linarith
  then have d0: "d \<noteq> 0" by simp
  have "fadd (Fin 0) eps = Fin d" unfolding e(1) by (simp add: d(1))
  then show ?thesis using d0 by blast
qed

lemma normalise_zeros:
  assumes ar: "float32 ar"
  shows "normalise ar (replicate n [Fin 0]) = replicate n [Fin 0]"
proof -
  obtain d where d: "fadd (Fin 0) eps = Fin d" "d \<noteq> 0" using zero_plus_eps by blast
  have z: "sum32 ar (replicate n (Fin 0)) = Fin 0" using ar unfolding float32_def by blast
  have w: "width 1 (replicate n [Fin 0 :: fl]) = 1" by (cases n) (simp_all add: width_def)
  have s: "sum_steps ar 1 (replicate n [Fin 0]) = [Fin 0]"
    by (simp add: sum_steps_def z)
  show ?thesis
    unfolding normalise_def Let_def w s using d by (simp add: rnd32_zero)
qed

lemma broadcast_one: "broadcast f [a] ys = mapM (f a) ys"
proof (cases "length ys = 1")
  case True
  then obtain y where "ys = [y]" by (cases ys) simp_all
  then show ?thesis by (simp add: broadcast_def split: sum.splits)
next
  case False
  then show ?thesis by (auto simp: broadcast_def)
qed

lemma zero_times_row:
  assumes "list_all is_fin row"
  shows "broadcast (\<lambda>a b. Inr (fmul a b)) [Fin 0] row = Inr (replicate (length row) (Fin 0))"
proof -
  have "fmul (Fin 0) v = Fin 0" if "v \<in> set row" for v
    using assms that by (cases v) (auto simp: list_all_iff is_fin_def rnd32_zero)
  then have "mapM (\<lambda>b. Inr (fmul (Fin 0) b)) row = Inr (map (\<lambda>_. Fin 0) row)"
    by (intro mapM_total) simp
  then show ?thesis by (simp add: broadcast_one map_replicate_const)
qed

lemma map2_const:
  "length xs = length ys \<Longrightarrow> map2 (\<lambda>a b. c) xs ys = replicate (length xs) c"
  by (induction xs ys rule: list_induct2) simp_all

lemma zero_times_sample:
  assumes l: "length xi = n" and d: "list_all (\<lambda>r. length r = k) xi"
    and f: "list_all (list_all is_fin) xi"
  shows "broadcast (broadcast (\<lambda>a b. Inr (fmul a b))) (replicate n [Fin 0]) xi
           = Inr (replicate n (replicate k (Fin 0)))"
proof -
  have "list_all2 (\<lambda>a r. broadcast (\<lambda>a b. Inr (fmul a b)) a r = Inr (replicate k (Fin 0)))
          (replicate n [Fin 0]) xi"
    using l d f zero_times_row
    by (auto simp: list_all2_conv_all_nth list_all_length)
  from broadcast_same[OF this] show ?thesis
    using l by (simp only: map2_const length_replicate)
qed

lemma sum_steps_zeros:
  assumes ar: "float32 ar"
  shows "sum_steps ar k (replicate n (replicate k (Fin 0))) = replicate k (Fin 0)"
proof -
  have z: "sum32 ar (replicate n (Fin 0)) = Fin 0" using ar unfolding float32_def by blast
  have "map (\<lambda>j. sum32 ar (map (\<lambda>r. r ! j) (replicate n (replicate k (Fin 0))))) [0..<k]
      = map (\<lambda>j. Fin 0) [0..<k]"
    by (intro map_cong) (simp_all add: z)
  then show ?thesis by (simp add: sum_steps_def map_replicate_const)
qed

lemma attention_all_masked:
  assumes ar: "float32 ar"
    and A: "A = AttentionWithContext_init D rc W b u"
    and x: "shape3 B T D x" and m: "shape3 B T 1 m"
    and mz: "list_all (list_all (list_all (\<lambda>k. k = 0))) m"
    and xf: "list_all (list_all (list_all is_fin)) x"
    and sc: "attention_scores ar A x (Some m) = Inr a0"
    and fin: "list_all (list_all (list_all is_fin)) a0"
  shows "AttentionWithContext_forward ar A x (Some m)
         = Inr (replicate B (replicate D (Fin 0)),
                if rc then Some (replicate B (replicate T [Fin 0])) else None)"
proof -
  obtain ait where lg: "shape3 B T 1 ait"
    and a0: "a0 = map2 (map2 (map2 fmul)) (map (map (map (exp32 ar))) ait)
                  (map (map (map (\<lambda>k. rnd32 (real_of_int k)))) m)"
    using scores_form[OF A x m sc] by blast
  have lB: "length ait = B" "length m = B" "length x = B" using lg m x by (simp_all add: shape3_def)
  have la: "length a0 = B" unfolding a0 using lB by simp
  have row: "a0 ! i = replicate T [Fin 0]" if i: "i < B" for i
  proof -
    have r: "a0 ! i = map2 (map2 fmul) (map (map (exp32 ar)) (ait ! i))
                        (map (map (\<lambda>k. rnd32 (real_of_int k))) (m ! i))"
      unfolding a0 using i lB by simp
    have s: "length (ait ! i) = T" "list_all (\<lambda>r. length r = 1) (ait ! i)"
      "length (m ! i) = T" "list_all (\<lambda>r. length r = 1) (m ! i)"
      "list_all (list_all (\<lambda>k. k = 0)) (m ! i)"
      using i lg m mz lB by (simp_all add: shape3_def list_all_length)
    have f: "list_all (list_all is_fin) (a0 ! i)" using fin i la by (simp add: list_all_length)
    show ?thesis
      unfolding r using masked_sample_zero[OF _ s(2) s(4) s(5) f[unfolded r]] s(1,3) by simp
  qed
  have a0z: "a0 = replicate B (replicate T [Fin 0])"
    using la row by (intro nth_equalityI) simp_all
  have n: "map (normalise ar) a0 = replicate B (replicate T [Fin 0])"
    unfolding a0z by (simp add: normalise_zeros[OF ar])
  have bcx: "broadcast3 fmul (replicate B (replicate T [Fin 0])) x
      = Inr (replicate B (replicate T (replicate D (Fin 0))))"
  proof -
    have "list_all2 (\<lambda>a xi. broadcast (broadcast (\<lambda>a b. Inr (fmul a b))) a xi
                       = Inr (replicate T (replicate D (Fin 0))))
            (replicate B (replicate T [Fin 0])) x"
      using x xf lB zero_times_sample[of _ T D]
      by (auto simp: list_all2_conv_all_nth list_all_length shape3_def)
    from broadcast_same[OF this] show ?thesis
      unfolding broadcast3_def using lB by (simp only: map2_const length_replicate)
  qed
  have wd: "width D (replicate T (replicate D (Fin 0 :: fl))) = D"
    by (cases T) (simp_all add: width_def)
  have iD: "in_features32 (attn_W A) = D" "return_coefficients A = rc"
    by (simp_all add: A AttentionWithContext_init_def)
  show ?thesis
    by (simp add: AttentionWithContext_forward_def sc Let_def n bcx iD wd sum_steps_zeros[OF ar])
qed

section \<open>Properties\<close>

text \<open>
  C4. When both modalities are absent (the corpus input is None or \<open>corpus_emb_dim\<close> is 0,
  and the nontextual input is None or \<open>nontext_dim\<close> is 0), the forward call of the
  classification head raises the ValueError instead of returning a value.
\<close>

theorem head_forward_both_absent_raises:
  assumes "x_corpus = None \<or> head_corpus_emb_dim H = 0"
    and "x_nontext = None \<or> head_nontext_dim H = 0"
  shows "ClassificationHead_forward H x_corpus x_nontext = Inl ValueError"
  using assms by (simp add: ClassificationHead_forward_def head_input_def)

theorem head_forward_both_absent_raises_witness:
  "(Some [[1 :: real]] = None \<or>
      head_corpus_emb_dim (ClassificationHead_init 0 19 example_mlp example_attention []) = 0)
   \<and> ClassificationHead_forward
        (ClassificationHead_init 0 19 example_mlp example_attention []) (Some [[1]]) None
      = Inl ValueError"
  using head_forward_both_absent_raises
    [of "Some [[1]]" "ClassificationHead_init 0 19 example_mlp example_attention []" None]
  by (simp add: ClassificationHead_init_def)

text \<open>
  C10. The forward call of the model_03 corpus encoder fails for every input when the
  attention mask is None, although None is the declared default: the mask is reshaped
  before the document encoder is reached.
\<close>

theorem corpus_encoder03_mask_none_fails:
  "\<exists>e. CorpusEncoder03_forward E x None = Inl e"
  by (simp add: CorpusEncoder03_forward_def Let_def split: sum.split)

text \<open>
  C9. With both modalities present, the classification head projects the corpus embedding
  by the linear map \<open>proj\<close>, which has no bias term, to vectors of width \<open>nontext_dim\<close>,
  hands the projection to the vector attention as the query over the nontextual
  sequence, and returns the flattened output of the MLP: one scalar per sample, given
  that the attention and the MLP keep the contracts the spec states for them.
\<close>

theorem head_forward_both_present:
  assumes H: "H = ClassificationHead_init cd nd mlp_fn va_fn Wp"
    and dims: "cd \<noteq> 0" "nd \<noteq> 0"
    and Wp: "length Wp = nd"
    and va: "va_contract nd va_fn"
    and mlp: "mlp_contract nd mlp_fn"
    and xc: "list_all (\<lambda>r. length r = cd) xc"
    and xn: "length xn = length xc" "list_all (list_all (\<lambda>h. length h = nd)) xn"
  shows "\<exists>x out. mapM (Linear_forward (proj H)) xc = Inr (map (\<lambda>r. map (\<lambda>w. dot w r) Wp) xc)
           \<and> list_all (\<lambda>q. length q = nd) (map (\<lambda>r. map (\<lambda>w. dot w r) Wp) xc)
           \<and> va_fn xn (map (\<lambda>r. map (\<lambda>w. dot w r) Wp) xc) = Inr x
           \<and> mlp_fn (map Vec x) = Inr (map Vec out)
           \<and> ClassificationHead_forward H (Some xc) (Some xn) = Inr (concat out)
           \<and> length (concat out) = length xc"
proof -
  let ?q = "map (\<lambda>r. map (\<lambda>w. dot w r) Wp) xc"
  have p: "mapM (Linear_forward (proj H)) xc = Inr ?q"
    using xc by (intro mapM_total)
      (simp add: H ClassificationHead_init_def Linear_forward_def list_all_iff)
  have qw: "list_all (\<lambda>q. length q = nd) ?q"
    using Wp by (simp add: list_all_iff)
  obtain x where x: "va_fn xn ?q = Inr x" "length x = length ?q" "list_all (\<lambda>v. length v = nd) x"
    using va xn qw unfolding va_contract_def by (metis length_map)
  obtain out where o: "mlp_fn (map Vec x) = Inr (map Vec out)" "length out = length x"
      "list_all (\<lambda>v. length v = 1) out"
    using mlp x(3) unfolding mlp_contract_def by blast
  have f: "ClassificationHead_forward H (Some xc) (Some xn) = Inr (concat out)"
    using dims p by (simp add: ClassificationHead_forward_def head_input_def)
      (simp add: H ClassificationHead_init_def x(1) o(1) view_flat_Vec)
  have "length (concat out) = length xc"
    using length_concat_singletons[OF o(3)] o(2) x(2) by simp
  with p qw x(1) o(1) f show ?thesis by blast
qed

theorem head_forward_both_present_witness:
  "mapM (Linear_forward (proj (ClassificationHead_init 2 3 example_mlp example_attention
           [[1, 0], [0, 1], [1, 1]]))) [[5, 7]] = Inr [[5, 7, 12]]
   \<and> example_attention [[[1, 2, 3], [10, 20, 30]]] [[5, 7, 12]] = Inr [[16, 29, 45]]
   \<and> example_mlp (map Vec [[16, 29, 45]]) = Inr (map Vec [[90]])
   \<and> ClassificationHead_forward
        (ClassificationHead_init 2 3 example_mlp example_attention [[1, 0], [0, 1], [1, 1]])
        (Some [[5, 7]]) (Some [[[1, 2, 3], [10, 20, 30]]]) = Inr [90]"
  using head_forward_both_present
    [OF refl, of 2 3 "[[1, 0], [0, 1], [1, 1]]" example_attention example_mlp
        "[[5, 7]]" "[[[1, 2, 3], [10, 20, 30]]]"]
    example_attention_contract[of 3] example_mlp_contract[of 3]
  by (auto simp add: dot_def example_attention_def example_mlp_def)




text \<open>
  C8, as the code has it. For input vectors of length exactly 19, the nontextual network
  takes the first 10 entries as the time series, embeds the remaining 9 entries linearly
  to \<open>input_channels - 1\<close> values, repeats each embedded value over the 10 time steps,
  appends the series as the last channel, which gives \<open>input_channels\<close> channels of 10
  steps, and returns what the convolutional extractor returns on that tensor: 10 steps of
  width \<open>output_dim\<close> for every sample, given the contract of the extractor.
\<close>

theorem nontextual_forward_len19:
  assumes N: "NontextualNetwork_init in_dim c d n Wc bc cnn_fn = Inr N"
    and W: "length Wc = c - 1" "length bc = c - 1"
    and cnn: "cnn_contract c d cnn_fn"
    and x: "list_all (\<lambda>r. length r = 19) x"
  shows "nn_stack N x =
           Inr (map (\<lambda>r. map2 (\<lambda>w b. replicate 10 (dot w (drop 10 r) + b)) Wc bc @ [take 10 r]) x)
       \<and> list_all (\<lambda>s. length s = c \<and> list_all (\<lambda>ch. length ch = 10) s)
           (map (\<lambda>r. map2 (\<lambda>w b. replicate 10 (dot w (drop 10 r) + b)) Wc bc @ [take 10 r]) x)
       \<and> (\<exists>y. NontextualNetwork_forward N (Some x) = Inr y \<and>
              cnn_fn (map (\<lambda>r. map2 (\<lambda>w b. replicate 10 (dot w (drop 10 r) + b)) Wc bc
                               @ [take 10 r]) x) = Inr y \<and>
              length y = length x \<and>
              list_all (\<lambda>s. length s = 10 \<and> list_all (\<lambda>h. length h = d) s) y)"
proof -
  let ?st = "map (\<lambda>r. map2 (\<lambda>w b. replicate 10 (dot w (drop 10 r) + b)) Wc bc @ [take 10 r]) x"
  have c: "c \<noteq> 0" and Nd: "category_embedding N = \<lparr>in_features = 9, out_features = c - 1,
      weight = Wc, bias = Some bc\<rparr>" "cnn N = cnn_fn"
    using N by (auto simp: NontextualNetwork_init_def split: if_splits)
  have emb: "mapM (Linear_forward (category_embedding N)) (map (drop 10) x)
      = Inr (map (\<lambda>r. map2 (\<lambda>w b. dot w (drop 10 r) + b) Wc bc) x)"
  proof -
    have "mapM (Linear_forward (category_embedding N)) (map (drop 10) x)
      = Inr (map (\<lambda>v. map2 (\<lambda>w b. dot w v + b) Wc bc) (map (drop 10) x))"
      using x by (intro mapM_total) (auto simp: Linear_forward_def Nd list_all_iff)
    then show ?thesis by (simp add: comp_def)
  qed
  have st: "nn_stack N x = Inr ?st"
  proof (cases "x = []")
    case True
    then show ?thesis by (simp add: nn_stack_def Nd Linear_forward_def)
  next
    case False
    show ?thesis
      unfolding nn_stack_def Let_def emb
      by (simp add: size1_take10[OF x False] stack_rows)
  qed
  have sh: "list_all (\<lambda>s. length s = c \<and> list_all (\<lambda>ch. length ch = 10) s) ?st"
    using x W c by (auto simp: list_all_iff set_zip)
  obtain y where y: "cnn_fn ?st = Inr y" "length y = length ?st"
      "list_all (\<lambda>s. length s = 10 \<and> list_all (\<lambda>h. length h = d) s) y"
    using cnn sh unfolding cnn_contract_def by blast
  have "NontextualNetwork_forward N (Some x) = Inr y"
    by (simp add: NontextualNetwork_forward_def st Nd y(1))
  with st sh y show ?thesis by simp
qed

theorem nontextual_forward_len19_witness:
  "nn_stack example_nontext [[1, 2, 3, 4, 5, 6, 7, 8, 9, 10, 0, 0, 1, 0, 0, 0, 0, 0, 0]]
     = Inr [[[1, 1, 1, 1, 1, 1, 1, 1, 1, 1], [1, 2, 3, 4, 5, 6, 7, 8, 9, 10]]]
   \<and> NontextualNetwork_forward example_nontext
       (Some [[1, 2, 3, 4, 5, 6, 7, 8, 9, 10, 0, 0, 1, 0, 0, 0, 0, 0, 0]])
     = Inr [[[1, 1], [1, 2], [1, 3], [1, 4], [1, 5], [1, 6], [1, 7], [1, 8], [1, 9], [1, 10]]]"
  using nontextual_forward_len19
    [OF example_nontext_init, of "[[1, 2, 3, 4, 5, 6, 7, 8, 9, 10, 0, 0, 1, 0, 0, 0, 0, 0, 0]]"]
    example_cnn_contract[of 2]
  by (simp add: dot_def example_nontext_forward numeral_eq_Suc)

text \<open>
  The claim C8 as stated admits every length from 19 on; the category embedding is built
  for exactly 9 entries, and a vector of length 20 is rejected.
\<close>

theorem nontextual_len20_counterexample:
  "NontextualNetwork_init 19 2 2 1 [[1, 1, 1, 1, 1, 1, 1, 1, 1]] [0] example_cnn
     = Inr example_nontext
   \<and> length [1, 2, 3, 4, 5, 6, 7, 8, 9, 10, 0, 0, 1, 0, 0, 0, 0, 0, 0, 0 :: real] = 20
   \<and> NontextualNetwork_forward example_nontext
       (Some [[1, 2, 3, 4, 5, 6, 7, 8, 9, 10, 0, 0, 1, 0, 0, 0, 0, 0, 0, 0]]) = Inl RuntimeError"
  by (simp add: NontextualNetwork_init_def example_nontext_def NontextualNetwork_forward_def
      nn_stack_def Linear_forward_def)

text \<open>
  C7. For every batch of at least one sample and every document count \<open>m \<ge> 1\<close> (documents
  of \<open>t \<ge> 1\<close> tokens, a mask of the same shape, on which the transformer returns), the
  single-source corpus encoder of model_03 returns a tensor of shape (batch, 32), and 32
  is the \<open>corpus_emb_dim\<close> fixed by the constructor. The \<open>b * m\<close> document encodings \<open>d\<close>
  are grouped per sample and reduced over the document axis by the entrywise maximum:
  entry \<open>k\<close> of the pooled row of sample \<open>i\<close> is the greatest of the entries \<open>k\<close> of the
  encodings \<open>d ! (i * m + j)\<close>, \<open>j < m\<close>, of its documents. The pooled rows, of width 768
  whatever \<open>m\<close> is, are projected by \<open>W\<close>, so the width of the output does not depend on
  \<open>m\<close>.
\<close>

theorem corpus_encoder03_output_shape:
  assumes E: "E = CorpusEncoder03_init enc_fn dropout_fn Ww Wb"
    and W: "length Ww = 32" "length Wb = 32"
    and enc: "text_encoder_contract enc_fn"
    and ret: "enc_fn (concat x) (Some (concat amask)) = Inr h"
    and dr: "dropout_contract dropout_fn"
    and x: "shape3 b m t x" and am: "shape3 b m t amask"
    and pos: "b \<noteq> 0" "m \<noteq> 0" "t \<noteq> 0"
  shows "\<exists>d pooled out.
           DocumentEncoder_forward (doc_encoder E) (concat x) (Some (concat amask)) = Inr d
         \<and> length d = b * m
         \<and> mapM max_docs (chunks b m d) = Inr pooled
         \<and> (\<forall>i<b. \<forall>k<768. pooled ! i ! k = Max ((\<lambda>j. d ! (i * m + j) ! k) ` {..<m}))
         \<and> mapM (Linear_forward (ce03_W E)) pooled = Inr out
         \<and> CorpusEncoder03_forward E x (Some amask) = Inr out
         \<and> length out = b \<and> list_all (\<lambda>r. length r = 32) out
         \<and> ce03_corpus_emb_dim E = 32"
proof -
  obtain d pooled out where r:
    "DocumentEncoder_forward (doc_encoder E) (concat x) (Some (concat amask)) = Inr d"
    "mapM max_docs (chunks b m d) = Inr pooled"
    "mapM (Linear_forward (ce03_W E)) pooled = Inr out"
    "CorpusEncoder03_forward E x (Some amask) = Inr out"
    "length out = b" "list_all (\<lambda>r. length r = 32) out" "ce03_corpus_emb_dim E = 32"
    using ce03_forward_steps[OF assms] by blast
  have De: "doc_encoder E = \<lparr>text_encoder = enc_fn, dropout = dropout_fn\<rparr>"
    by (simp add: E CorpusEncoder03_init_def)
  note sh = ce03_docs_shape[OF enc ret dr x pos(3) r(1)[unfolded De]]
  have "\<forall>i<b. \<forall>k<768. pooled ! i ! k = Max ((\<lambda>j. d ! (i * m + j) ! k) ` {..<m})"
    using pooled_Max[OF sh r(2)] by blast
  with r sh(1) show ?thesis by blast
qed

theorem corpus_encoder03_output_shape_witness:
  "shape3 1 2 2 [[[5, 6], [3, 4 :: int]]]
   \<and> CorpusEncoder03_forward example_encoder [[[5, 6], [3, 4]]] (Some [[[1, 1], [1, 1]]])
       = Inr [replicate 32 5]
   \<and> list_all (\<lambda>r. length r = 32) [replicate 32 (5 :: real)]
   \<and> ce03_corpus_emb_dim example_encoder = 32"
proof -
  have sh: "shape3 1 2 2 [[[5, 6], [3, 4 :: int]]]" "shape3 1 2 2 [[[1, 1], [1, 1 :: int]]]"
    by (simp_all add: shape3_def)
  have W: "length (replicate 32 (1 # replicate 767 (0::real))) = 32"
    "length (replicate 32 (0::real)) = 32"
    by simp_all
  have v: "CorpusEncoder03_forward example_encoder [[[5, 6], [3, 4]]] (Some [[[1, 1], [1, 1]]])
      = Inr [replicate 32 5]"
    using example_ce03_value[of 1 0 5 6 3 4 1 1 1 1] by (simp add: example_encoder_def)
  show ?thesis
    using corpus_encoder03_output_shape
      [OF example_encoder_def W example_text_encoder_contract example_text_encoder_def
          eval_dropout_contract sh]
      v sh(1)
    by auto
qed

text \<open>
  C6, as the code has it. The dual corpus encoder built with method \<open>'model_03'\<close> and
  \<open>separate=True\<close> declares \<open>corpus_emb_dim\<close> as twice the dimension of the single
  encoder, 64. Its forward call returns, row by row, the embedding of the ECB encoder
  for the first tuple element followed by the embedding of the FED encoder for the
  second one, and propagates the error of either encoder. Swapping the two inputs
  changes the result exactly when one of the encoders embeds the two inputs
  differently.
\<close>

theorem dual_encoder_concat:
  assumes C: "C = CorpusEncoder_init e_ecb e_fed (Some ''model_03'') True"
    and e: "e_ecb = CorpusEncoder03_init enc1 drop1 W1 b1"
  shows "ce_corpus_emb_dim C = Val (2 * ce03_corpus_emb_dim e_ecb)
       \<and> ce_corpus_emb_dim C = Val 64
       \<and> CorpusEncoder_forward C [x0, x1] [m0, m1] =
           (case CorpusEncoder03_forward e_ecb x0 m0 of
              Inl err \<Rightarrow> Inl err
            | Inr a \<Rightarrow>
                (case CorpusEncoder03_forward e_fed x1 m1 of
                   Inl err \<Rightarrow> Inl err
                 | Inr b \<Rightarrow> if length a = length b then Inr (Some (map2 (@) a b))
                            else Inl RuntimeError))
       \<and> (\<forall>a b a' b'.
             CorpusEncoder03_forward e_ecb x0 m0 = Inr a \<and>
             CorpusEncoder03_forward e_fed x1 m1 = Inr b \<and>
             CorpusEncoder03_forward e_ecb x1 m1 = Inr a' \<and>
             CorpusEncoder03_forward e_fed x0 m0 = Inr b' \<and>
             list_all2 (\<lambda>u v. length u = length v) a a' \<and>
             length b = length a \<and> length b' = length a \<longrightarrow>
             (CorpusEncoder_forward C [x1, x0] [m1, m0] = CorpusEncoder_forward C [x0, x1] [m0, m1]
                \<longleftrightarrow> a' = a \<and> b' = b))"
proof -
  have Cd: "ce_method C = Some ''model_03''" "ce_separate C" "encoder_ecb C = Val e_ecb"
    "encoder_fed C = Val e_fed" "ce_corpus_emb_dim C = Val (2 * ce03_corpus_emb_dim e_ecb)"
    by (simp_all add: C CorpusEncoder_init_def Let_def)
  have fw: "CorpusEncoder_forward C [y0, y1] [k0, k1] =
           (case CorpusEncoder03_forward e_ecb y0 k0 of
              Inl err \<Rightarrow> Inl err
            | Inr a \<Rightarrow>
                (case CorpusEncoder03_forward e_fed y1 k1 of
                   Inl err \<Rightarrow> Inl err
                 | Inr b \<Rightarrow> if length a = length b then Inr (Some (map2 (@) a b))
                            else Inl RuntimeError))" for y0 y1 k0 k1
    by (simp add: CorpusEncoder_forward_def Let_def Cd call_encoder_def tuple_get_def cat1_def
        split: sum.split)
  have d64: "ce_corpus_emb_dim C = Val 64"
    by (simp add: Cd e CorpusEncoder03_init_def)
  have sw: "CorpusEncoder_forward C [x1, x0] [m1, m0] = CorpusEncoder_forward C [x0, x1] [m0, m1]
      \<longleftrightarrow> a' = a \<and> b' = b"
    if "CorpusEncoder03_forward e_ecb x0 m0 = Inr a"
      "CorpusEncoder03_forward e_fed x1 m1 = Inr b"
      "CorpusEncoder03_forward e_ecb x1 m1 = Inr a'"
      "CorpusEncoder03_forward e_fed x0 m0 = Inr b'"
      "list_all2 (\<lambda>u v. length u = length v) a a'"
      "length b = length a" "length b' = length a" for a b a' b'
    using that map2_append_inj[OF that(5,6,7)] list_all2_lengthD[OF that(5)]
    by (simp add: fw)
  show ?thesis
    using Cd(5) d64 fw[of x0 x1 m0 m1] sw by blast
qed

theorem dual_encoder_concat_witness:
  "ce_corpus_emb_dim (corpus_encoder example_model) = Val 64
   \<and> CorpusEncoder_forward (corpus_encoder example_model)
        [[[[3, 4], [5, 6]]], [[[7, 8], [9, 1]]]]
        [Some [[[1, 1], [1, 1]]], Some [[[1, 1], [1, 1]]]]
      = Inr (Some [replicate 32 5 @ replicate 32 19])
   \<and> CorpusEncoder_forward (corpus_encoder example_model)
        [[[[7, 8], [9, 1]]], [[[3, 4], [5, 6]]]]
        [Some [[[1, 1], [1, 1]]], Some [[[1, 1], [1, 1]]]]
      \<noteq> CorpusEncoder_forward (corpus_encoder example_model)
        [[[[3, 4], [5, 6]]], [[[7, 8], [9, 1]]]]
        [Some [[[1, 1], [1, 1]]], Some [[[1, 1], [1, 1]]]]"
proof -
  have C: "corpus_encoder example_model
      = CorpusEncoder_init example_encoder example_encoder_fed (Some ''model_03'') True"
    by (simp add: example_model_def)
  note t = dual_encoder_concat[OF C example_encoder_def,
      of "[[[3, 4], [5, 6]]]" "[[[7, 8], [9, 1]]]"
         "Some [[[1, 1], [1, 1]]]" "Some [[[1, 1], [1, 1]]]"]
  note t2 = conjunct2[OF t]
  note t3 = conjunct2[OF t2]
  have 1: "ce_corpus_emb_dim (corpus_encoder example_model) = Val 64"
    using conjunct1[OF t2] .
  have 2: "CorpusEncoder_forward (corpus_encoder example_model)
        [[[[3, 4], [5, 6]]], [[[7, 8], [9, 1]]]]
        [Some [[[1, 1], [1, 1]]], Some [[[1, 1], [1, 1]]]]
      = Inr (Some [replicate 32 5 @ replicate 32 19])"
    unfolding conjunct1[OF t3] by (simp add: example_ecb_value example_fed_value)
  have 3: "CorpusEncoder_forward (corpus_encoder example_model)
        [[[[7, 8], [9, 1]]], [[[3, 4], [5, 6]]]]
        [Some [[[1, 1], [1, 1]]], Some [[[1, 1], [1, 1]]]]
      = CorpusEncoder_forward (corpus_encoder example_model)
        [[[[3, 4], [5, 6]]], [[[7, 8], [9, 1]]]]
        [Some [[[1, 1], [1, 1]]], Some [[[1, 1], [1, 1]]]]
      \<longleftrightarrow> [replicate 32 (9::real)] = [replicate 32 5] \<and> [replicate 32 (11::real)] = [replicate 32 19]"
    using conjunct2[OF t3, rule_format,
        of "[replicate 32 5]" "[replicate 32 19]" "[replicate 32 9]" "[replicate 32 11]"]
    by (simp add: example_ecb_value example_fed_value)
  show ?thesis using 1 2 3 by simp
qed

text \<open>
  The claim C6 as stated lets every swap change the result. When the two institutions
  hold the same documents in a different order, the inputs differ and the swap leaves
  the result as it is: the maximum over the document axis does not see the order.
\<close>

theorem swap_reordered_documents_counterexample:
  "[[[[3, 4], [5, 6]]], [[[5, 6], [3, 4 :: int]]]] \<noteq> [[[[5, 6], [3, 4]]], [[[3, 4], [5, 6]]]]
   \<and> CorpusEncoder_forward (corpus_encoder example_model)
        [[[[3, 4], [5, 6]]], [[[5, 6], [3, 4]]]]
        [Some [[[1, 1], [1, 1]]], Some [[[1, 1], [1, 1]]]]
      = Inr (Some [replicate 32 5 @ replicate 32 11])
   \<and> CorpusEncoder_forward (corpus_encoder example_model)
        [[[[5, 6], [3, 4]]], [[[3, 4], [5, 6]]]]
        [Some [[[1, 1], [1, 1]]], Some [[[1, 1], [1, 1]]]]
      = Inr (Some [replicate 32 5 @ replicate 32 11])"
  by (simp add: example_model_def CorpusEncoder_init_def Let_def CorpusEncoder_forward_def
      call_encoder_def tuple_get_def cat1_def example_ecb_value example_fed_value)




text \<open>
  C2. The code breaks the claim. Take one sample with one step, masked, \<open>W = 1\<close>,
  \<open>b = 0\<close>, \<open>u = 300\<close> and \<open>x = 1\<close>: the score \<open>300 * tanh 1\<close> is above 88.73, its
  exponential overflows to plus infinity, \<open>inf * 0\<close> is NaN, and NaN passes through the
  sum, the addition of \<open>eps\<close>, the division and the weighted sum. The forward call
  returns, and the pooled vector is NaN. The source marks the case as untreated
  ("TODO: Treat case if all masks are False") and gives as the purpose of \<open>eps\<close> that the
  division yields no NaN. Where no exponential overflows and the input is finite, the
  pooled output of a fully masked batch is zero (lemma \<open>attention_all_masked\<close>).
\<close>

theorem attention_all_masked_overflow:
  "AttentionWithContext_forward ieee32 (AttentionWithContext_init 1 True [[Fin 1]] [Fin 0] [Fin 300])
     [[[Fin 1]]] (Some [[[0]]])
   = Inr ([[NaN]], Some [[[NaN]]])"
  by (rule example_overflow_value)

text \<open>
  C3, as the code has it. Let the sub-modules act on every sample by itself (for dropout:
  evaluation mode). For every pair of forward passes of the top-level model that return,
  on well-formed batches of any sizes, the output of either pass is the concatenation of
  the outputs that the model returns for each of its samples alone. So if a sample's
  features (tokens, masks, nontextual vector) at position \<open>i\<close> of one batch equal those at
  position \<open>j\<close> of the other, the output for that sample is the same in both passes,
  whatever the other samples and their order are; with one value per sample,
  \<open>out1 ! i = out2 ! j\<close>.
\<close>

theorem forward_batch_independent:
  assumes ok: "model_per_sample M"
    and wf1: "batch_wf n1 xt1 xm1 xn1" and wf2: "batch_wf n2 xt2 xm2 xn2"
    and fw1: "MyModel_forward M xt1 xm1 (Some xn1) = Inr out1"
    and fw2: "MyModel_forward M xt2 xm2 (Some xn2) = Inr out2"
    and i: "i < n1" and j: "j < n2"
    and same: "sample_text i xt1 = sample_text j xt2" "sample_masks i xm1 = sample_masks j xm2"
      "xn1 ! i = xn2 ! j"
  shows "\<exists>outs1 outs2.
           out1 = concat outs1 \<and> length outs1 = n1 \<and>
           out2 = concat outs2 \<and> length outs2 = n2 \<and>
           (\<forall>k<n1. MyModel_forward M (sample_text k xt1) (sample_masks k xm1) (Some [xn1 ! k])
                     = Inr (outs1 ! k)) \<and>
           (\<forall>k<n2. MyModel_forward M (sample_text k xt2) (sample_masks k xm2) (Some [xn2 ! k])
                     = Inr (outs2 ! k)) \<and>
           outs1 ! i = outs2 ! j \<and>
           (list_all (\<lambda>v. length v = 1) outs1 \<and> list_all (\<lambda>v. length v = 1) outs2
              \<longrightarrow> out1 ! i = out2 ! j)"
proof -
  obtain outs1 where o1: "out1 = concat outs1" "length outs1 = n1"
    "\<forall>k<n1. MyModel_forward M (sample_text k xt1) (sample_masks k xm1) (Some [xn1 ! k])
        = Inr (outs1 ! k)"
    using MyModel_forward_per_sample[OF ok wf1 fw1] by blast
  obtain outs2 where o2: "out2 = concat outs2" "length outs2 = n2"
    "\<forall>k<n2. MyModel_forward M (sample_text k xt2) (sample_masks k xm2) (Some [xn2 ! k])
        = Inr (outs2 ! k)"
    using MyModel_forward_per_sample[OF ok wf2 fw2] by blast
  have eq: "outs1 ! i = outs2 ! j"
    using o1(3)[rule_format, OF i] o2(3)[rule_format, OF j] same by simp
  have "out1 ! i = out2 ! j"
    if "list_all (\<lambda>v. length v = 1) outs1" "list_all (\<lambda>v. length v = 1) outs2"
    using concat_singletons_nth[OF that(1), of i] concat_singletons_nth[OF that(2), of j]
      i j o1(1,2) o2(1,2) eq by simp
  with o1 o2 eq show ?thesis by blast
qed

theorem forward_batch_independent_witness:
  "model_per_sample example_model
   \<and> batch_wf 2
        [[[[3, 4], [5, 6]], [[2, 2], [1, 1]]], [[[7, 8], [9, 1]], [[4, 0], [3, 0]]]]
        [Some [[[1, 1], [1, 1]], [[1, 1], [1, 1]]], Some [[[1, 1], [1, 1]], [[1, 1], [1, 1]]]]
        [[1, 2, 3, 4, 5, 6, 7, 8, 9, 10, 0, 0, 1, 0, 0, 0, 0, 0, 0],
         [0, 0, 0, 0, 0, 0, 0, 0, 0, 1, 1, 0, 0, 0, 0, 0, 0, 0, 0] :: real list]
   \<and> batch_wf 2
        [[[[2, 2], [1, 1]], [[3, 4], [5, 6]]], [[[4, 0], [3, 0]], [[7, 8], [9, 1]]]]
        [Some [[[1, 1], [1, 1]], [[1, 1], [1, 1]]], Some [[[1, 1], [1, 1]], [[1, 1], [1, 1]]]]
        [[0, 0, 0, 0, 0, 0, 0, 0, 0, 1, 1, 0, 0, 0, 0, 0, 0, 0, 0],
         [1, 2, 3, 4, 5, 6, 7, 8, 9, 10, 0, 0, 1, 0, 0, 0, 0, 0, 0] :: real list]
   \<and> MyModel_forward example_model
        [[[[3, 4], [5, 6]], [[2, 2], [1, 1]]], [[[7, 8], [9, 1]], [[4, 0], [3, 0]]]]
        [Some [[[1, 1], [1, 1]], [[1, 1], [1, 1]]], Some [[[1, 1], [1, 1]], [[1, 1], [1, 1]]]]
        (Some [[1, 2, 3, 4, 5, 6, 7, 8, 9, 10, 0, 0, 1, 0, 0, 0, 0, 0, 0],
              [0, 0, 0, 0, 0, 0, 0, 0, 0, 1, 1, 0, 0, 0, 0, 0, 0, 0, 0]])
      = Inr [1601, 715]
   \<and> MyModel_forward example_model
        [[[[2, 2], [1, 1]], [[3, 4], [5, 6]]], [[[4, 0], [3, 0]], [[7, 8], [9, 1]]]]
        [Some [[[1, 1], [1, 1]], [[1, 1], [1, 1]]], Some [[[1, 1], [1, 1]], [[1, 1], [1, 1]]]]
        (Some [[0, 0, 0, 0, 0, 0, 0, 0, 0, 1, 1, 0, 0, 0, 0, 0, 0, 0, 0],
              [1, 2, 3, 4, 5, 6, 7, 8, 9, 10, 0, 0, 1, 0, 0, 0, 0, 0, 0]])
      = Inr [715, 1601]
   \<and> sample_text 0 [[[[3, 4], [5, 6]], [[2, 2], [1, 1]]], [[[7, 8], [9, 1]], [[4, 0], [3, 0]]]]
      = sample_text 1 [[[[2, 2], [1, 1]], [[3, 4], [5, 6]]], [[[4, 0], [3, 0]], [[7, 8], [9, 1]]]]
   \<and> sample_masks 0 [Some [[[1, 1], [1, 1]], [[1, 1], [1, 1]]], Some [[[1, 1], [1, 1]], [[1, 1], [1, 1]]]]
      = sample_masks 1 [Some [[[1, 1], [1, 1]], [[1, 1], [1, 1]]], Some [[[1, 1], [1, 1]], [[1, 1], [1, 1]]]]
   \<and> (\<exists>outs1 outs2.
         [1601, 715] = concat outs1 \<and> length outs1 = 2 \<and>
         [715, 1601] = concat outs2 \<and> length outs2 = 2 \<and>
         MyModel_forward example_model [[[[3, 4], [5, 6]]], [[[7, 8], [9, 1]]]]
           [Some [[[1, 1], [1, 1]]], Some [[[1, 1], [1, 1]]]]
           (Some [[1, 2, 3, 4, 5, 6, 7, 8, 9, 10, 0, 0, 1, 0, 0, 0, 0, 0, 0]])
         = Inr (outs1 ! 0) \<and>
         outs1 ! 0 = outs2 ! 1)"
proof -
  have wf1: "batch_wf 2
        [[[[3, 4], [5, 6]], [[2, 2], [1, 1]]], [[[7, 8], [9, 1]], [[4, 0], [3, 0]]]]
        [Some [[[1, 1], [1, 1]], [[1, 1], [1, 1]]], Some [[[1, 1], [1, 1]], [[1, 1], [1, 1]]]]
        [[1, 2, 3, 4, 5, 6, 7, 8, 9, 10, 0, 0, 1, 0, 0, 0, 0, 0, 0],
         [0, 0, 0, 0, 0, 0, 0, 0, 0, 1, 1, 0, 0, 0, 0, 0, 0, 0, 0] :: real list]"
    by (rule example_batch_wf)
  have wf2: "batch_wf 2
        [[[[2, 2], [1, 1]], [[3, 4], [5, 6]]], [[[4, 0], [3, 0]], [[7, 8], [9, 1]]]]
        [Some [[[1, 1], [1, 1]], [[1, 1], [1, 1]]], Some [[[1, 1], [1, 1]], [[1, 1], [1, 1]]]]
        [[0, 0, 0, 0, 0, 0, 0, 0, 0, 1, 1, 0, 0, 0, 0, 0, 0, 0, 0],
         [1, 2, 3, 4, 5, 6, 7, 8, 9, 10, 0, 0, 1, 0, 0, 0, 0, 0, 0] :: real list]"
    by (rule example_batch_wf)
  have h: "(0::nat) < 2" "(1::nat) < 2" by simp_all
  have st: "sample_text 0 [[[[3, 4], [5, 6]], [[2, 2], [1, 1]]], [[[7, 8], [9, 1]], [[4, 0], [3, 0]]]]
      = sample_text 1 [[[[2, 2], [1, 1]], [[3, 4], [5, 6]]], [[[4, 0], [3, 0]], [[7, 8], [9, 1]]]]"
    by (simp add: sample_text_def)
  have sm: "sample_masks 0 [Some [[[1, 1], [1, 1]], [[1, 1], [1, 1]]], Some [[[1, 1], [1, 1]], [[1, 1], [1, 1]]]]
      = sample_masks 1 [Some [[[1, 1], [1, 1]], [[1, 1], [1, 1]]], Some [[[1, 1], [1, 1]], [[1, 1], [1, 1]]]]"
    by (simp add: sample_masks_def)
  have sn: "[[1, 2, 3, 4, 5, 6, 7, 8, 9, 10, 0, 0, 1, 0, 0, 0, 0, 0, 0],
         [0, 0, 0, 0, 0, 0, 0, 0, 0, 1, 1, 0, 0, 0, 0, 0, 0, 0, 0] :: real list] ! 0
      = [[0, 0, 0, 0, 0, 0, 0, 0, 0, 1, 1, 0, 0, 0, 0, 0, 0, 0, 0],
         [1, 2, 3, 4, 5, 6, 7, 8, 9, 10, 0, 0, 1, 0, 0, 0, 0, 0, 0] :: real list] ! 1"
    by simp
  note t = forward_batch_independent[OF example_model_per_sample wf1 wf2
      example_eval_forward example_eval_forward_swapped h st sm sn]
  then obtain outs1 outs2 where o:
    "[1601, 715] = concat outs1" "length outs1 = 2"
    "[715, 1601] = concat outs2" "length outs2 = 2"
    "\<forall>k<2. MyModel_forward example_model
        (sample_text k [[[[3, 4], [5, 6]], [[2, 2], [1, 1]]], [[[7, 8], [9, 1]], [[4, 0], [3, 0]]]])
        (sample_masks k [Some [[[1, 1], [1, 1]], [[1, 1], [1, 1]]], Some [[[1, 1], [1, 1]], [[1, 1], [1, 1]]]])
        (Some [[[1, 2, 3, 4, 5, 6, 7, 8, 9, 10, 0, 0, 1, 0, 0, 0, 0, 0, 0],
         [0, 0, 0, 0, 0, 0, 0, 0, 0, 1, 1, 0, 0, 0, 0, 0, 0, 0, 0] :: real list] ! k])
      = Inr (outs1 ! k)"
    "outs1 ! 0 = outs2 ! 1"
    by blast
  have "MyModel_forward example_model [[[[3, 4], [5, 6]]], [[[7, 8], [9, 1]]]]
           [Some [[[1, 1], [1, 1]]], Some [[[1, 1], [1, 1]]]]
           (Some [[1, 2, 3, 4, 5, 6, 7, 8, 9, 10, 0, 0, 1, 0, 0, 0, 0, 0, 0]])
         = Inr (outs1 ! 0)"
    using o(5)[rule_format, OF h(1)] by (simp add: sample_text_def sample_masks_def)
  with o(1-4,6) have "\<exists>outs1 outs2.
         [1601, 715] = concat outs1 \<and> length outs1 = 2 \<and>
         [715, 1601] = concat outs2 \<and> length outs2 = 2 \<and>
         MyModel_forward example_model [[[[3, 4], [5, 6]]], [[[7, 8], [9, 1]]]]
           [Some [[[1, 1], [1, 1]]], Some [[[1, 1], [1, 1]]]]
           (Some [[1, 2, 3, 4, 5, 6, 7, 8, 9, 10, 0, 0, 1, 0, 0, 0, 0, 0, 0]])
         = Inr (outs1 ! 0) \<and>
         outs1 ! 0 = outs2 ! 1"
    by blast
  with example_model_per_sample wf1 wf2 example_eval_forward example_eval_forward_swapped st sm
  show ?thesis by blast
qed

text \<open>
  C3, as stated, fails in training mode, the mode a module is in until \<open>eval()\<close> is called:
  the document encoder's dropout draws its mask over the rows of the flattened batch, so
  what a sample keeps depends on where it stands. With the draw \<open>example_keep\<close> (first row
  zeroed) in both passes, the sample that is second in the batch of the first pass and
  first in the batch of the second pass, with the same tokens, masks and nontextual
  vector, gets 1355 in the first pass and 971 in the second.
\<close>

theorem training_dropout_batch_counterexample:
  "MyModel_forward example_model_train
        [[[[3, 4], [5, 6]], [[2, 2], [1, 1]]], [[[7, 8], [9, 1]], [[4, 0], [3, 0]]]]
        [Some [[[1, 1], [1, 1]], [[1, 1], [1, 1]]], Some [[[1, 1], [1, 1]], [[1, 1], [1, 1]]]]
        (Some [[1, 2, 3, 4, 5, 6, 7, 8, 9, 10, 0, 0, 1, 0, 0, 0, 0, 0, 0],
              [0, 0, 0, 0, 0, 0, 0, 0, 0, 1, 1, 0, 0, 0, 0, 0, 0, 0, 0]])
      = Inr [3073, 1355]
   \<and> MyModel_forward example_model_train
        [[[[2, 2], [1, 1]], [[3, 4], [5, 6]]], [[[4, 0], [3, 0]], [[7, 8], [9, 1]]]]
        [Some [[[1, 1], [1, 1]], [[1, 1], [1, 1]]], Some [[[1, 1], [1, 1]], [[1, 1], [1, 1]]]]
        (Some [[0, 0, 0, 0, 0, 0, 0, 0, 0, 1, 1, 0, 0, 0, 0, 0, 0, 0, 0],
              [1, 2, 3, 4, 5, 6, 7, 8, 9, 10, 0, 0, 1, 0, 0, 0, 0, 0, 0]])
      = Inr [971, 3073]
   \<and> sample_text 1 [[[[3, 4], [5, 6]], [[2, 2], [1, 1]]], [[[7, 8], [9, 1]], [[4, 0], [3, 0]]]]
      = sample_text 0 [[[[2, 2], [1, 1]], [[3, 4], [5, 6]]], [[[4, 0], [3, 0]], [[7, 8], [9, 1]]]]
   \<and> sample_masks 1 [Some [[[1, 1], [1, 1]], [[1, 1], [1, 1]]], Some [[[1, 1], [1, 1]], [[1, 1], [1, 1]]]]
      = sample_masks 0 [Some [[[1, 1], [1, 1]], [[1, 1], [1, 1]]], Some [[[1, 1], [1, 1]], [[1, 1], [1, 1]]]]
   \<and> [[1, 2, 3, 4, 5, 6, 7, 8, 9, 10, 0, 0, 1, 0, 0, 0, 0, 0, 0],
         [0, 0, 0, 0, 0, 0, 0, 0, 0, 1, 1, 0, 0, 0, 0, 0, 0, 0, 0] :: real list] ! 1
      = [[0, 0, 0, 0, 0, 0, 0, 0, 0, 1, 1, 0, 0, 0, 0, 0, 0, 0, 0],
         [1, 2, 3, 4, 5, 6, 7, 8, 9, 10, 0, 0, 1, 0, 0, 0, 0, 0, 0] :: real list] ! 0
   \<and> [3073, 1355] ! 1 \<noteq> [971, 3073 :: real] ! 0"
proof -
  have st: "sample_text 1 [[[[3, 4], [5, 6]], [[2, 2], [1, 1]]], [[[7, 8], [9, 1]], [[4, 0], [3, 0]]]]
      = sample_text 0 [[[[2, 2], [1, 1]], [[3, 4], [5, 6]]], [[[4, 0], [3, 0]], [[7, 8], [9, 1]]]]"
    by (simp add: sample_text_def)
  have sm: "sample_masks 1 [Some [[[1, 1], [1, 1]], [[1, 1], [1, 1]]], Some [[[1, 1], [1, 1]], [[1, 1], [1, 1]]]]
      = sample_masks 0 [Some [[[1, 1], [1, 1]], [[1, 1], [1, 1]]], Some [[[1, 1], [1, 1]], [[1, 1], [1, 1]]]]"
    by (simp add: sample_masks_def)
  have sn: "[[1, 2, 3, 4, 5, 6, 7, 8, 9, 10, 0, 0, 1, 0, 0, 0, 0, 0, 0],
         [0, 0, 0, 0, 0, 0, 0, 0, 0, 1, 1, 0, 0, 0, 0, 0, 0, 0, 0] :: real list] ! 1
      = [[0, 0, 0, 0, 0, 0, 0, 0, 0, 1, 1, 0, 0, 0, 0, 0, 0, 0, 0],
         [1, 2, 3, 4, 5, 6, 7, 8, 9, 10, 0, 0, 1, 0, 0, 0, 0, 0, 0] :: real list] ! 0"
    by simp
  have ne: "[3073, 1355] ! 1 \<noteq> [971, 3073 :: real] ! 0" by simp
  from example_train_forward example_train_forward_swapped st sm sn ne
  show ?thesis by blast
qed

end
